(* ===== verification/Prelude.thy ===== *)
theory Prelude
  imports
    Main
    "HOL-Library.AList"
    "HOL-Library.Char_ord"
    "HOL-Library.List_Lexorder"
    "HOL-Library.Multiset"
    "HOL-Library.Sublist"
    "HOL-Library.Word"
begin

text \<open>
  The parts of Go that the whole development shares.

  \<^item> \<open>goerr\<close> and \<open>'a go\<close>: error values and the three ways a Go call ends (a value, a non-nil
    error, a run-time panic). An error made by \<^verbatim>\<open>fmt.Errorf\<close> keeps its format and its
    arguments; the kinds of Kubernetes API errors that the code distinguishes
    (\<^verbatim>\<open>errors.IsNotFound\<close>, \<^verbatim>\<open>errors.IsConflict\<close>) are constructors.
  \<^item> \<open>'v gomap\<close>: a Go map with string keys, as an association list with distinct keys.
    The order in which \<^verbatim>\<open>range\<close> visits a map is not specified by Go, so every definition
    that ranges over a map takes the order as an argument, and \<open>range_ok\<close> is all that is
    known of it: each entry is visited exactly once.
  \<^item> \<open>'a slice\<close>: a Go slice where the code compares with \<^verbatim>\<open>reflect.DeepEqual\<close>, which tells
    the nil slice (\<^const>\<open>None\<close>) from an empty one.
  \<^item> the functions of \<^verbatim>\<open>strings\<close>, \<^verbatim>\<open>strconv\<close> and \<^verbatim>\<open>fmt\<close> the sources call. Strings are
    byte sequences and their order is the bytewise lexicographic one, as in Go.
  \<^item> the collection \<open>go_simps\<close> of rewrite rules the component proofs share.
\<close>

named_theorems go_simps

section \<open>Errors and results\<close>

datatype goerr =
    Errorf string "string list"
  | NotFound string
  | Conflict string
  | ResourceExpired string
  | ExtError string

datatype 'a go = Ok 'a | Err goerr | Panic string

fun isNotFound :: "goerr \<Rightarrow> bool" where
  "isNotFound (NotFound _) = True"
| "isNotFound _ = False"

fun isConflict :: "goerr \<Rightarrow> bool" where
  "isConflict (Conflict _) = True"
| "isConflict _ = False"

fun is_Ok :: "'a go \<Rightarrow> bool" where
  "is_Ok (Ok _) = True"
| "is_Ok _ = False"

section \<open>Maps and slices\<close>

type_synonym 'v gomap = "(string \<times> 'v) list"
type_synonym 'a slice = "'a list option"
type_synonym range_order = "string gomap \<Rightarrow> string gomap"

definition gomap_ok :: "'v gomap \<Rightarrow> bool" where
  "gomap_ok m = distinct (map fst m)"

text \<open>Reading a missing key of a \<^verbatim>\<open>map[string]string\<close> gives the zero value \<^verbatim>\<open>""\<close>.\<close>

definition m_get :: "string gomap \<Rightarrow> string \<Rightarrow> string" where
  "m_get m k = (case map_of m k of None \<Rightarrow> [] | Some v \<Rightarrow> v)"

definition m_set :: "string \<Rightarrow> 'v \<Rightarrow> 'v gomap \<Rightarrow> 'v gomap" where
  "m_set k v m = AList.update k v m"

definition range_ok :: "range_order \<Rightarrow> bool" where
  "range_ok ord \<longleftrightarrow> (\<forall>m. mset (ord m) = mset m)"

definition elems :: "'a slice \<Rightarrow> 'a list" where
  "elems s = (case s of None \<Rightarrow> [] | Some xs \<Rightarrow> xs)"

definition to_slice :: "'a list \<Rightarrow> 'a slice" where
  "to_slice xs = (if xs = [] then None else Some xs)"

section \<open>Strings\<close>

fun split_on :: "char \<Rightarrow> string \<Rightarrow> string list" where
  "split_on c [] = [[]]"
| "split_on c (x # xs) =
     (if x = c then [] # split_on c xs
      else (case split_on c xs of [] \<Rightarrow> [[x]] | y # ys \<Rightarrow> (x # y) # ys))"

fun join_with :: "char \<Rightarrow> string list \<Rightarrow> string" where
  "join_with c [] = []"
| "join_with c [x] = x"
| "join_with c (x # y # ys) = x @ c # join_with c (y # ys)"

definition replaceAll :: "char \<Rightarrow> string \<Rightarrow> string \<Rightarrow> string" where
  "replaceAll old new s = concat (map (\<lambda>c. if c = old then new else [c]) s)"

fun hasPrefix :: "string \<Rightarrow> string \<Rightarrow> bool" where
  "hasPrefix [] s = True"
| "hasPrefix (p # ps) [] = False"
| "hasPrefix (p # ps) (x # xs) = (p = x \<and> hasPrefix ps xs)"

definition hasSuffix :: "string \<Rightarrow> string \<Rightarrow> bool" where
  "hasSuffix suf s = hasPrefix (rev suf) (rev s)"

definition trimSuffix :: "string \<Rightarrow> string \<Rightarrow> string" where
  "trimSuffix s suf = (if hasSuffix suf s then take (length s - length suf) s else s)"

fun strContains :: "string \<Rightarrow> string \<Rightarrow> bool" where
  "strContains sub [] = (sub = [])"
| "strContains sub (x # xs) = (hasPrefix sub (x # xs) \<or> strContains sub xs)"

definition toLower_char :: "char \<Rightarrow> char" where
  "toLower_char c =
     (if 65 \<le> (of_char c :: nat) \<and> (of_char c :: nat) \<le> 90 then char_of (of_char c + 32 :: nat) else c)"

definition toLower :: "string \<Rightarrow> string" where
  "toLower s = map toLower_char s"

text \<open>\<^verbatim>\<open>fmt.Sprintf\<close> for the verbs \<^verbatim>\<open>%s\<close> and \<^verbatim>\<open>%v\<close>, applied to already printed arguments.\<close>

fun sprintf :: "string \<Rightarrow> string list \<Rightarrow> string" where
  "sprintf [] as = []"
| "sprintf [c] as = [c]"
| "sprintf (c # d # fs) [] = c # sprintf (d # fs) []"
| "sprintf (c # d # fs) (a # as) =
     (if c = CHR ''%'' \<and> (d = CHR ''s'' \<or> d = CHR ''v'') then a @ sprintf fs as
      else c # sprintf (d # fs) (a # as))"

text \<open>\<^verbatim>\<open>err.Error()\<close>.\<close>

fun err_text :: "goerr \<Rightarrow> string" where
  "err_text (Errorf f as) = sprintf f as"
| "err_text (NotFound s) = s"
| "err_text (Conflict s) = s"
| "err_text (ResourceExpired s) = s"
| "err_text (ExtError s) = s"

text \<open>Decimal digits and \<^verbatim>\<open>strconv.Itoa\<close>.\<close>

definition digit_char :: "nat \<Rightarrow> char" where
  "digit_char d = char_of (48 + d)"

fun show_nat :: "nat \<Rightarrow> string" where
  "show_nat n = (if n < 10 then [digit_char n] else show_nat (n div 10) @ [digit_char (n mod 10)])"

definition itoa :: "int \<Rightarrow> string" where
  "itoa i = (if i < 0 then CHR ''-'' # show_nat (nat (- i)) else show_nat (nat i))"

definition is_digit :: "char \<Rightarrow> bool" where
  "is_digit c \<longleftrightarrow> 48 \<le> (of_char c :: nat) \<and> (of_char c :: nat) \<le> 57"

definition digit_val :: "char \<Rightarrow> nat" where
  "digit_val c = of_char c - 48"

fun digits_val :: "nat \<Rightarrow> string \<Rightarrow> nat" where
  "digits_val acc [] = acc"
| "digits_val acc (c # cs) = digits_val (10 * acc + digit_val c) cs"

section \<open>64-bit integers\<close>

text \<open>
  Go's \<^verbatim>\<open>int\<close>, \<^verbatim>\<open>int64\<close> and \<^verbatim>\<open>time.Duration\<close> are signed 64-bit integers. The model keeps them
  as \<open>int\<close> and applies \<open>int64\<close> where an operation can overflow.
\<close>

definition int64 :: "int \<Rightarrow> int" where
  "int64 i = sint (word_of_int i :: 64 word)"

definition max_int64 :: int where "max_int64 = 9223372036854775807"
definition min_int64 :: int where "min_int64 = -9223372036854775808"

text \<open>
  \<^verbatim>\<open>strconv.Atoi\<close>: an optional sign and at least one decimal digit. A syntax error gives the
  value 0; a value out of range gives the nearest bound. Both come with an error.
\<close>

definition atoi :: "string \<Rightarrow> int \<times> goerr option" where
  "atoi s =
     (let neg = (case s of [] \<Rightarrow> False | c # _ \<Rightarrow> c = CHR ''-'');
          ds = (case s of [] \<Rightarrow> [] | c # cs \<Rightarrow> if c = CHR ''-'' \<or> c = CHR ''+'' then cs else s)
      in if ds = [] \<or> \<not> list_all is_digit ds then (0, Some (ExtError ''invalid syntax''))
         else let v = int (digits_val 0 ds); i = (if neg then - v else v)
              in if i > max_int64 then (max_int64, Some (ExtError ''value out of range''))
                 else if i < min_int64 then (min_int64, Some (ExtError ''value out of range''))
                 else (i, None))"

section \<open>Shared lemmas\<close>

lemma isNotFound_iff: "isNotFound e \<longleftrightarrow> (\<exists>s. e = NotFound s)"
  by (cases e) auto

lemma isConflict_iff: "isConflict e \<longleftrightarrow> (\<exists>s. e = Conflict s)"
  by (cases e) auto

lemma is_Ok_iff: "is_Ok r \<longleftrightarrow> (\<exists>x. r = Ok x)"
  by (cases r) auto

lemma map_of_m_set [simp]: "map_of (m_set k v m) = (map_of m)(k \<mapsto> v)"
  by (simp add: m_set_def update_conv')

lemma keys_m_set [simp]: "fst ` set (m_set k v m) = insert k (fst ` set m)"
  by (simp add: m_set_def dom_update)

lemma gomap_ok_Nil [simp]: "gomap_ok []"
  by (simp add: gomap_ok_def)

lemma gomap_ok_m_set [simp, intro]: "gomap_ok m \<Longrightarrow> gomap_ok (m_set k v m)"
  by (simp add: gomap_ok_def m_set_def distinct_update)

lemma m_get_m_set [simp]: "m_get (m_set k v m) k' = (if k' = k then v else m_get m k')"
  by (simp add: m_get_def)

lemma range_okD: "range_ok ord \<Longrightarrow> mset (ord m) = mset m"
  by (simp add: range_ok_def)

lemma range_ok_set: "range_ok ord \<Longrightarrow> set (ord m) = set m"
  by (metis range_okD set_mset_mset)

lemma range_ok_id: "range_ok (\<lambda>m. m)"
  by (simp add: range_ok_def)

lemma range_ok_distinct: "range_ok ord \<Longrightarrow> gomap_ok m \<Longrightarrow> gomap_ok (ord m)"
  using mset_eq_imp_distinct_iff [of "map fst (ord m)" "map fst m"]
  by (simp add: gomap_ok_def range_okD)

lemma gomap_ok_map_of: "gomap_ok m \<Longrightarrow> map_of m k = Some v \<longleftrightarrow> (k, v) \<in> set m"
  by (simp add: gomap_ok_def)

lemma elems_None [simp]: "elems None = []"
  by (simp add: elems_def)

lemma elems_Some [simp]: "elems (Some xs) = xs"
  by (simp add: elems_def)

lemma elems_to_slice [simp]: "elems (to_slice xs) = xs"
  by (simp add: to_slice_def)

lemma split_on_neq_Nil [simp]: "split_on c s \<noteq> []"
  by (induction s) (auto split: list.splits)

lemma split_on_no_sep: "c \<notin> set s \<Longrightarrow> split_on c s = [s]"
  by (induction s) auto

lemma split_on_append: "c \<notin> set s \<Longrightarrow> split_on c (s @ c # t) = s # split_on c t"
  by (induction s) auto

lemma split_on_append_sep: "split_on c (s @ c # t) = split_on c s @ split_on c t"
proof (induction s)
  case (Cons x s)
  then show ?case by (cases "split_on c s") auto
qed simp

lemma split_on_Cons_conv:
  "split_on c (x # s) = (if x = c then [] # split_on c s
     else (x # hd (split_on c s)) # tl (split_on c s))"
  by (cases "split_on c s") auto

lemma split_on_pieces: "p \<in> set (split_on c s) \<Longrightarrow> c \<notin> set p"
  by (induction s arbitrary: p) (auto split: list.splits if_splits)

lemma join_split: "join_with c (split_on c s) = s"
proof (induction s)
  case (Cons x s)
  obtain y ys where ys: "split_on c s = y # ys" by (cases "split_on c s") auto
  with Cons.IH show ?case by (cases ys) auto
qed simp

lemma split_join:
  "ps \<noteq> [] \<Longrightarrow> \<forall>p \<in> set ps. c \<notin> set p \<Longrightarrow> split_on c (join_with c ps) = ps"
  by (induction c ps rule: join_with.induct) (auto simp: split_on_no_sep split_on_append)

lemma hasPrefix_iff: "hasPrefix p s \<longleftrightarrow> (\<exists>t. s = p @ t)"
  by (induction p s rule: hasPrefix.induct) auto

lemma hasSuffix_iff: "hasSuffix suf s \<longleftrightarrow> (\<exists>t. s = t @ suf)"
  unfolding hasSuffix_def hasPrefix_iff
  by (metis rev_append rev_rev_ident)

lemma trimSuffix_append [simp]: "trimSuffix (s @ suf) suf = s"
  by (auto simp: trimSuffix_def hasSuffix_iff)

lemma strContains_iff: "strContains sub s \<longleftrightarrow> (\<exists>a b. s = a @ sub @ b)"
proof (induction s)
  case (Cons x s)
  show ?case
    by (auto simp: Cons.IH hasPrefix_iff) (metis append_eq_Cons_conv)+
qed auto

lemma filter_replaceAll: "replaceAll c [] s = filter (\<lambda>x. x \<noteq> c) s"
  by (induction s) (auto simp: replaceAll_def)

lemma map_replaceAll: "replaceAll c [d] s = map (\<lambda>x. if x = c then d else x) s"
  by (induction s) (auto simp: replaceAll_def)

lemma int64_id: "min_int64 \<le> i \<Longrightarrow> i \<le> max_int64 \<Longrightarrow> int64 i = i"
  by (simp add: int64_def min_int64_def max_int64_def sint_sbintrunc'
      signed_take_bit_int_eq_self_iff)

lemma int64_range: "min_int64 \<le> int64 i \<and> int64 i \<le> max_int64"
  using sint_ge [of "word_of_int i :: 64 word"] sint_lt [of "word_of_int i :: 64 word"]
  by (simp add: int64_def min_int64_def max_int64_def)

declare show_nat.simps [simp del]

lemma of_char_digit: "d \<le> 9 \<Longrightarrow> (of_char (digit_char d) :: nat) = 48 + d"
  by (simp add: digit_char_def of_char_of)

lemma show_nat_1: "n < 10 \<Longrightarrow> show_nat n = [digit_char n]"
  by (simp add: show_nat.simps)

lemma show_nat_2: "10 \<le> n \<Longrightarrow> n < 100 \<Longrightarrow> show_nat n = [digit_char (n div 10), digit_char (n mod 10)]"
  by (simp add: show_nat.simps [of n] show_nat_1)

lemma show_nat_3:
  "100 \<le> n \<Longrightarrow> n < 1000 \<Longrightarrow>
     show_nat n = [digit_char (n div 100), digit_char (n div 10 mod 10), digit_char (n mod 10)]"
  by (simp add: show_nat.simps [of n] show_nat_2 div_mult2_eq [symmetric])

lemma show_nat_4:
  "1000 \<le> n \<Longrightarrow> n < 10000 \<Longrightarrow>
     show_nat n = [digit_char (n div 1000), digit_char (n div 100 mod 10), digit_char (n div 10 mod 10),
       digit_char (n mod 10)]"
  by (simp add: show_nat.simps [of n] show_nat_3 div_mult2_eq [symmetric])

lemma digit_char_simps [simp]:
  "d \<le> 9 \<Longrightarrow> is_digit (digit_char d)" "d \<le> 9 \<Longrightarrow> digit_val (digit_char d) = d"
  by (simp_all add: is_digit_def digit_val_def of_char_digit)

text \<open>Eliminations for one step of code that threads a world.\<close>

lemma sum_stepE:
  assumes "(case m of (Inl e, w) \<Rightarrow> f e w | (Inr x, w) \<Rightarrow> g x w) = r"
  obtains (Inl) e w where "m = (Inl e, w)" "f e w = r" | (Inr) x w where "m = (Inr x, w)" "g x w = r"
  using assms by (auto split: prod.splits sum.splits)

lemma opt_stepE:
  assumes "(case m of (Some e, w) \<Rightarrow> f e w | (None, w) \<Rightarrow> g w) = r"
  obtains (Some) e w where "m = (Some e, w)" "f e w = r" | (None) w where "m = (None, w)" "g w = r"
  using assms by (auto split: prod.splits option.splits)

lemma go_stepE:
  assumes "(case m of (Ok x, w) \<Rightarrow> g x w | (Err e, w) \<Rightarrow> f e w | (Panic p, w) \<Rightarrow> h p w) = r"
  obtains (Ok) x w where "m = (Ok x, w)" "g x w = r" | (Err) e w where "m = (Err e, w)" "f e w = r"
    | (Panic) p w where "m = (Panic p, w)" "h p w = r"
  using assms by (auto split: prod.splits go.splits)

end
