(* ===== verification/Regexp.thy ===== *)
theory Regexp
  imports Prelude
begin

text \<open>
  Regular expressions as \<^verbatim>\<open>controllers/depresolver/depresolver_validator.go\<close> uses them: the five
  patterns of its constant block and \<^verbatim>\<open>regexp.Match\<close>. Every pattern there is anchored at
  both ends, so a match is membership of the whole text in the language of the
  expression between \<^verbatim>\<open>^\<close> and \<^verbatim>\<open>$\<close>.

  \<open>matches\<close> is the language (an inductive predicate), \<open>re_match\<close> the executable matcher by
  derivatives, and \<open>re_match_iff\<close> their agreement. The rest reads the patterns: what a host
  name, an IPv4 address, a geo tag and a namespace are, without regular expressions.
\<close>

section \<open>Expressions and their matcher\<close>

datatype re =
    Void
  | Eps
  | Cls "(char \<times> char) list"
  | Seq re re
  | Alt re re
  | Star re

definition in_class :: "(char \<times> char) list \<Rightarrow> char \<Rightarrow> bool" where
  "in_class rs c = list_ex (\<lambda>(lo, hi). (of_char lo :: nat) \<le> of_char c \<and> (of_char c :: nat) \<le> of_char hi) rs"

fun nullable :: "re \<Rightarrow> bool" where
  "nullable Void = False"
| "nullable Eps = True"
| "nullable (Cls rs) = False"
| "nullable (Seq r s) = (nullable r \<and> nullable s)"
| "nullable (Alt r s) = (nullable r \<or> nullable s)"
| "nullable (Star r) = True"

text \<open>Constructors that drop empty alternatives, so that derivatives stay small.\<close>

fun mk_seq :: "re \<Rightarrow> re \<Rightarrow> re" where
  "mk_seq Void s = Void"
| "mk_seq Eps s = s"
| "mk_seq r s = Seq r s"

fun mk_alt :: "re \<Rightarrow> re \<Rightarrow> re" where
  "mk_alt Void s = s"
| "mk_alt r Void = r"
| "mk_alt r s = (if r = s then r else Alt r s)"

fun deriv :: "char \<Rightarrow> re \<Rightarrow> re" where
  "deriv c Void = Void"
| "deriv c Eps = Void"
| "deriv c (Cls rs) = (if in_class rs c then Eps else Void)"
| "deriv c (Seq r s) =
     (if nullable r then mk_alt (mk_seq (deriv c r) s) (deriv c s) else mk_seq (deriv c r) s)"
| "deriv c (Alt r s) = mk_alt (deriv c r) (deriv c s)"
| "deriv c (Star r) = mk_seq (deriv c r) (Star r)"

fun re_match :: "re \<Rightarrow> string \<Rightarrow> bool" where
  "re_match r [] = nullable r"
| "re_match r (c # cs) = re_match (deriv c r) cs"

definition chr :: "char \<Rightarrow> re" where "chr c = Cls [(c, c)]"
definition opt :: "re \<Rightarrow> re" where "opt r = Alt r Eps"

fun rep :: "nat \<Rightarrow> re \<Rightarrow> re" where
  "rep 0 r = Eps"
| "rep (Suc n) r = Seq r (rep n r)"

section \<open>The patterns of the validator\<close>

definition r_az :: "char \<times> char" where "r_az = (CHR ''a'', CHR ''z'')"
definition r_AZ :: "char \<times> char" where "r_AZ = (CHR ''A'', CHR ''Z'')"
definition r_09 :: "char \<times> char" where "r_09 = (CHR ''0'', CHR ''9'')"
definition r_19 :: "char \<times> char" where "r_19 = (CHR ''1'', CHR ''9'')"
definition r_hyphen :: "char \<times> char" where "r_hyphen = (CHR ''-'', CHR ''-'')"
definition r_dot :: "char \<times> char" where "r_dot = (CHR ''.'', CHR ''.'')"
definition r_uscore :: "char \<times> char" where "r_uscore = (CHR ''_'', CHR ''_'')"

text \<open>\<^verbatim>\<open>^[a-zA-Z\-\d]*$\<close>\<close>

definition geoTagRegex :: re where
  "geoTagRegex = Star (Cls [r_az, r_AZ, r_hyphen, r_09])"

text \<open>\<^verbatim>\<open>[a-zA-Z0-9]|[a-zA-Z0-9][a-zA-Z0-9\-]*[a-zA-Z0-9]\<close>, the label of the next pattern.\<close>

definition labelRegex :: re where
  "labelRegex = Alt (Cls [r_az, r_AZ, r_09])
     (Seq (Cls [r_az, r_AZ, r_09])
        (Seq (Star (Cls [r_az, r_AZ, r_09, r_hyphen])) (Cls [r_az, r_AZ, r_09])))"

text \<open>\<^verbatim>\<open>^(label\.)*(label)$\<close>\<close>

definition hostNameRegex :: re where
  "hostNameRegex = Seq (Star (Seq labelRegex (chr CHR ''.''))) labelRegex"

text \<open>\<^verbatim>\<open>[0-9]|[1-9][0-9]|1[0-9]{2}|2[0-4][0-9]|25[0-5]\<close>\<close>

definition octetRegex :: re where
  "octetRegex = Alt (Cls [r_09]) (Alt (Seq (Cls [r_19]) (Cls [r_09]))
     (Alt (Seq (chr CHR ''1'') (Seq (Cls [r_09]) (Cls [r_09])))
     (Alt (Seq (chr CHR ''2'') (Seq (Cls [(CHR ''0'', CHR ''4'')]) (Cls [r_09])))
          (Seq (chr CHR ''2'') (Seq (chr CHR ''5'') (Cls [(CHR ''0'', CHR ''5'')]))))))"

text \<open>\<^verbatim>\<open>^(octet\.){3}(octet)$\<close>\<close>

definition ipAddressRegex :: re where
  "ipAddressRegex = Seq (rep 3 (Seq octetRegex (chr CHR ''.''))) octetRegex"

text \<open>\<^verbatim>\<open>0|(?:[1-9]\d*)\<close>\<close>

definition numberRegex :: re where
  "numberRegex = Alt (chr CHR ''0'') (Seq (Cls [r_19]) (Star (Cls [r_09])))"

text \<open>\<^verbatim>\<open>^(v){0,1}(num)(?:\.(num)(?:\.(num))?(?:\-([\w][\w\.\-_]*))?)?$\<close>\<close>

definition versionNumberRegex :: re where
  "versionNumberRegex = Seq (opt (chr CHR ''v'')) (Seq numberRegex
     (opt (Seq (chr CHR ''.'') (Seq numberRegex
       (Seq (opt (Seq (chr CHR ''.'') numberRegex))
            (opt (Seq (chr CHR ''-'')
               (Seq (Cls [r_09, r_AZ, r_az, r_uscore])
                    (Star (Cls [r_09, r_AZ, r_az, r_uscore, r_dot, r_hyphen]))))))))))"

text \<open>\<^verbatim>\<open>^[a-z0-9]([-a-z0-9]*[a-z0-9])?$\<close>\<close>

definition k8sNamespaceRegex :: re where
  "k8sNamespaceRegex = Seq (Cls [r_az, r_09])
     (opt (Seq (Star (Cls [r_hyphen, r_az, r_09])) (Cls [r_az, r_09])))"

text \<open>What the patterns mean, character by character and label by label.\<close>

definition is_alnum :: "char \<Rightarrow> bool" where
  "is_alnum c = in_class [r_az, r_AZ, r_09] c"

definition is_lower_alnum :: "char \<Rightarrow> bool" where
  "is_lower_alnum c = in_class [r_az, r_09] c"

definition label_of :: "(char \<Rightarrow> bool) \<Rightarrow> string \<Rightarrow> bool" where
  "label_of p l \<longleftrightarrow> l \<noteq> [] \<and> p (hd l) \<and> p (last l) \<and> list_all (\<lambda>c. p c \<or> c = CHR ''-'') l"

definition octet :: "string \<Rightarrow> bool" where
  "octet l = list_ex (\<lambda>n. l = show_nat n) [0..<256]"

section \<open>The matcher decides the language\<close>

inductive matches :: "re \<Rightarrow> string \<Rightarrow> bool" where
  m_eps: "matches Eps []"
| m_cls: "in_class rs c \<Longrightarrow> matches (Cls rs) [c]"
| m_seq: "matches r s \<Longrightarrow> matches q t \<Longrightarrow> matches (Seq r q) (s @ t)"
| m_altl: "matches r s \<Longrightarrow> matches (Alt r q) s"
| m_altr: "matches q s \<Longrightarrow> matches (Alt r q) s"
| m_star0: "matches (Star r) []"
| m_star: "matches r s \<Longrightarrow> matches (Star r) t \<Longrightarrow> matches (Star r) (s @ t)"

inductive_simps matches_simps [simp]:
  "matches Void s" "matches Eps s" "matches (Cls rs) s" "matches (Alt r q) s"
inductive_simps matches_Seq: "matches (Seq r q) s"
inductive_cases matches_StarE: "matches (Star r) s"

lemma nullable_iff: "nullable r \<longleftrightarrow> matches r []"
  by (induction r) (auto simp: matches_Seq intro: m_star0)

lemma matches_Star_Cons:
  "matches (Star r) (c # cs) \<longleftrightarrow> (\<exists>s t. cs = s @ t \<and> matches r (c # s) \<and> matches (Star r) t)"
proof
  show "matches (Star r) (c # cs) \<Longrightarrow> \<exists>s t. cs = s @ t \<and> matches r (c # s) \<and> matches (Star r) t"
  proof (induction "Star r" "c # cs" rule: matches.induct)
    case (m_star s t)
    then show ?case by (cases s) auto
  qed
next
  assume "\<exists>s t. cs = s @ t \<and> matches r (c # s) \<and> matches (Star r) t"
  then obtain s t where "cs = s @ t" "matches r (c # s)" "matches (Star r) t" by blast
  then show "matches (Star r) (c # cs)"
    using m_star [of r "c # s" t] by simp
qed

lemma matches_Seq_Cons:
  "matches (Seq r q) (c # cs) \<longleftrightarrow>
     (\<exists>s t. cs = s @ t \<and> matches r (c # s) \<and> matches q t) \<or> (matches r [] \<and> matches q (c # cs))"
  by (auto simp: matches_Seq Cons_eq_append_conv)

lemma matches_mk_seq [simp]: "matches (mk_seq r q) s \<longleftrightarrow> matches (Seq r q) s"
  by (cases r) (auto simp: matches_Seq)

lemma matches_mk_alt [simp]: "matches (mk_alt r q) s \<longleftrightarrow> matches r s \<or> matches q s"
  by (induction r q rule: mk_alt.induct) auto

lemma deriv_iff: "matches (deriv c r) cs \<longleftrightarrow> matches r (c # cs)"
proof (induction r arbitrary: cs)
  case (Seq r q)
  then show ?case
    by (auto simp: matches_Seq_Cons nullable_iff) (auto simp: matches_Seq Seq)
next
  case (Star r)
  then show ?case by (simp add: matches_Star_Cons matches_Seq)
qed auto

lemma re_match_iff: "re_match r s \<longleftrightarrow> matches r s"
  by (induction s arbitrary: r) (auto simp: nullable_iff deriv_iff)

section \<open>Reading the patterns\<close>

lemma matches_opt [simp]: "matches (opt r) s \<longleftrightarrow> matches r s \<or> s = []"
  by (auto simp: opt_def)

lemma matches_Star_Cls [simp]: "matches (Star (Cls rs)) s \<longleftrightarrow> list_all (in_class rs) s"
  by (induction s) (auto simp: matches_Star_Cons intro: m_star0)

lemma matches_Star_concat:
  "matches (Star r) s \<longleftrightarrow> (\<exists>ss. s = concat ss \<and> list_all (matches r) ss)"
proof
  show "matches (Star r) s \<Longrightarrow> \<exists>ss. s = concat ss \<and> list_all (matches r) ss"
  proof (induction "Star r" s rule: matches.induct)
    case m_star0
    show ?case by (rule exI [of _ "[]"]) simp
  next
    case (m_star s t)
    then obtain ss where "t = concat ss" "list_all (matches r) ss" by blast
    with m_star(1) show ?case by (intro exI [of _ "s # ss"]) simp
  qed
next
  assume "\<exists>ss. s = concat ss \<and> list_all (matches r) ss"
  then obtain ss where "s = concat ss" "list_all (matches r) ss" by blast
  then show "matches (Star r) s"
    by (induction ss arbitrary: s) (auto intro: m_star0 m_star)
qed

lemma in_class_append: "in_class (rs @ qs) c \<longleftrightarrow> in_class rs c \<or> in_class qs c"
  by (simp add: in_class_def)

lemma in_class_single [simp]: "in_class [(a, a)] c \<longleftrightarrow> c = a"
  using le_antisym [of "of_char a :: nat" "of_char c"] by (auto simp: in_class_def)

lemma matches_chr [simp]: "matches (chr c) s \<longleftrightarrow> s = [c]"
  by (auto simp: chr_def)

lemma in_class_hyphen [simp]: "in_class [r_hyphen] c \<longleftrightarrow> c = CHR ''-''"
  unfolding r_hyphen_def by (rule in_class_single)

lemma matches_Seq_Cls:
  "matches (Seq (Cls rs) q) s \<longleftrightarrow> (\<exists>c t. s = c # t \<and> in_class rs c \<and> matches q t)"
  by (cases s) (auto simp: matches_Seq_Cons matches_Seq [of _ _ "[]"])

lemma matches_Seq_chr:
  "matches (Seq (chr a) q) s \<longleftrightarrow> (\<exists>t. s = a # t \<and> matches q t)"
  by (auto simp: chr_def matches_Seq_Cls)

lemma matches_Seq_assoc: "matches (Seq (Seq r q) p) s \<longleftrightarrow> matches (Seq r (Seq q p)) s"
  by (simp add: matches_Seq) (metis append.assoc)

lemma matches_Seq_Eps: "matches (Seq Eps q) s \<longleftrightarrow> matches q s"
  by (simp add: matches_Seq)

lemma matches_Seq_last:
  "matches (Seq r (Cls rs)) s \<longleftrightarrow> (\<exists>t c. s = t @ [c] \<and> in_class rs c \<and> matches r t)"
  by (auto simp: matches_Seq)

lemma label_shape:
  "(\<exists>a m b. l = a # m @ [b] \<and> p a \<and> p b \<and> list_all (\<lambda>c. p c \<or> c = CHR ''-'') m) \<or> (\<exists>a. l = [a] \<and> p a)
     \<longleftrightarrow> label_of p l"
proof
  assume "label_of p l"
  then show "(\<exists>a m b. l = a # m @ [b] \<and> p a \<and> p b \<and> list_all (\<lambda>c. p c \<or> c = CHR ''-'') m) \<or> (\<exists>a. l = [a] \<and> p a)"
    by (cases l; cases "tl l" rule: rev_cases) (auto simp: label_of_def)
qed (auto simp: label_of_def)

lemma matches_label: "matches labelRegex l \<longleftrightarrow> label_of is_alnum l"
proof -
  have cls: "in_class [r_az, r_AZ, r_09, r_hyphen] = (\<lambda>c. is_alnum c \<or> c = CHR ''-'')"
    using in_class_append [of "[r_az, r_AZ, r_09]" "[r_hyphen]"] by (auto simp: is_alnum_def)
  show ?thesis
    unfolding label_shape [symmetric]
    by (auto simp: labelRegex_def matches_Seq_Cls matches_Seq_last cls is_alnum_def [symmetric])
qed

lemma no_dot_in_label: "label_of is_alnum l \<Longrightarrow> CHR ''.'' \<notin> set l"
  by (auto simp: label_of_def list_all_iff is_alnum_def in_class_def r_az_def r_AZ_def r_09_def)

lemma dotted_concat:
  "concat (map (\<lambda>l. l @ ''.'') ls) @ l = join_with CHR ''.'' (ls @ [l])"
proof (induction ls)
  case (Cons a ls)
  then show ?case by (cases ls) auto
qed simp

lemma dotted_pieces:
  "list_all (matches (Seq labelRegex (chr CHR ''.''))) ss \<Longrightarrow>
     \<exists>ls. ss = map (\<lambda>l. l @ ''.'') ls \<and> list_all (label_of is_alnum) ls"
proof (induction ss)
  case (Cons s ss)
  then obtain ls l where "ss = map (\<lambda>l. l @ ''.'') ls" "list_all (label_of is_alnum) ls"
    "s = l @ ''.''" "label_of is_alnum l"
    by (auto simp: matches_Seq matches_label)
  then show ?case by (intro exI [of _ "l # ls"]) simp
qed simp

lemma matches_hostName:
  "matches hostNameRegex s \<longleftrightarrow> list_all (label_of is_alnum) (split_on CHR ''.'' s)"
proof
  assume "matches hostNameRegex s"
  then obtain ss l where s: "s = concat ss @ l" and l: "label_of is_alnum l"
    and ss: "list_all (matches (Seq labelRegex (chr CHR ''.''))) ss"
    by (auto simp: hostNameRegex_def matches_Seq [of "Star _"] matches_Star_concat matches_label)
  from dotted_pieces [OF ss] obtain ls where ls: "s = join_with CHR ''.'' (ls @ [l])" "list_all (label_of is_alnum) ls"
    by (auto simp: s dotted_concat)
  then have "split_on CHR ''.'' s = ls @ [l]"
    using l by (simp add: split_join list_all_iff no_dot_in_label)
  with ls l show "list_all (label_of is_alnum) (split_on CHR ''.'' s)" by simp
next
  assume *: "list_all (label_of is_alnum) (split_on CHR ''.'' s)"
  obtain ls l where ls: "split_on CHR ''.'' s = ls @ [l]"
    by (cases "split_on CHR ''.'' s" rule: rev_cases) auto
  then have s: "s = concat (map (\<lambda>l. l @ ''.'') ls) @ l"
    by (metis dotted_concat join_split)
  have "list_all (matches (Seq labelRegex (chr CHR ''.''))) (map (\<lambda>l. l @ ''.'') ls)"
    using * by (auto simp: matches_Seq matches_label ls list_all_iff)
  then have "matches (Star (Seq labelRegex (chr CHR ''.''))) (concat (map (\<lambda>l. l @ ''.'') ls))"
    unfolding matches_Star_concat by blast
  moreover have "matches labelRegex l" using * by (simp add: ls matches_label)
  ultimately show "matches hostNameRegex s"
    unfolding s hostNameRegex_def by (rule m_seq)
qed

lemma matches_geoTag: "matches geoTagRegex s \<longleftrightarrow> list_all (\<lambda>c. is_alnum c \<or> c = CHR ''-'') s"
proof -
  have "in_class [r_az, r_AZ, r_hyphen, r_09] = (\<lambda>c. is_alnum c \<or> c = CHR ''-'')"
    by (rule ext) (auto simp: is_alnum_def in_class_append [of "[r_az, r_AZ]" "[r_hyphen, r_09]", simplified]
        in_class_append [of "[r_hyphen]" "[r_09]", simplified]
        in_class_append [of "[r_az, r_AZ]" "[r_09]", simplified])
  then show ?thesis by (simp add: geoTagRegex_def)
qed

lemma matches_namespace: "matches k8sNamespaceRegex s \<longleftrightarrow> label_of is_lower_alnum s"
proof -
  have "in_class [r_hyphen, r_az, r_09] = (\<lambda>c. is_lower_alnum c \<or> c = CHR ''-'')"
    by (rule ext) (auto simp: is_lower_alnum_def in_class_append [of "[r_hyphen]" "[r_az, r_09]", simplified])
  then show ?thesis
    unfolding label_shape [symmetric]
    by (auto simp: k8sNamespaceRegex_def matches_Seq_Cls matches_Seq_last is_lower_alnum_def [symmetric])
qed

section \<open>Octets and addresses\<close>

lemma digit_class:
  assumes "n \<le> m" "m \<le> 9"
  shows "in_class [(digit_char n, digit_char m)] c \<longleftrightarrow> (\<exists>d. n \<le> d \<and> d \<le> m \<and> c = digit_char d)"
proof
  assume "in_class [(digit_char n, digit_char m)] c"
  then have c: "48 + n \<le> (of_char c :: nat)" "(of_char c :: nat) \<le> 48 + m"
    using assms by (auto simp: in_class_def of_char_digit)
  then have "c = digit_char (of_char c - 48)" by (simp add: digit_char_def)
  with c show "\<exists>d. n \<le> d \<and> d \<le> m \<and> c = digit_char d"
    by (intro exI [of _ "of_char c - 48"]) auto
qed (use assms in \<open>auto simp: in_class_def of_char_digit\<close>)

lemma digit_chars: "CHR ''0'' = digit_char 0" "CHR ''1'' = digit_char 1" "CHR ''2'' = digit_char 2"
  "CHR ''4'' = digit_char 4" "CHR ''5'' = digit_char 5" "CHR ''9'' = digit_char 9"
  by code_simp+

lemma octet_iff: "octet l \<longleftrightarrow> (\<exists>n < 256. l = show_nat n)"
  by (auto simp: octet_def list_ex_iff)

lemma matches_d1: "matches (Cls [r_09]) l \<longleftrightarrow> (\<exists>a \<le> 9. l = [digit_char a])"
  by (auto simp: r_09_def digit_chars digit_class)

lemma matches_d2:
  "matches (Seq (Cls [r_19]) (Cls [r_09])) l \<longleftrightarrow>
     (\<exists>a b. 1 \<le> a \<and> a \<le> 9 \<and> b \<le> 9 \<and> l = [digit_char a, digit_char b])"
  unfolding matches_Seq_Cls matches_d1 r_19_def digit_chars
  by (auto simp: digit_class simp del: digit_chars)

lemma matches_d3:
  "m \<le> 9 \<Longrightarrow> matches (Seq (chr x) (Seq (Cls [(digit_char 0, digit_char m)]) (Cls [r_09]))) l \<longleftrightarrow>
     (\<exists>b c. b \<le> m \<and> c \<le> 9 \<and> l = [x, digit_char b, digit_char c])"
  unfolding matches_Seq_Cls matches_Seq_chr matches_d1 by (auto simp: digit_class)

lemma matches_d25:
  "matches (Seq (chr x) (Seq (chr y) (Cls [(digit_char 0, digit_char 5)]))) l \<longleftrightarrow>
     (\<exists>c \<le> 5. l = [x, y, digit_char c])"
  unfolding matches_Seq_chr by (auto simp: digit_class)

lemma matches_octet_digits:
  "matches octetRegex l \<longleftrightarrow>
     (\<exists>a \<le> 9. l = [digit_char a]) \<or>
     (\<exists>a b. 1 \<le> a \<and> a \<le> 9 \<and> b \<le> 9 \<and> l = [digit_char a, digit_char b]) \<or>
     (\<exists>b c. b \<le> 9 \<and> c \<le> 9 \<and> l = [digit_char 1, digit_char b, digit_char c]) \<or>
     (\<exists>b c. b \<le> 4 \<and> c \<le> 9 \<and> l = [digit_char 2, digit_char b, digit_char c]) \<or>
     (\<exists>c \<le> 5. l = [digit_char 2, digit_char 5, digit_char c])"
  using matches_d3 [of 9 "digit_char 1" l] matches_d3 [of 4 "digit_char 2" l]
  unfolding octetRegex_def matches_simps(4) matches_d2 matches_d1 digit_chars matches_d25
  by (simp add: r_09_def digit_chars(1,6))

lemma div_mod_10: "c \<le> 9 \<Longrightarrow> (10 * k + c) div 10 = k" "c \<le> 9 \<Longrightarrow> (10 * k + c) mod 10 = (c :: nat)"
  by simp_all

lemma octet_matches:
  assumes "octet l"
  shows "matches octetRegex l"
proof -
  from assms obtain n where n: "n < 256" "l = show_nat n" by (auto simp: octet_iff)
  consider "n < 10" | "10 \<le> n" "n < 100" | "100 \<le> n" "n < 200" | "200 \<le> n" "n < 250" | "250 \<le> n"
    by linarith
  then show ?thesis
  proof cases
    case 1
    then have "n \<le> 9" by simp
    with 1 n show ?thesis unfolding matches_octet_digits by (auto simp: show_nat_1)
  next
    case 2
    then have "1 \<le> n div 10" "n div 10 \<le> 9" "n mod 10 \<le> 9" by auto
    with 2 n show ?thesis unfolding matches_octet_digits by (auto simp: show_nat_2)
  next
    case 3
    then have "n div 100 = 1" "n div 10 mod 10 \<le> 9" "n mod 10 \<le> 9" by auto
    with 3 n show ?thesis unfolding matches_octet_digits by (auto simp: show_nat_3)
  next
    case 4
    then have "20 \<le> n div 10" "n div 10 \<le> 24" "n div 100 = 2" "n mod 10 \<le> 9" by auto
    moreover have "m mod 10 \<le> 4" if "20 \<le> m" "m \<le> 24" for m :: nat using that by presburger
    from this [OF calculation(1,2)] have "n div 10 mod 10 \<le> 4" .
    ultimately show ?thesis
      using 4 n unfolding matches_octet_digits by (auto simp: show_nat_3)
  next
    case 5
    with n have "n div 10 = 25" "n div 100 = 2" by auto
    moreover from this(1) have "n mod 10 \<le> 5" using div_mult_mod_eq [of n 10] n by linarith
    ultimately show ?thesis
      using 5 n unfolding matches_octet_digits by (auto simp: show_nat_3)
  qed
qed

lemma matches_is_octet:
  assumes "matches octetRegex l"
  shows "octet l"
proof -
  have dec: "octet [digit_char a]" if "a \<le> 9" for a
    using that by (auto simp: octet_iff show_nat_1 intro: exI [of _ a])
  have dec2: "octet [digit_char a, digit_char b]" if "1 \<le> a" "a \<le> 9" "b \<le> 9" for a b
    using that show_nat_2 [of "10 * a + b"] by (auto simp: octet_iff intro!: exI [of _ "10 * a + b"])
  have dec3: "octet [digit_char a, digit_char b, digit_char c]"
    if "1 \<le> a" "b \<le> 9" "c \<le> 9" "100 * a + 10 * b + c < 256" for a b c
  proof -
    let ?n = "100 * a + 10 * b + c"
    have n: "?n = 10 * (10 * a + b) + c" by simp
    have "?n div 10 = 10 * a + b" "?n mod 10 = c" using that unfolding n by (simp_all only: div_mod_10)
    moreover from this(1) have "?n div 10 mod 10 = b" "?n div 10 div 10 = a"
      using that by (simp_all add: div_mod_10)
    ultimately have "?n div 100 = a" "?n div 10 mod 10 = b" "?n mod 10 = c"
      by (simp_all add: div_mult2_eq [symmetric])
    then have "show_nat ?n = [digit_char a, digit_char b, digit_char c]"
      using that show_nat_3 [of ?n] by simp
    with that show ?thesis unfolding octet_iff by metis
  qed
  show ?thesis
    using assms unfolding matches_octet_digits by (elim disjE exE conjE) (auto intro!: dec dec2 dec3)
qed

lemma matches_octet: "matches octetRegex l \<longleftrightarrow> octet l"
  using octet_matches matches_is_octet by blast

lemma no_dot_in_octet: "octet l \<Longrightarrow> CHR ''.'' \<notin> set l"
proof -
  have d: "CHR ''.'' \<noteq> digit_char a" if "a \<le> 9" for a
  proof
    assume "CHR ''.'' = digit_char a"
    then have "(of_char (CHR ''.'') :: nat) = 48 + a" by (simp only: of_char_digit [OF that])
    then show False by simp
  qed
  assume "octet l"
  then show "CHR ''.'' \<notin> set l"
    unfolding matches_octet [symmetric] matches_octet_digits by (elim disjE exE conjE) (simp_all add: d)
qed

lemma matches_ipAddress:
  "matches ipAddressRegex s \<longleftrightarrow>
     (\<exists>a b c d. split_on CHR ''.'' s = [a, b, c, d] \<and> octet a \<and> octet b \<and> octet c \<and> octet d)"
proof -
  have oct: "matches (Seq octetRegex q) s \<longleftrightarrow> (\<exists>a t. s = a @ t \<and> octet a \<and> matches q t)" for q s
    by (auto simp: matches_Seq matches_octet)
  have dot: "matches (Seq (Seq octetRegex (chr CHR ''.'')) q) s \<longleftrightarrow>
      (\<exists>a t. s = a @ CHR ''.'' # t \<and> octet a \<and> matches q t)" for q s
    by (auto simp: matches_Seq_assoc oct matches_Seq_chr)
  have "matches ipAddressRegex s \<longleftrightarrow>
      (\<exists>a b c d. s = join_with CHR ''.'' [a, b, c, d] \<and> octet a \<and> octet b \<and> octet c \<and> octet d)"
  proof -
    have ip: "ipAddressRegex = Seq (Seq (Seq octetRegex (chr CHR ''.'')) (Seq (Seq octetRegex (chr CHR ''.''))
            (Seq (Seq octetRegex (chr CHR ''.'')) Eps))) octetRegex"
      by (simp add: ipAddressRegex_def numeral_3_eq_3)
    have "matches ipAddressRegex s \<longleftrightarrow>
       (\<exists>a t. s = a @ CHR ''.'' # t \<and> octet a \<and> (\<exists>b u. t = b @ CHR ''.'' # u \<and> octet b \<and>
          (\<exists>c d. u = c @ CHR ''.'' # d \<and> octet c \<and> octet d)))"
      unfolding ip matches_Seq_assoc [of "Seq octetRegex (chr CHR ''.'')"] dot matches_Seq_Eps matches_octet
      by (rule refl)
    then show ?thesis by (simp only: join_with.simps) metis
  qed
  also have "\<dots> \<longleftrightarrow> (\<exists>a b c d. split_on CHR ''.'' s = [a, b, c, d] \<and> octet a \<and> octet b \<and> octet c \<and> octet d)"
  proof -
    have "s = join_with CHR ''.'' [a, b, c, d] \<longleftrightarrow> split_on CHR ''.'' s = [a, b, c, d]"
      if "octet a \<and> octet b \<and> octet c \<and> octet d" for a b c d
      using that split_join [of "[a, b, c, d]" "CHR ''.''"] join_split [of "CHR ''.''" s]
      by (auto simp: no_dot_in_octet)
    then show ?thesis by metis
  qed
  finally show ?thesis .
qed

end
