(* ===== verification/Validator.thy ===== *)
theory Validator
  imports Regexp
begin

text \<open>
  \<^verbatim>\<open>controllers/depresolver/depresolver_validator.go\<close>: the fluent validator. \<open>field\<close> wraps a value,
  each check returns the validator unchanged once an error is set, and the caller reads
  \<open>va_err\<close> at the end of the chain. \<^verbatim>\<open>matchRegexp\<close> takes the parsed expression beside its
  source text, which only appears in the error message.
\<close>

text \<open>The dynamic type of an \<^verbatim>\<open>interface{}\<close> argument, as the type switch of \<^verbatim>\<open>field\<close> sees it.\<close>

datatype goval =
    VInt int
  | VInt8 "8 word"
  | VInt16 "16 word"
  | VInt32 "32 word"
  | VInt64 "64 word"
  | VString string
  | VStrings "string list"
  | VOther string string \<comment> \<open>the printed value and the name of its type\<close>

record validator =
  va_strValue :: string
  va_strArr :: "string list"
  va_intValue :: int
  va_name :: string
  va_err :: "goerr option"

definition new_validator :: "string \<Rightarrow> validator" where
  "new_validator name =
     \<lparr>va_strValue = [], va_strArr = [], va_intValue = 0, va_name = name, va_err = None\<rparr>"

fun field :: "string \<Rightarrow> goval \<Rightarrow> validator" where
  "field name (VInt v) = (new_validator name)\<lparr>va_intValue := v\<rparr>"
| "field name (VInt8 v) = (new_validator name)\<lparr>va_intValue := sint v\<rparr>"
| "field name (VInt16 v) = (new_validator name)\<lparr>va_intValue := sint v\<rparr>"
| "field name (VInt32 v) = (new_validator name)\<lparr>va_intValue := sint v\<rparr>"
| "field name (VInt64 v) = (new_validator name)\<lparr>va_intValue := sint v\<rparr>"
| "field name (VString v) = (new_validator name)\<lparr>va_strValue := v\<rparr>"
| "field name (VStrings v) = (new_validator name)\<lparr>va_strArr := v\<rparr>"
| "field name (VOther v ty) = (new_validator name)
     \<lparr>va_err := Some (Errorf ''can't parse '%v' of type '%T' as int or string'' [v, ty])\<rparr>"

text \<open>Every check starts with the same guard: nothing happens once an error is set.\<close>

definition check :: "(validator \<Rightarrow> bool) \<Rightarrow> (validator \<Rightarrow> goerr) \<Rightarrow> validator \<Rightarrow> validator" where
  "check bad e v =
     (if va_err v \<noteq> None then v
      else if bad v then v\<lparr>va_err := Some (e v)\<rparr> else v)"

definition v_isNotEmpty :: "validator \<Rightarrow> validator" where
  "v_isNotEmpty v =
     check (\<lambda>v. va_strValue v = []) (\<lambda>v. Errorf '''%s' is empty'' [va_name v]) v"

definition matchRegexp :: "string \<times> re \<Rightarrow> validator \<Rightarrow> validator" where
  "matchRegexp regex v =
     (if va_err v \<noteq> None then v
      else if va_strValue v = [] then v
      else if \<not> re_match (snd regex) (va_strValue v)
      then v\<lparr>va_err := Some (Errorf '''%s' does not match given criteria. see: https://www.regextester.com (%s)''
               [va_strValue v, fst regex])\<rparr>
      else v)"

fun matchRegexps_loop :: "(string \<times> re) list \<Rightarrow> validator \<Rightarrow> validator" where
  "matchRegexps_loop [] v = v"
| "matchRegexps_loop (r # rs) v =
     (let v' = matchRegexp r (v\<lparr>va_err := None\<rparr>)
      in if va_err v' = None then v' else matchRegexps_loop rs v')"

definition matchRegexps :: "(string \<times> re) list \<Rightarrow> validator \<Rightarrow> validator" where
  "matchRegexps regex v = (if va_err v \<noteq> None then v else matchRegexps_loop regex v)"

definition isHigherThanZero :: "validator \<Rightarrow> validator" where
  "isHigherThanZero v =
     check (\<lambda>v. va_intValue v \<le> 0) (\<lambda>v. Errorf '''%s' is less or equal to zero'' [va_name v]) v"

definition isHigherOrEqualToZero :: "validator \<Rightarrow> validator" where
  "isHigherOrEqualToZero v =
     check (\<lambda>v. va_intValue v < 0) (\<lambda>v. Errorf '''%s' is less than zero'' [va_name v]) v"

definition isLessOrEqualTo :: "int \<Rightarrow> validator \<Rightarrow> validator" where
  "isLessOrEqualTo num v =
     check (\<lambda>v. va_intValue v > num) (\<lambda>v. Errorf ('''%s' is higher than '%v'' @ [CHR 0x27]) [va_name v, itoa num]) v"

definition isHigherThan :: "int \<Rightarrow> validator \<Rightarrow> validator" where
  "isHigherThan num v =
     check (\<lambda>v. va_intValue v \<le> num) (\<lambda>v. Errorf ('''%s' is higher than '%v'' @ [CHR 0x27]) [va_name v, itoa num]) v"

definition isNotEqualTo :: "string \<Rightarrow> validator \<Rightarrow> validator" where
  "isNotEqualTo value v =
     check (\<lambda>v. va_strValue v = value) (\<lambda>v. Errorf ('''%s' can't be equal to '%s'' @ [CHR 0x27]) [va_name v, value]) v"

definition hasItems :: "validator \<Rightarrow> validator" where
  "hasItems v =
     check (\<lambda>v. length (va_strArr v) = 0)
       (\<lambda>v. Errorf '''%s' should contain at least one item'' [va_name v]) v"

text \<open>The loop of \<^verbatim>\<open>hasUniqueItems\<close>: the keys of a map filled from the slice.\<close>

definition unique_map :: "string list \<Rightarrow> bool gomap" where
  "unique_map ss = fold (\<lambda>s m. m_set s True m) ss []"

definition hasUniqueItems :: "validator \<Rightarrow> validator" where
  "hasUniqueItems v =
     check (\<lambda>v. length (unique_map (va_strArr v)) \<noteq> length (va_strArr v))
       (\<lambda>v. Errorf ('''%s' contains redundant values '%s'' @ [CHR 0x27]) (va_name v # va_strArr v)) v"

definition isNotEmpty :: "string \<Rightarrow> bool" where
  "isNotEmpty s \<longleftrightarrow> replaceAll (CHR '' '') [] s \<noteq> []"

section \<open>Lemmas\<close>

text \<open>\<open>passes v\<close>: the chain so far found nothing wrong.\<close>

definition passes :: "validator \<Rightarrow> bool" where
  "passes v \<longleftrightarrow> va_err v = None"

lemma check_fields [simp]:
  "va_strValue (check b e v) = va_strValue v" "va_strArr (check b e v) = va_strArr v"
  "va_intValue (check b e v) = va_intValue v" "va_name (check b e v) = va_name v"
  by (simp_all add: check_def)

lemma passes_check [simp]: "passes (check b e v) \<longleftrightarrow> passes v \<and> \<not> b v"
  by (auto simp: passes_def check_def)

lemma check_sticky: "va_err v = Some e \<Longrightarrow> check b f v = v"
  by (simp add: check_def)

lemmas validator_checks =
  v_isNotEmpty_def isHigherThanZero_def isHigherOrEqualToZero_def isLessOrEqualTo_def
  isHigherThan_def isNotEqualTo_def hasItems_def hasUniqueItems_def

lemma check_values [simp]:
  "va_strValue (v_isNotEmpty v) = va_strValue v" "va_intValue (isHigherThanZero v) = va_intValue v"
  "va_intValue (isLessOrEqualTo n v) = va_intValue v" "va_strArr (hasItems v) = va_strArr v"
  by (simp_all add: validator_checks)

lemma passes_checks [simp]:
  "passes (v_isNotEmpty v) \<longleftrightarrow> passes v \<and> va_strValue v \<noteq> []"
  "passes (isHigherThanZero v) \<longleftrightarrow> passes v \<and> 0 < va_intValue v"
  "passes (isHigherOrEqualToZero v) \<longleftrightarrow> passes v \<and> 0 \<le> va_intValue v"
  "passes (isLessOrEqualTo n v) \<longleftrightarrow> passes v \<and> va_intValue v \<le> n"
  "passes (isHigherThan n v) \<longleftrightarrow> passes v \<and> n < va_intValue v"
  "passes (isNotEqualTo s v) \<longleftrightarrow> passes v \<and> va_strValue v \<noteq> s"
  "passes (hasItems v) \<longleftrightarrow> passes v \<and> va_strArr v \<noteq> []"
  by (auto simp: validator_checks)

lemma matchRegexp_fields [simp]:
  "va_strValue (matchRegexp r v) = va_strValue v" "va_strArr (matchRegexp r v) = va_strArr v"
  "va_intValue (matchRegexp r v) = va_intValue v" "va_name (matchRegexp r v) = va_name v"
  by (simp_all add: matchRegexp_def)

lemma passes_matchRegexp [simp]:
  "passes (matchRegexp r v) \<longleftrightarrow> passes v \<and> (va_strValue v = [] \<or> re_match (snd r) (va_strValue v))"
  by (auto simp: passes_def matchRegexp_def)

lemma matchRegexps_loop_passes:
  "va_err (matchRegexps_loop rs v) = None \<longleftrightarrow>
     (if rs = [] then va_err v = None
      else va_strValue v = [] \<or> (\<exists>r \<in> set rs. re_match (snd r) (va_strValue v)))"
proof (induction rs arbitrary: v)
  case (Cons r rs)
  then show ?case by (auto simp: Let_def matchRegexp_def)
qed simp

lemma passes_matchRegexps [simp]:
  "rs \<noteq> [] \<Longrightarrow> passes (matchRegexps rs v) \<longleftrightarrow>
     passes v \<and> (va_strValue v = [] \<or> (\<exists>r \<in> set rs. re_match (snd r) (va_strValue v)))"
  by (auto simp: passes_def matchRegexps_def matchRegexps_loop_passes)

lemma passes_field [simp]:
  "passes (field name (VInt i))" "passes (field name (VString s))" "passes (field name (VStrings ss))"
  by (simp_all add: passes_def new_validator_def)

lemma field_values [simp]:
  "va_intValue (field name (VInt i)) = i" "va_strValue (field name (VString s)) = s"
  "va_strArr (field name (VStrings ss)) = ss"
  by (simp_all add: new_validator_def)

lemma keys_unique_map: "set (map fst (fold (\<lambda>s m. m_set s True m) ss m)) = set (map fst m) \<union> set ss"
  by (induction ss arbitrary: m) auto

lemma gomap_ok_unique_map: "gomap_ok m \<Longrightarrow> gomap_ok (fold (\<lambda>s m. m_set s True m) ss m)"
  by (induction ss arbitrary: m) auto

lemma length_unique_map: "length (unique_map ss) = card (set ss)"
proof -
  have "length (unique_map ss) = length (map fst (unique_map ss))" by simp
  also have "\<dots> = card (set (map fst (unique_map ss)))"
    using gomap_ok_unique_map [of "[]" ss]
    by (metis distinct_card gomap_ok_Nil gomap_ok_def unique_map_def)
  also have "\<dots> = card (set ss)" using keys_unique_map [of ss "[]"] by (simp add: unique_map_def)
  finally show ?thesis .
qed

lemma unique_map_distinct: "length (unique_map ss) = length ss \<longleftrightarrow> distinct ss"
  by (metis card_distinct distinct_card length_unique_map)

lemma isNotEmpty_iff: "isNotEmpty s \<longleftrightarrow> (\<exists>c \<in> set s. c \<noteq> CHR '' '')"
  by (simp add: isNotEmpty_def filter_replaceAll filter_empty_conv)

lemma passes_hasUniqueItems [simp]: "passes (hasUniqueItems v) \<longleftrightarrow> passes v \<and> distinct (va_strArr v)"
  by (simp add: hasUniqueItems_def unique_map_distinct)

lemma va_err_None: "va_err v = None \<longleftrightarrow> passes v"
  by (simp add: passes_def)

declare field.simps [simp del]

end
