(* ===== verification/Gslb_Api.thy ===== *)
theory Gslb_Api
  imports Prelude
begin

text \<open>
  The data of \<^verbatim>\<open>api/v1beta1\<close>: the \<^verbatim>\<open>Gslb\<close> custom resource with its specification and status
  (\<^verbatim>\<open>gslb_types.go\<close>) and the copy of the upstream Ingress specification with its two
  conversions (\<^verbatim>\<open>upstream_types.go\<close>). The objects of other packages that k8gb reads and writes
  (Ingress, Service, Endpoints, DNSEndpoint) are records of the fields the code uses.

  A pointer field is an option (\<^const>\<open>None\<close> is nil), a slice that is compared with
  \<^verbatim>\<open>reflect.DeepEqual\<close> is a \<open>slice\<close>, the annotation and label maps are options of a
  \<open>gomap\<close>. \<^verbatim>\<open>rule.HTTP\<close> is a pointer to a struct whose only field is \<^verbatim>\<open>Paths\<close>, so it is an
  optional slice of paths.
\<close>

section \<open>Object metadata\<close>

record object_meta =
  om_name :: string
  om_namespace :: string
  om_annotations :: "string gomap option"
  om_labels :: "string gomap option"
  om_finalizers :: "string list"
  om_deletionTimestamp :: "int option"
  om_ownerReferences :: "string list"

type_synonym namespaced_name = "string \<times> string"

definition empty_meta :: object_meta where
  "empty_meta = \<lparr>om_name = [], om_namespace = [], om_annotations = None, om_labels = None,
     om_finalizers = [], om_deletionTimestamp = None, om_ownerReferences = []\<rparr>"

definition meta_key :: "object_meta \<Rightarrow> namespaced_name" where
  "meta_key m = (om_namespace m, om_name m)"

section \<open>Ingress\<close>

record ingress_backend =
  be_serviceName :: string
  be_servicePort :: string

record http_path =
  pa_path :: string
  pa_pathType :: "string option"
  pa_backend :: ingress_backend

record ingress_tls =
  tls_hosts :: "string slice"
  tls_secretName :: string

text \<open>The upstream (\<^verbatim>\<open>k8s.io/api/networking/v1beta1\<close>) types.\<close>

record v1_ingress_rule =
  v1r_host :: string
  v1r_http :: "http_path slice option"

record v1_ingress_spec =
  v1s_ingressClassName :: "string option"
  v1s_backend :: "ingress_backend option"
  v1s_tls :: "ingress_tls slice"
  v1s_rules :: "v1_ingress_rule slice"

text \<open>The types of \<^verbatim>\<open>upstream_types.go\<close>.\<close>

record IngressRule =
  ru_host :: string
  ru_http :: "http_path slice option"

record IngressSpec =
  is_ingressClassName :: "string option"
  is_backend :: "ingress_backend option"
  is_tls :: "ingress_tls slice"
  is_rules :: "IngressRule slice"

definition FromV1Beta1IngressSpec :: "v1_ingress_spec \<Rightarrow> IngressSpec" where
  "FromV1Beta1IngressSpec v1beta1Spec =
     \<lparr>is_ingressClassName = v1s_ingressClassName v1beta1Spec,
      is_backend = v1s_backend v1beta1Spec,
      is_tls = v1s_tls v1beta1Spec,
      is_rules = to_slice (map (\<lambda>v. \<lparr>ru_host = v1r_host v, ru_http = v1r_http v\<rparr>)
                    (elems (v1s_rules v1beta1Spec)))\<rparr>"

definition ToV1Beta1IngressSpec :: "IngressSpec \<Rightarrow> v1_ingress_spec" where
  "ToV1Beta1IngressSpec spec =
     \<lparr>v1s_ingressClassName = is_ingressClassName spec,
      v1s_backend = is_backend spec,
      v1s_tls = is_tls spec,
      v1s_rules = to_slice (map (\<lambda>v. \<lparr>v1r_host = ru_host v, v1r_http = ru_http v\<rparr>)
                    (elems (is_rules spec)))\<rparr>"

record lb_ingress =
  lb_ip :: string
  lb_hostname :: string

record ingress =
  ing_meta :: object_meta
  ing_spec :: v1_ingress_spec
  ing_lb :: "lb_ingress list"

section \<open>The Gslb resource\<close>

record Strategy =
  st_type :: string
  st_primaryGeoTag :: string
  st_dnsTtlSeconds :: int
  st_splitBrainThresholdSeconds :: int

record GslbSpec =
  gs_ingress :: IngressSpec
  gs_strategy :: Strategy

record GslbStatus =
  gst_serviceHealth :: "string gomap"
  gst_healthyRecords :: "string list gomap"
  gst_geoTag :: string

record Gslb =
  g_meta :: object_meta
  g_spec :: GslbSpec
  g_status :: GslbStatus

definition g_name :: "Gslb \<Rightarrow> string" where "g_name g = om_name (g_meta g)"
definition g_namespace :: "Gslb \<Rightarrow> string" where "g_namespace g = om_namespace (g_meta g)"

section \<open>Services, Endpoints and DNSEndpoints\<close>

record service =
  svc_lb :: "lb_ingress list"

text \<open>\<^verbatim>\<open>corev1.Endpoints\<close>: the ready addresses of each subset.\<close>

record endpoints =
  eps_subsets :: "string list list"

text \<open>\<^verbatim>\<open>externaldns.Endpoint\<close> and \<^verbatim>\<open>externaldns.DNSEndpoint\<close>.\<close>

record dns_record =
  ep_dnsName :: string
  ep_recordTTL :: int
  ep_recordType :: string
  ep_targets :: "string list"
  ep_labels :: "string gomap option"

record dns_endpoint =
  de_meta :: object_meta
  de_endpoints :: "dns_record list"

section \<open>Lemmas\<close>

lemma to_slice_map_elems [simp]: "to_slice (map f xs) = map_option (map f) (to_slice xs)"
  by (simp add: to_slice_def)

lemma to_slice_elems: "s \<noteq> Some [] \<Longrightarrow> to_slice (elems s) = s"
  by (cases s) (auto simp: to_slice_def)

lemma meta_key_g: "meta_key (g_meta g) = (g_namespace g, g_name g)"
  by (simp add: meta_key_def g_name_def g_namespace_def)

section \<open>Properties\<close>

text \<open>
  C37. The two conversions of Ingress specifications are inverse to each other, as long as the rules
  are not an empty slice that is not nil: such a slice comes back as nil. Every other field, and
  every rule in its place, survives the round trip in both directions.
\<close>

theorem ingress_spec_roundtrip:
  "(v1s_rules v \<noteq> Some [] \<longrightarrow> ToV1Beta1IngressSpec (FromV1Beta1IngressSpec v) = v) \<and>
   (is_rules s \<noteq> Some [] \<longrightarrow> FromV1Beta1IngressSpec (ToV1Beta1IngressSpec s) = s) \<and>
   elems (v1s_rules (ToV1Beta1IngressSpec (FromV1Beta1IngressSpec v))) = elems (v1s_rules v)"
proof -
  have f: "(\<lambda>r. \<lparr>v1r_host = ru_host r, v1r_http = ru_http r\<rparr>) \<circ> (\<lambda>r. \<lparr>ru_host = v1r_host r, ru_http = v1r_http r\<rparr>) = id"
    "(\<lambda>r. \<lparr>ru_host = v1r_host r, ru_http = v1r_http r\<rparr>) \<circ> (\<lambda>r. \<lparr>v1r_host = ru_host r, v1r_http = ru_http r\<rparr>) = id"
    by (simp_all add: fun_eq_iff)
  have m: "map g (map h xs) = xs" if "g \<circ> h = id" for g :: "'b \<Rightarrow> 'a" and h xs
    using that by simp
  show ?thesis
    by (auto simp: ToV1Beta1IngressSpec_def FromV1Beta1IngressSpec_def m [OF f(1)] m [OF f(2)] to_slice_elems
        simp del: to_slice_map_elems list.map_comp map_map)
qed

theorem ingress_spec_roundtrip_witness:
  "let v = \<lparr>v1s_ingressClassName = Some ''nginx'', v1s_backend = None, v1s_tls = None,
       v1s_rules = Some [\<lparr>v1r_host = ''a'', v1r_http = None\<rparr>]\<rparr>
   in ToV1Beta1IngressSpec (FromV1Beta1IngressSpec v) = v"
  using ingress_spec_roundtrip [of "\<lparr>v1s_ingressClassName = Some ''nginx'', v1s_backend = None, v1s_tls = None,
       v1s_rules = Some [\<lparr>v1r_host = ''a'', v1r_http = None\<rparr>]\<rparr>"] by simp

end
