(* ===== verification/Dep_Config.thy ===== *)
theory Dep_Config
  imports Validator Gslb_Api
begin

text \<open>
  The operator configuration: \<^verbatim>\<open>depresolver.go\<close> (the types) and \<^verbatim>\<open>depresolver_config.go\<close> of
  \<^verbatim>\<open>controllers/depresolver\<close>. The readers of environment variables
  (\<^verbatim>\<open>github.com/AbsaOSS/gopkg/env\<close>) and the level parser of zerolog are parameters: the
  records \<open>env\<close> and \<open>zerolog\<close>.

  Main results: \<open>validateConfig_iff\<close> (a configuration is accepted exactly when
  \<open>config_spec\<close> holds, a specification without regular expressions and chains),
  the properties of the generated name server names, and that the configuration is read once.
\<close>

section \<open>Types\<close>

text \<open>\<^verbatim>\<open>LogFormat\<close> is an \<^verbatim>\<open>int8\<close> with three named values; its zero value is none of them.\<close>

type_synonym LogFormat = int

definition JSONFormat :: LogFormat where "JSONFormat = 1"
definition SimpleFormat :: LogFormat where "SimpleFormat = 2"
definition NoFormat :: LogFormat where "NoFormat = 4"

definition LogFormat_String :: "LogFormat \<Rightarrow> string" where
  "LogFormat_String f =
     (if f = JSONFormat then ''json'' else if f = SimpleFormat then ''simple'' else ''noformat'')"

datatype EdgeDNSType =
    DNSTypeNoEdgeDNS
  | DNSTypeInfoblox
  | DNSTypeRoute53
  | DNSTypeNS1
  | DNSTypeMultipleProviders

fun EdgeDNSType_String :: "EdgeDNSType \<Rightarrow> string" where
  "EdgeDNSType_String DNSTypeNoEdgeDNS = ''NoEdgeDNS''"
| "EdgeDNSType_String DNSTypeInfoblox = ''Infoblox''"
| "EdgeDNSType_String DNSTypeRoute53 = ''Route53''"
| "EdgeDNSType_String DNSTypeNS1 = ''NS1''"
| "EdgeDNSType_String DNSTypeMultipleProviders = ''MultipleProviders''"

text \<open>The levels of zerolog.\<close>

datatype level =
    TraceLevel | DebugLevel | InfoLevel | WarnLevel | ErrorLevel | FatalLevel | PanicLevel
  | NoLevel | Disabled

record Log =
  lo_level :: level
  lo_format :: LogFormat
  lo_noColor :: bool

record Infoblox =
  ib_host :: string
  ib_version :: string
  ib_port :: int
  ib_username :: string
  ib_password :: string
  ib_httpRequestTimeout :: int
  ib_httpPoolConnections :: int

record Config =
  co_reconcileRequeueSeconds :: int
  co_clusterGeoTag :: string
  co_extClustersGeoTags :: "string list"
  co_edgeDNSType :: EdgeDNSType
  co_edgeDNSServer :: string
  co_edgeDNSServerPort :: int
  co_edgeDNSZone :: string
  co_dnsZone :: string
  co_k8gbNamespace :: string
  co_infoblox :: Infoblox
  co_fakeInfobloxEnabled :: bool
  co_coreDNSExposed :: bool
  co_log :: Log
  co_metricsAddress :: string
  co_route53Enabled :: bool
  co_ns1Enabled :: bool
  co_splitBrainCheck :: bool

text \<open>The zero value that \<^verbatim>\<open>new(DependencyResolver)\<close> gives to the cached specification.\<close>

definition zero_spec :: GslbSpec where
  "zero_spec =
     \<lparr>gs_ingress = \<lparr>is_ingressClassName = None, is_backend = None, is_tls = None, is_rules = None\<rparr>,
      gs_strategy = \<lparr>st_type = [], st_primaryGeoTag = [], st_dnsTtlSeconds = 0,
        st_splitBrainThresholdSeconds = 0\<rparr>\<rparr>"

record DependencyResolver =
  dr_config :: "Config option"
  dr_onceConfig :: bool
  dr_errorConfig :: "goerr option"
  dr_errorSpec :: "goerr option"
  dr_spec :: GslbSpec

definition NewDependencyResolver :: DependencyResolver where
  "NewDependencyResolver =
     \<lparr>dr_config = None, dr_onceConfig = False, dr_errorConfig = None, dr_errorSpec = None,
      dr_spec = zero_spec\<rparr>"

text \<open>The libraries the resolver calls.\<close>

record env =
  getEnvAsInt :: "string \<Rightarrow> int \<Rightarrow> int \<times> goerr option"
  getEnvAsString :: "string \<Rightarrow> string \<Rightarrow> string"
  getEnvAsArrayOfStrings :: "string \<Rightarrow> string list \<Rightarrow> string list"
  getEnvAsBool :: "string \<Rightarrow> bool \<Rightarrow> bool"

record zerolog =
  parseLevel :: "string \<Rightarrow> level \<times> goerr option"
  level_String :: "level \<Rightarrow> string"

section \<open>Name server and heartbeat names\<close>

definition getNsName :: "string \<Rightarrow> string \<Rightarrow> string \<Rightarrow> string \<Rightarrow> string" where
  "getNsName tag dnsZone edgeDNSZone edgeDNSServer =
     (if edgeDNSServer = ''127.0.0.1'' \<or> edgeDNSServer = ''localhost'' then edgeDNSServer
      else let d = trimSuffix dnsZone (''.'' @ edgeDNSZone);
               domainX = replaceAll (CHR ''.'') ''-'' d
           in sprintf ''%s-%s-%s.%s'' [''gslb-ns'', tag, domainX, edgeDNSZone])"

definition getHeartbeatFQDN :: "string \<Rightarrow> string \<Rightarrow> string \<Rightarrow> string" where
  "getHeartbeatFQDN name geoTag edgeDNSZone = sprintf ''%s-heartbeat-%s.%s'' [name, geoTag, edgeDNSZone]"

definition GetExternalClusterNSNames :: "Config \<Rightarrow> string gomap" where
  "GetExternalClusterNSNames c =
     fold (\<lambda>tag m. m_set tag (getNsName tag (co_dnsZone c) (co_edgeDNSZone c) (co_edgeDNSServer c)) m)
       (co_extClustersGeoTags c) []"

definition GetClusterNSName :: "Config \<Rightarrow> string" where
  "GetClusterNSName c =
     getNsName (co_clusterGeoTag c) (co_dnsZone c) (co_edgeDNSZone c) (co_edgeDNSServer c)"

definition GetExternalClusterHeartbeatFQDNs :: "Config \<Rightarrow> string \<Rightarrow> string gomap" where
  "GetExternalClusterHeartbeatFQDNs c gslbName =
     fold (\<lambda>tag m. m_set tag (getHeartbeatFQDN gslbName tag (co_edgeDNSZone c)) m)
       (co_extClustersGeoTags c) []"

definition GetClusterHeartbeatFQDN :: "Config \<Rightarrow> string \<Rightarrow> string" where
  "GetClusterHeartbeatFQDN c gslbName =
     getHeartbeatFQDN gslbName (co_clusterGeoTag c) (co_edgeDNSZone c)"

section \<open>Parsing\<close>

definition getEdgeDNSType :: "Config \<Rightarrow> EdgeDNSType \<times> EdgeDNSType list" where
  "getEdgeDNSType config =
     (let recognized = (if co_ns1Enabled config then [DNSTypeNS1] else [])
            @ (if co_route53Enabled config then [DNSTypeRoute53] else [])
            @ (if isNotEmpty (ib_host (co_infoblox config)) then [DNSTypeInfoblox] else [])
      in if length recognized = 0 then (DNSTypeNoEdgeDNS, recognized)
         else if length recognized = 1 then (hd recognized, recognized)
         else (DNSTypeMultipleProviders, recognized))"

definition parseLogOutputFormat :: "string \<Rightarrow> LogFormat" where
  "parseLogOutputFormat value =
     (if value = ''json'' then JSONFormat else if value = ''simple'' then SimpleFormat else NoFormat)"

definition parseMetricsAddr :: "string \<Rightarrow> string \<times> int \<times> goerr option" where
  "parseMetricsAddr metricsAddr =
     (let ma = split_on (CHR '':'') metricsAddr
      in if length ma \<noteq> 2
         then ([], 0, Some (Errorf ''invalid format {host}:port (%s)'' [metricsAddr]))
         else let (port, err) = atoi (ma ! 1) in (ma ! 0, port, err))"

section \<open>Validation\<close>

text \<open>
  The validator prints the source text of a pattern in its error; here its constant's name
  stands for it.
\<close>

definition geoTagRe :: "string \<times> re" where "geoTagRe = (''geoTagRegex'', geoTagRegex)"
definition hostNameRe :: "string \<times> re" where "hostNameRe = (''hostNameRegex'', hostNameRegex)"
definition ipAddressRe :: "string \<times> re" where "ipAddressRe = (''ipAddressRegex'', ipAddressRegex)"
definition versionNumberRe :: "string \<times> re" where
  "versionNumberRe = (''versionNumberRegex'', versionNumberRegex)"
definition k8sNamespaceRe :: "string \<times> re" where
  "k8sNamespaceRe = (''k8sNamespaceRegex'', k8sNamespaceRegex)"

text \<open>A sequence of checks with early return: the first error, if there is one.\<close>

text \<open>The names of the environment variables.\<close>

abbreviation ReconcileRequeueSecondsKey :: string where "ReconcileRequeueSecondsKey \<equiv> ''RECONCILE_REQUEUE_SECONDS''"
abbreviation ClusterGeoTagKey :: string where "ClusterGeoTagKey \<equiv> ''CLUSTER_GEO_TAG''"
abbreviation ExtClustersGeoTagsKey :: string where "ExtClustersGeoTagsKey \<equiv> ''EXT_GSLB_CLUSTERS_GEO_TAGS''"
abbreviation Route53EnabledKey :: string where "Route53EnabledKey \<equiv> ''ROUTE53_ENABLED''"
abbreviation NS1EnabledKey :: string where "NS1EnabledKey \<equiv> ''NS1_ENABLED''"
abbreviation EdgeDNSServerKey :: string where "EdgeDNSServerKey \<equiv> ''EDGE_DNS_SERVER''"
abbreviation EdgeDNSServerPortKey :: string where "EdgeDNSServerPortKey \<equiv> ''EDGE_DNS_SERVER_PORT''"
abbreviation EdgeDNSZoneKey :: string where "EdgeDNSZoneKey \<equiv> ''EDGE_DNS_ZONE''"
abbreviation DNSZoneKey :: string where "DNSZoneKey \<equiv> ''DNS_ZONE''"
abbreviation InfobloxGridHostKey :: string where "InfobloxGridHostKey \<equiv> ''INFOBLOX_GRID_HOST''"
abbreviation InfobloxVersionKey :: string where "InfobloxVersionKey \<equiv> ''INFOBLOX_WAPI_VERSION''"
abbreviation InfobloxPortKey :: string where "InfobloxPortKey \<equiv> ''INFOBLOX_WAPI_PORT''"
abbreviation InfobloxUsernameKey :: string where "InfobloxUsernameKey \<equiv> ''EXTERNAL_DNS_INFOBLOX_WAPI_USERNAME''"
abbreviation InfobloxPasswordKey :: string where "InfobloxPasswordKey \<equiv> ''EXTERNAL_DNS_INFOBLOX_WAPI_PASSWORD''"
abbreviation InfobloxHTTPRequestTimeoutKey :: string where "InfobloxHTTPRequestTimeoutKey \<equiv> ''INFOBLOX_HTTP_REQUEST_TIMEOUT''"
abbreviation InfobloxHTTPPoolConnectionsKey :: string where "InfobloxHTTPPoolConnectionsKey \<equiv> ''INFOBLOX_HTTP_POOL_CONNECTIONS''"
abbreviation OverrideFakeInfobloxKey :: string where "OverrideFakeInfobloxKey \<equiv> ''FAKE_INFOBLOX''"
abbreviation K8gbNamespaceKey :: string where "K8gbNamespaceKey \<equiv> ''POD_NAMESPACE''"
abbreviation CoreDNSExposedKey :: string where "CoreDNSExposedKey \<equiv> ''COREDNS_EXPOSED''"
abbreviation LogLevelKey :: string where "LogLevelKey \<equiv> ''LOG_LEVEL''"
abbreviation LogFormatKey :: string where "LogFormatKey \<equiv> ''LOG_FORMAT''"
abbreviation LogNoColorKey :: string where "LogNoColorKey \<equiv> ''NO_COLOR''"
abbreviation SplitBrainCheckKey :: string where "SplitBrainCheckKey \<equiv> ''SPLIT_BRAIN_CHECK''"
abbreviation MetricsAddressKey :: string where "MetricsAddressKey \<equiv> ''METRICS_ADDRESS''"

fun first_err :: "goerr option list \<Rightarrow> goerr option" where
  "first_err [] = None"
| "first_err (Some e # es) = Some e"
| "first_err (None # es) = first_err es"

fun validateLabels_loop :: "string list \<Rightarrow> goerr option" where
  "validateLabels_loop [] = None"
| "validateLabels_loop (l # ls) =
     (if length l > 63 then Some (Errorf ''%s exceeds %v characters limit'' [l, ''63''])
      else validateLabels_loop ls)"

definition validateLabels :: "string \<Rightarrow> goerr option" where
  "validateLabels label = validateLabels_loop (split_on (CHR ''.'') label)"

definition ns_name_err :: "Config \<Rightarrow> string \<times> string \<Rightarrow> goerr option" where
  "ns_name_err config = (\<lambda>(geoTag, nsName).
     if length nsName > 253
     then Some (Errorf ''ns name '%s' exceeds %v charactes limit for [GeoTag: '%s', %s: '%s', %s: '%s']''
            [nsName, ''63'', geoTag, EdgeDNSZoneKey, co_edgeDNSZone config, DNSZoneKey, co_dnsZone config])
     else (case validateLabels nsName of
             Some e \<Rightarrow> Some (Errorf ''error for geo tag: %s. %s in ns name %s'' [geoTag, err_text e, nsName])
           | None \<Rightarrow> None))"

definition geo_tags_errs :: "Config \<Rightarrow> goerr option list" where
  "geo_tags_errs config =
     map (\<lambda>(i, geoTag).
       va_err (isNotEqualTo (co_clusterGeoTag config) (matchRegexp geoTagRe (v_isNotEmpty
         (field (sprintf ''%s[%v]'' [ExtClustersGeoTagsKey, itoa (int i)]) (VString geoTag))))))
       (zip [0..<length (co_extClustersGeoTags config)] (co_extClustersGeoTags config))"

definition infoblox_errs :: "Infoblox \<Rightarrow> goerr option list" where
  "infoblox_errs ib =
     [va_err (matchRegexps [hostNameRe, ipAddressRe] (field InfobloxGridHostKey (VString (ib_host ib)))),
      va_err (matchRegexp versionNumberRe (v_isNotEmpty
        (field InfobloxVersionKey (VString (ib_version ib))))),
      va_err (isLessOrEqualTo 65535 (isHigherThanZero (field InfobloxPortKey (VInt (ib_port ib))))),
      va_err (v_isNotEmpty (field InfobloxUsernameKey (VString (ib_username ib)))),
      va_err (v_isNotEmpty (field InfobloxPasswordKey (VString (ib_password ib)))),
      va_err (isHigherOrEqualToZero
        (field InfobloxHTTPPoolConnectionsKey (VInt (ib_httpPoolConnections ib)))),
      va_err (isHigherThanZero
        (field InfobloxHTTPRequestTimeoutKey (VInt (ib_httpRequestTimeout ib))))]"

definition metrics_errs :: "string \<Rightarrow> goerr option list" where
  "metrics_errs addr =
     (case parseMetricsAddr addr of
        (_, _, Some e) \<Rightarrow>
          [Some (Errorf ''invalid %s: expecting MetricsAddress in form {host}:port (%s)'' [MetricsAddressKey, err_text e])]
      | (mHost, mPort, None) \<Rightarrow>
          [va_err (matchRegexps [hostNameRe, ipAddressRe] (field MetricsAddressKey (VString mHost))),
           va_err (isHigherThan 1024 (isLessOrEqualTo 65535 (field MetricsAddressKey (VInt mPort))))])"

definition serverNames :: "Config \<Rightarrow> string gomap" where
  "serverNames config =
     m_set (co_clusterGeoTag config) (GetClusterNSName config) (GetExternalClusterNSNames config)"

text \<open>
  The level printer of zerolog is an argument: the first error lists the allowed levels.
\<close>

definition validateConfig ::
    "(level \<Rightarrow> string) \<Rightarrow> range_order \<Rightarrow> Config \<Rightarrow> EdgeDNSType list \<Rightarrow> goerr option" where
  "validateConfig lvl ord config recognizedDNSTypes =
     (if lo_level (co_log config) = NoLevel
      then Some (Errorf (''invalid '%s', allowed values ['' @ [CHR 0x27, CHR 0x27] @ '','%s','%s','%s','%s','%s','%s','%s']'')
             (LogLevelKey # map lvl [TraceLevel, DebugLevel, InfoLevel, WarnLevel, FatalLevel, DebugLevel, PanicLevel]))
      else if lo_format (co_log config) = NoFormat
      then Some (Errorf (''invalid '%s', allowed values ['' @ [CHR 0x27, CHR 0x27] @ '','%s','%s']'')
             (LogFormatKey # map LogFormat_String [JSONFormat, SimpleFormat]))
      else if co_edgeDNSType config = DNSTypeMultipleProviders
      then Some (Errorf ''several EdgeDNS recognized %s'' (map EdgeDNSType_String recognizedDNSTypes))
      else first_err (
        [va_err (matchRegexp k8sNamespaceRe (v_isNotEmpty
           (field K8gbNamespaceKey (VString (co_k8gbNamespace config))))),
         va_err (isHigherThanZero
           (field ReconcileRequeueSecondsKey (VInt (co_reconcileRequeueSeconds config)))),
         va_err (matchRegexp geoTagRe (v_isNotEmpty
           (field ClusterGeoTagKey (VString (co_clusterGeoTag config))))),
         va_err (hasUniqueItems (hasItems
           (field ExtClustersGeoTagsKey (VStrings (co_extClustersGeoTags config)))))]
        @ geo_tags_errs config
        @ [va_err (matchRegexps [hostNameRe, ipAddressRe] (v_isNotEmpty
             (field EdgeDNSServerKey (VString (co_edgeDNSServer config))))),
           va_err (isHigherThanZero
             (field EdgeDNSServerPortKey (VInt (co_edgeDNSServerPort config)))),
           va_err (matchRegexp hostNameRe (v_isNotEmpty
             (field EdgeDNSZoneKey (VString (co_edgeDNSZone config))))),
           va_err (matchRegexp hostNameRe (v_isNotEmpty
             (field DNSZoneKey (VString (co_dnsZone config)))))]
        @ (if isNotEmpty (ib_host (co_infoblox config)) then infoblox_errs (co_infoblox config) else [])
        @ map (ns_name_err config) (ord (serverNames config))
        @ metrics_errs (co_metricsAddress config)))"

section \<open>Resolving the configuration\<close>

definition read_config :: "env \<Rightarrow> zerolog \<Rightarrow> Config" where
  "read_config e z =
     \<lparr>co_reconcileRequeueSeconds = fst (getEnvAsInt e ReconcileRequeueSecondsKey 30),
      co_clusterGeoTag = getEnvAsString e ClusterGeoTagKey [],
      co_extClustersGeoTags = getEnvAsArrayOfStrings e ExtClustersGeoTagsKey [],
      co_edgeDNSType = DNSTypeNoEdgeDNS,
      co_edgeDNSServer = getEnvAsString e EdgeDNSServerKey [],
      co_edgeDNSServerPort = fst (getEnvAsInt e EdgeDNSServerPortKey 53),
      co_edgeDNSZone = getEnvAsString e EdgeDNSZoneKey [],
      co_dnsZone = getEnvAsString e DNSZoneKey [],
      co_k8gbNamespace = getEnvAsString e K8gbNamespaceKey [],
      co_infoblox =
        \<lparr>ib_host = getEnvAsString e InfobloxGridHostKey [],
         ib_version = getEnvAsString e InfobloxVersionKey [],
         ib_port = fst (getEnvAsInt e InfobloxPortKey 0),
         ib_username = getEnvAsString e InfobloxUsernameKey [],
         ib_password = getEnvAsString e InfobloxPasswordKey [],
         ib_httpRequestTimeout = fst (getEnvAsInt e InfobloxHTTPRequestTimeoutKey 20),
         ib_httpPoolConnections = fst (getEnvAsInt e InfobloxHTTPPoolConnectionsKey 10)\<rparr>,
      co_fakeInfobloxEnabled = getEnvAsBool e OverrideFakeInfobloxKey False,
      co_coreDNSExposed = getEnvAsBool e CoreDNSExposedKey False,
      co_log =
        \<lparr>lo_level = fst (parseLevel z (toLower (getEnvAsString e LogLevelKey (level_String z InfoLevel)))),
         lo_format = parseLogOutputFormat (toLower
           (getEnvAsString e LogFormatKey (LogFormat_String SimpleFormat))),
         lo_noColor = getEnvAsBool e LogNoColorKey False\<rparr>,
      co_metricsAddress = getEnvAsString e MetricsAddressKey ''0.0.0.0:8080'',
      co_route53Enabled = getEnvAsBool e Route53EnabledKey False,
      co_ns1Enabled = getEnvAsBool e NS1EnabledKey False,
      co_splitBrainCheck = getEnvAsBool e SplitBrainCheckKey False\<rparr>"

definition ResolveOperatorConfig ::
    "env \<Rightarrow> zerolog \<Rightarrow> range_order \<Rightarrow> DependencyResolver
       \<Rightarrow> (Config option \<times> goerr option) \<times> DependencyResolver" where
  "ResolveOperatorConfig e z ord dr =
     (let dr' =
        (if dr_onceConfig dr then dr
         else let c = read_config e z;
                  (ty, recognizedDNSTypes) = getEdgeDNSType c;
                  c' = c\<lparr>co_edgeDNSType := ty\<rparr>
              in dr\<lparr>dr_config := Some c',
                    dr_errorConfig := validateConfig (level_String z) ord c' recognizedDNSTypes,
                    dr_onceConfig := True\<rparr>)
      in ((dr_config dr', dr_errorConfig dr'), dr'))"

section \<open>What an accepted configuration satisfies\<close>

definition host_name :: "string \<Rightarrow> bool" where
  "host_name s = list_all (label_of is_alnum) (split_on (CHR ''.'') s)"

definition ipv4 :: "string \<Rightarrow> bool" where
  "ipv4 s = (length (split_on (CHR ''.'') s) = 4 \<and> list_all octet (split_on (CHR ''.'') s))"

definition geo_tag :: "string \<Rightarrow> bool" where
  "geo_tag s \<longleftrightarrow> s \<noteq> [] \<and> list_all (\<lambda>c. is_alnum c \<or> c = CHR ''-'') s"

definition dns_name_ok :: "string \<Rightarrow> bool" where
  "dns_name_ok s \<longleftrightarrow> length s \<le> 253 \<and> list_all (\<lambda>l. length l \<le> 63) (split_on (CHR ''.'') s)"

definition infoblox_spec :: "Infoblox \<Rightarrow> bool" where
  "infoblox_spec ib \<longleftrightarrow>
     host_name (ib_host ib) \<and> ib_version ib \<noteq> [] \<and> matches versionNumberRegex (ib_version ib) \<and>
     0 < ib_port ib \<and> ib_port ib \<le> 65535 \<and> ib_username ib \<noteq> [] \<and> ib_password ib \<noteq> [] \<and>
     0 \<le> ib_httpPoolConnections ib \<and> 0 < ib_httpRequestTimeout ib"

definition metrics_spec :: "string \<Rightarrow> bool" where
  "metrics_spec addr \<longleftrightarrow>
     (\<exists>h p i. split_on (CHR '':'') addr = [h, p] \<and> atoi p = (i, None) \<and>
        (h = [] \<or> host_name h) \<and> 1024 < i \<and> i \<le> 65535)"

definition config_spec :: "Config \<Rightarrow> bool" where
  "config_spec c \<longleftrightarrow>
     lo_level (co_log c) \<noteq> NoLevel \<and> lo_format (co_log c) \<noteq> NoFormat \<and>
     co_edgeDNSType c \<noteq> DNSTypeMultipleProviders \<and>
     label_of is_lower_alnum (co_k8gbNamespace c) \<and> 0 < co_reconcileRequeueSeconds c \<and>
     geo_tag (co_clusterGeoTag c) \<and> co_extClustersGeoTags c \<noteq> [] \<and>
     distinct (co_clusterGeoTag c # co_extClustersGeoTags c) \<and>
     list_all geo_tag (co_extClustersGeoTags c) \<and>
     host_name (co_edgeDNSServer c) \<and> 0 < co_edgeDNSServerPort c \<and>
     host_name (co_edgeDNSZone c) \<and> host_name (co_dnsZone c) \<and>
     (isNotEmpty (ib_host (co_infoblox c)) \<longrightarrow> infoblox_spec (co_infoblox c)) \<and>
     list_all (\<lambda>t. dns_name_ok (getNsName t (co_dnsZone c) (co_edgeDNSZone c) (co_edgeDNSServer c)))
       (co_clusterGeoTag c # co_extClustersGeoTags c) \<and>
     metrics_spec (co_metricsAddress c)"

text \<open>A configuration in the manner of the repository's examples, used to evaluate definitions.\<close>

definition sample_infoblox :: Infoblox where
  "sample_infoblox = \<lparr>ib_host = [], ib_version = [], ib_port = 0, ib_username = [], ib_password = [],
     ib_httpRequestTimeout = 20, ib_httpPoolConnections = 10\<rparr>"

definition sample_config :: Config where
  "sample_config =
     \<lparr>co_reconcileRequeueSeconds = 30, co_clusterGeoTag = ''us'', co_extClustersGeoTags = [''uk'', ''eu''],
      co_edgeDNSType = DNSTypeNS1, co_edgeDNSServer = ''dns.example.com'', co_edgeDNSServerPort = 53,
      co_edgeDNSZone = ''example.com'', co_dnsZone = ''cloud.example.com'', co_k8gbNamespace = ''k8gb'',
      co_infoblox = sample_infoblox, co_fakeInfobloxEnabled = False, co_coreDNSExposed = False,
      co_log = \<lparr>lo_level = InfoLevel, lo_format = SimpleFormat, lo_noColor = False\<rparr>,
      co_metricsAddress = ''0.0.0.0:8080'', co_route53Enabled = False, co_ns1Enabled = True,
      co_splitBrainCheck = False\<rparr>"

definition sample_env :: env where
  "sample_env =
     \<lparr>getEnvAsInt = (\<lambda>k d. (d, None)),
      getEnvAsString = (\<lambda>k d. if k = ClusterGeoTagKey then ''us''
         else if k = EdgeDNSServerKey then ''dns.example.com''
         else if k = EdgeDNSZoneKey then ''example.com''
         else if k = DNSZoneKey then ''cloud.example.com''
         else if k = K8gbNamespaceKey then ''k8gb'' else d),
      getEnvAsArrayOfStrings = (\<lambda>k d. [''uk'', ''eu'']),
      getEnvAsBool = (\<lambda>k d. if k = NS1EnabledKey then True else d)\<rparr>"

definition sample_zerolog :: zerolog where
  "sample_zerolog = \<lparr>parseLevel = (\<lambda>s. (InfoLevel, None)), level_String = (\<lambda>l. ''info'')\<rparr>"

section \<open>Lemmas\<close>

lemma first_err_None_iff: "first_err es = None \<longleftrightarrow> (\<forall>e \<in> set es. e = None)"
  by (induction es rule: first_err.induct) auto

lemma validateLabels_iff: "validateLabels s = None \<longleftrightarrow> list_all (\<lambda>l. length l \<le> 63) (split_on (CHR ''.'') s)"
proof -
  have "validateLabels_loop ls = None \<longleftrightarrow> list_all (\<lambda>l. length l \<le> 63) ls" for ls
    by (induction ls) auto
  then show ?thesis by (simp add: validateLabels_def)
qed

lemma host_name_iff: "host_name s \<longleftrightarrow> re_match hostNameRegex s"
  by (simp add: host_name_def re_match_iff matches_hostName)

lemma host_name_nonempty: "host_name s \<Longrightarrow> s \<noteq> []"
  by (auto simp: host_name_def label_of_def)

lemma host_name_Nil [simp]: "\<not> host_name []"
  using host_name_nonempty by blast

lemma ipv4_iff: "ipv4 s \<longleftrightarrow> re_match ipAddressRegex s"
  by (auto simp: ipv4_def re_match_iff matches_ipAddress length_Suc_conv numeral_eq_Suc)

lemma digit_is_alnum: "d \<le> 9 \<Longrightarrow> is_alnum (digit_char d)"
  by (simp add: is_alnum_def in_class_def r_09_def r_az_def r_AZ_def of_char_digit)

lemma octet_label: "octet l \<Longrightarrow> label_of is_alnum l"
  unfolding matches_octet [symmetric] matches_octet_digits
  by (elim disjE exE conjE) (simp_all add: label_of_def digit_is_alnum)

text \<open>Every IPv4 address is also a host name, so the second pattern never decides.\<close>

lemma ipv4_host_name: "ipv4 s \<Longrightarrow> host_name s"
  by (auto simp: ipv4_def host_name_def list_all_iff octet_label)

lemma host_or_ip:
  "(\<exists>r \<in> set [hostNameRe, ipAddressRe]. re_match (snd r) s) \<longleftrightarrow> host_name s"
  using ipv4_host_name [of s] by (auto simp: hostNameRe_def ipAddressRe_def host_name_iff ipv4_iff)

lemma geo_tag_iff: "geo_tag s \<longleftrightarrow> s \<noteq> [] \<and> re_match geoTagRegex s"
  by (simp add: geo_tag_def re_match_iff matches_geoTag)

lemma namespace_iff: "label_of is_lower_alnum s \<longleftrightarrow> s \<noteq> [] \<and> re_match k8sNamespaceRegex s"
  by (auto simp: re_match_iff matches_namespace label_of_def)

lemma keys_fold_m_set:
  "map_of (fold (\<lambda>t m. m_set t (f t) m) ts m) k = (if k \<in> set ts then Some (f k) else map_of m k)"
  by (induction ts arbitrary: m) auto

lemma gomap_ok_fold_m_set: "gomap_ok m \<Longrightarrow> gomap_ok (fold (\<lambda>t m. m_set t (f t) m) ts m)"
  by (induction ts arbitrary: m) auto

lemma gomap_ok_ext_ns: "gomap_ok (GetExternalClusterNSNames c)"
  by (simp add: GetExternalClusterNSNames_def gomap_ok_fold_m_set)

lemma map_of_ext_ns:
  "map_of (GetExternalClusterNSNames c) t =
     (if t \<in> set (co_extClustersGeoTags c)
      then Some (getNsName t (co_dnsZone c) (co_edgeDNSZone c) (co_edgeDNSServer c)) else None)"
  by (simp add: GetExternalClusterNSNames_def keys_fold_m_set)

lemma set_serverNames:
  "set (serverNames c) =
     (\<lambda>t. (t, getNsName t (co_dnsZone c) (co_edgeDNSZone c) (co_edgeDNSServer c))) `
        set (co_clusterGeoTag c # co_extClustersGeoTags c)"
proof -
  have ok: "gomap_ok (serverNames c)"
    by (simp add: serverNames_def gomap_ok_ext_ns gomap_ok_m_set)
  show ?thesis
    by (auto simp: gomap_ok_map_of [OF ok, symmetric])
       (auto simp: serverNames_def map_of_ext_ns GetClusterNSName_def split: if_splits)
qed

lemma ns_name_err_iff: "ns_name_err c (t, n) = None \<longleftrightarrow> dns_name_ok n"
  by (auto simp: ns_name_err_def dns_name_ok_def validateLabels_iff [symmetric] split: option.splits)

lemma passes_host_or_ip [simp]:
  "passes (matchRegexps [hostNameRe, ipAddressRe] v) \<longleftrightarrow>
     passes v \<and> (va_strValue v = [] \<or> host_name (va_strValue v))"
  using host_or_ip [of "va_strValue v"] by simp

lemma passes_required:
  "passes (matchRegexp hostNameRe (v_isNotEmpty v)) \<longleftrightarrow> passes v \<and> host_name (va_strValue v)"
  "passes (matchRegexp geoTagRe (v_isNotEmpty v)) \<longleftrightarrow> passes v \<and> geo_tag (va_strValue v)"
  "passes (matchRegexp k8sNamespaceRe (v_isNotEmpty v)) \<longleftrightarrow>
     passes v \<and> label_of is_lower_alnum (va_strValue v)"
  "passes (matchRegexps [hostNameRe, ipAddressRe] (v_isNotEmpty v)) \<longleftrightarrow>
     passes v \<and> host_name (va_strValue v)"
  using host_name_nonempty [of "va_strValue v"] passes_host_or_ip [of "v_isNotEmpty v"]
  by (auto simp: hostNameRe_def geoTagRe_def k8sNamespaceRe_def host_name_iff geo_tag_iff namespace_iff)

declare passes_required [simp] passes_matchRegexps [simp del] passes_matchRegexp [simp del]

lemma list_all_conj: "list_all (\<lambda>x. P x \<and> Q x) xs \<longleftrightarrow> list_all P xs \<and> list_all Q xs"
  by (auto simp: list_all_iff)

lemma set_zip_upt: "snd ` set (zip [0..<length ts] ts) = set ts"
  by (metis length_map length_upt map_snd_zip map_nth set_map diff_zero)

lemma geo_tags_errs_iff:
  "(\<forall>e \<in> set (geo_tags_errs c). e = None) \<longleftrightarrow>
     list_all (\<lambda>t. geo_tag t \<and> t \<noteq> co_clusterGeoTag c) (co_extClustersGeoTags c)"
proof -
  have "(\<forall>e \<in> set (geo_tags_errs c). e = None) \<longleftrightarrow>
      (\<forall>t \<in> snd ` set (zip [0..<length (co_extClustersGeoTags c)] (co_extClustersGeoTags c)).
         geo_tag t \<and> t \<noteq> co_clusterGeoTag c)"
    by (simp add: geo_tags_errs_def va_err_None case_prod_beta)
  then show ?thesis unfolding set_zip_upt by (simp add: list_all_iff)
qed

lemma infoblox_errs_iff:
  "isNotEmpty (ib_host ib) \<Longrightarrow> (\<forall>e \<in> set (infoblox_errs ib). e = None) \<longleftrightarrow> infoblox_spec ib"
proof -
  assume "isNotEmpty (ib_host ib)"
  then have "ib_host ib \<noteq> []" by (auto simp: isNotEmpty_iff)
  then show ?thesis
    by (auto simp: infoblox_errs_def infoblox_spec_def va_err_None versionNumberRe_def re_match_iff
        passes_matchRegexp)
qed

lemma metrics_errs_iff: "(\<forall>e \<in> set (metrics_errs a). e = None) \<longleftrightarrow> metrics_spec a"
proof (cases "length (split_on (CHR '':'') a) = 2")
  case True
  then obtain h p where hp: "split_on (CHR '':'') a = [h, p]"
    by (auto simp: length_Suc_conv numeral_2_eq_2)
  obtain i e where i: "atoi p = (i, e)" by (cases "atoi p")
  show ?thesis
    by (cases e) (auto simp: metrics_errs_def parseMetricsAddr_def metrics_spec_def hp i va_err_None)
next
  case False
  then show ?thesis by (auto simp: metrics_errs_def parseMetricsAddr_def metrics_spec_def)
qed

lemma ns_errs_iff:
  "range_ok ord \<Longrightarrow> (\<forall>e \<in> set (ord (serverNames c)). ns_name_err c e = None) \<longleftrightarrow>
     list_all (\<lambda>t. dns_name_ok (getNsName t (co_dnsZone c) (co_edgeDNSZone c) (co_edgeDNSServer c)))
       (co_clusterGeoTag c # co_extClustersGeoTags c)"
  by (auto simp: range_ok_set set_serverNames ns_name_err_iff list_all_iff)

lemma config_spec_unfold:
  "range_ok ord \<Longrightarrow> validateConfig lvl ord c ts = None \<longleftrightarrow> config_spec c"
proof -
  assume ord: "range_ok ord"
  have early: "validateConfig lvl ord c ts \<noteq> None"
    if "lo_level (co_log c) = NoLevel \<or> lo_format (co_log c) = NoFormat \<or>
        co_edgeDNSType c = DNSTypeMultipleProviders"
    using that by (auto simp: validateConfig_def)
  have late: "validateConfig lvl ord c ts = None \<longleftrightarrow> config_spec c"
    if t: "lo_level (co_log c) \<noteq> NoLevel" "lo_format (co_log c) \<noteq> NoFormat"
       "co_edgeDNSType c \<noteq> DNSTypeMultipleProviders"
  proof -
    show ?thesis
      using t
      by (cases "isNotEmpty (ib_host (co_infoblox c))")
         (simp_all add: validateConfig_def config_spec_def va_err_None first_err_None_iff ball_Un
          geo_tags_errs_iff metrics_errs_iff ns_errs_iff [OF ord] list_all_conj infoblox_errs_iff,
          (auto simp: list_all_iff)+)
  qed
  have "\<not> config_spec c"
    if "lo_level (co_log c) = NoLevel \<or> lo_format (co_log c) = NoFormat \<or>
        co_edgeDNSType c = DNSTypeMultipleProviders"
    using that by (auto simp: config_spec_def)
  with early late show ?thesis by blast
qed

subsection \<open>Name server names\<close>

abbreviation ns_of :: "Config \<Rightarrow> string \<Rightarrow> string" where
  "ns_of c t \<equiv> getNsName t (co_dnsZone c) (co_edgeDNSZone c) (co_edgeDNSServer c)"

abbreviation local_edge_dns :: "Config \<Rightarrow> bool" where
  "local_edge_dns c \<equiv> co_edgeDNSServer c = ''127.0.0.1'' \<or> co_edgeDNSServer c = ''localhost''"

definition ns_domain :: "string \<Rightarrow> string \<Rightarrow> string" where
  "ns_domain dnsZone edgeDNSZone = replaceAll (CHR ''.'') ''-'' (trimSuffix dnsZone (''.'' @ edgeDNSZone))"

lemma getNsName_eq:
  "\<not> (server = ''127.0.0.1'' \<or> server = ''localhost'') \<Longrightarrow>
     getNsName tag z ez server = ''gslb-ns-'' @ tag @ ''-'' @ ns_domain z ez @ ''.'' @ ez"
  by (simp add: getNsName_def ns_domain_def Let_def)

lemma getNsName_inj:
  assumes "\<not> (server = ''127.0.0.1'' \<or> server = ''localhost'')"
    and "getNsName s z ez server = getNsName t z ez server"
  shows "s = t"
  using assms(2) by (simp add: getNsName_eq [OF assms(1)])

lemma host_name_append: "host_name (s @ CHR ''.'' # t) \<longleftrightarrow> host_name s \<and> host_name t"
  by (simp add: host_name_def split_on_append_sep)

lemma host_name_chars:
  "list_all (label_of is_alnum) (split_on (CHR ''.'') s) \<Longrightarrow> c \<in> set s \<Longrightarrow>
     is_alnum c \<or> c = CHR ''-'' \<or> c = CHR ''.''"
proof -
  assume s: "list_all (label_of is_alnum) (split_on (CHR ''.'') s)" and c: "c \<in> set s"
  have "set (join_with d ps) \<subseteq> insert d (\<Union> (set ` set ps))" for d ps
    by (induction d ps rule: join_with.induct) auto
  then have "c \<in> insert (CHR ''.'') (\<Union> (set ` set (split_on (CHR ''.'') s)))"
    using c by (metis join_split subsetD)
  with s show ?thesis by (auto simp: list_all_iff label_of_def)
qed

lemma host_name_last: "host_name s \<Longrightarrow> s \<noteq> [] \<and> is_alnum (last s)"
proof -
  assume s: "host_name s"
  have "ps \<noteq> [] \<Longrightarrow> last ps \<noteq> [] \<Longrightarrow> join_with d ps \<noteq> [] \<and> last (join_with d ps) = last (last ps)"
    for d and ps :: "string list"
    by (induction d ps rule: join_with.induct) auto
  from this [of "split_on (CHR ''.'') s" "CHR ''.''"] s show ?thesis
    by (simp add: join_split host_name_def list_all_iff label_of_def)
qed

lemma trimSuffix_host_name: "host_name z \<Longrightarrow> host_name (trimSuffix z (CHR ''.'' # ez))"
proof (cases "hasSuffix (CHR ''.'' # ez) z")
  case True
  assume "host_name z"
  from True obtain d where "z = d @ CHR ''.'' # ez" by (auto simp: hasSuffix_iff)
  with \<open>host_name z\<close> show ?thesis by (simp add: host_name_append)
qed (simp add: trimSuffix_def)

lemma ns_domain_label:
  assumes "host_name z"
  shows "ns_domain z ez \<noteq> []" "is_alnum (last (ns_domain z ez))"
    "list_all (\<lambda>c. is_alnum c \<or> c = CHR ''-'') (ns_domain z ez)"
proof -
  let ?d = "trimSuffix z (CHR ''.'' # ez)"
  have d: "host_name ?d" by (rule trimSuffix_host_name [OF assms])
  have alnum_dot: "is_alnum (last ?d) \<Longrightarrow> last ?d \<noteq> CHR ''.''"
    by (auto simp: is_alnum_def in_class_def r_az_def r_AZ_def r_09_def)
  show "ns_domain z ez \<noteq> []"
    using host_name_last [OF d] by (simp add: ns_domain_def map_replaceAll)
  show "is_alnum (last (ns_domain z ez))"
    using host_name_last [OF d] alnum_dot by (simp add: ns_domain_def map_replaceAll last_map)
  show "list_all (\<lambda>c. is_alnum c \<or> c = CHR ''-'') (ns_domain z ez)"
    using host_name_chars [OF d [unfolded host_name_def]]
    by (auto simp: ns_domain_def map_replaceAll list_all_iff)
qed

lemma ns_name_host_name:
  assumes "host_name z" "host_name ez" "geo_tag t"
    and "\<not> (server = ''127.0.0.1'' \<or> server = ''localhost'')"
  shows "host_name (getNsName t z ez server)"
proof -
  let ?l = "''gslb-ns-'' @ t @ ''-'' @ ns_domain z ez"
  have hyph: "is_alnum (CHR ''g'')" "is_alnum (CHR ''s'')" "is_alnum (CHR ''l'')" "is_alnum (CHR ''b'')"
    "is_alnum (CHR ''n'')"
    by (simp_all add: is_alnum_def in_class_def r_az_def r_AZ_def r_09_def)
  have l: "label_of is_alnum ?l"
    using ns_domain_label [OF assms(1), of ez] assms(3) hyph by (simp add: label_of_def geo_tag_def)
  then have "host_name ?l"
    using split_on_no_sep [OF no_dot_in_label [OF l]] by (simp add: host_name_def)
  with assms(2) have "host_name (?l @ CHR ''.'' # ez)" by (simp only: host_name_append)
  then show ?thesis by (simp add: getNsName_eq [OF assms(4)])
qed

section \<open>Properties\<close>

text \<open>
  C16. The configuration validator accepts a configuration exactly when it meets the documented
  constraints: a known log level and format, a single edge DNS provider, a namespace that is a
  DNS label, a positive requeue period and DNS port, non-empty pairwise distinct geo tags of
  letters, digits and hyphens, host names for the servers and zones, a complete Infoblox section
  when a grid host is given, name server names within the DNS length limits for every cluster,
  and a metrics address with a port between 1025 and 65535. The order in which the map of server
  names is visited does not matter.
\<close>

theorem validateConfig_iff:
  assumes "range_ok ord"
  shows "validateConfig lvl ord c ts = None \<longleftrightarrow> config_spec c"
  using assms by (rule config_spec_unfold)

lemmas string_eval_simps =
  label_of_def is_alnum_def is_lower_alnum_def in_class_def r_az_def r_AZ_def r_09_def

lemma sample_names:
  "host_name ''dns.example.com''" "host_name ''example.com''" "host_name ''cloud.example.com''"
  "host_name ''0.0.0.0''" "geo_tag ''us''" "geo_tag ''uk''" "geo_tag ''eu''"
  "label_of is_lower_alnum ''k8gb''"
  by (simp_all add: host_name_def geo_tag_def string_eval_simps)

lemma sample_metrics: "metrics_spec ''0.0.0.0:8080''"
  using sample_names(4)
  by (simp add: metrics_spec_def atoi_def is_digit_def digit_val_def max_int64_def min_int64_def)

lemma sample_ns_ok:
  "dns_name_ok (ns_of sample_config ''us'')" "dns_name_ok (ns_of sample_config ''uk'')"
  "dns_name_ok (ns_of sample_config ''eu'')"
  by (simp_all add: sample_config_def getNsName_def dns_name_ok_def trimSuffix_def hasSuffix_def replaceAll_def)

lemma sample_config_spec: "config_spec sample_config"
  using sample_ns_ok
  by (simp add: config_spec_def sample_names sample_metrics sample_config_def NoFormat_def
      SimpleFormat_def sample_infoblox_def isNotEmpty_def replaceAll_def)

lemma sample_config_ok: "validateConfig lvl (\<lambda>m. m) sample_config ts = None"
  by (simp add: config_spec_unfold range_ok_id sample_config_spec)

lemma sample_read_config:
  "read_config sample_env sample_zerolog = sample_config\<lparr>co_edgeDNSType := DNSTypeNoEdgeDNS\<rparr>"
  by (simp add: read_config_def sample_env_def sample_zerolog_def sample_config_def sample_infoblox_def
      parseLogOutputFormat_def LogFormat_String_def JSONFormat_def SimpleFormat_def toLower_def
      toLower_char_def)

lemma sample_resolve:
  "ResolveOperatorConfig sample_env sample_zerolog (\<lambda>m. m) NewDependencyResolver =
     ((Some sample_config, None),
      NewDependencyResolver\<lparr>dr_config := Some sample_config, dr_onceConfig := True\<rparr>)"
proof -
  have "getEdgeDNSType (sample_config\<lparr>co_edgeDNSType := DNSTypeNoEdgeDNS\<rparr>) = (DNSTypeNS1, [DNSTypeNS1])"
    by (simp add: getEdgeDNSType_def sample_config_def sample_infoblox_def isNotEmpty_def replaceAll_def)
  moreover have "sample_config\<lparr>co_edgeDNSType := DNSTypeNS1\<rparr> = sample_config"
    by (simp add: sample_config_def)
  ultimately show ?thesis
    by (simp add: ResolveOperatorConfig_def NewDependencyResolver_def sample_read_config sample_config_ok)
qed

theorem validateConfig_iff_witness:
  "range_ok (\<lambda>m. m) \<and> config_spec sample_config \<and>
     \<not> config_spec (sample_config\<lparr>co_extClustersGeoTags := [''us'']\<rparr>)"
proof -
  have "\<not> config_spec (sample_config\<lparr>co_extClustersGeoTags := [''us'']\<rparr>)"
    by (simp add: config_spec_def sample_config_def)
  then show ?thesis
    using validateConfig_iff [OF range_ok_id] sample_config_ok range_ok_id by blast
qed

text \<open>
  C23. The generated name server names of the cluster and of all external clusters, in every accepted
  configuration, obey the limits of DNS: at most 253 characters, and at most 63 in every label
  between two dots. When the edge DNS server is not local (\<^verbatim>\<open>127.0.0.1\<close> or \<^verbatim>\<open>localhost\<close>, for which
  every name is that server) they are moreover pairwise distinct host names.
\<close>

theorem ns_names_wellformed:
  assumes "range_ok ord" and "validateConfig lvl ord c ts = None"
  shows "list_all (\<lambda>n. length n \<le> 253 \<and> list_all (\<lambda>label. length label \<le> 63) (split_on (CHR ''.'') n))
      (map (ns_of c) (co_clusterGeoTag c # co_extClustersGeoTags c)) \<and>
    (\<not> local_edge_dns c \<longrightarrow>
      distinct (map (ns_of c) (co_clusterGeoTag c # co_extClustersGeoTags c)) \<and>
      list_all host_name (map (ns_of c) (co_clusterGeoTag c # co_extClustersGeoTags c)))"
proof (intro conjI impI)
  have c: "config_spec c" using config_spec_unfold [OF assms(1)] assms(2) by simp
  then show "list_all (\<lambda>n. length n \<le> 253 \<and> list_all (\<lambda>label. length label \<le> 63) (split_on (CHR ''.'') n))
      (map (ns_of c) (co_clusterGeoTag c # co_extClustersGeoTags c))"
    by (auto simp: config_spec_def list_all_iff dns_name_ok_def)
  assume l: "\<not> local_edge_dns c"
  have "inj_on (ns_of c) (set (co_clusterGeoTag c # co_extClustersGeoTags c))"
    using getNsName_inj [OF l] by (intro inj_onI)
  then show "distinct (map (ns_of c) (co_clusterGeoTag c # co_extClustersGeoTags c))"
    using c unfolding distinct_map by (auto simp: config_spec_def)
  have "host_name (ns_of c t)" if "geo_tag t" for t
    using c that l by (intro ns_name_host_name) (auto simp: config_spec_def)
  then show "list_all host_name (map (ns_of c) (co_clusterGeoTag c # co_extClustersGeoTags c))"
    using c by (auto simp: config_spec_def list_all_iff)
qed

theorem ns_names_wellformed_witness:
  "range_ok (\<lambda>m. m) \<and> \<not> local_edge_dns sample_config \<and>
   distinct (map (ns_of sample_config) [''us'', ''uk'', ''eu'']) \<and>
   ns_of sample_config ''us'' = ''gslb-ns-us-cloud.example.com''"
proof -
  have l: "\<not> local_edge_dns sample_config" by (simp add: sample_config_def)
  have "ns_of sample_config ''us'' = ''gslb-ns-us-cloud.example.com''"
    by (simp add: sample_config_def getNsName_def trimSuffix_def hasSuffix_def replaceAll_def)
  moreover have "co_clusterGeoTag sample_config # co_extClustersGeoTags sample_config = [''us'', ''uk'', ''eu'']"
    by (simp add: sample_config_def)
  ultimately show ?thesis
    using ns_names_wellformed [OF range_ok_id sample_config_ok] range_ok_id l by presburger
qed

text \<open>The configuration is read once, with its error, whatever the environment says later.\<close>

lemma resolve_again:
  "ResolveOperatorConfig e z ord dr = (r, dr') \<Longrightarrow> ResolveOperatorConfig e' z' ord' dr' = (r, dr')"
  by (auto simp: ResolveOperatorConfig_def Let_def split: prod.splits if_splits)

lemma resolved_not_multiple:
  assumes "range_ok ord"
    and "ResolveOperatorConfig e z ord NewDependencyResolver = ((Some c, None), dr)"
  shows "co_edgeDNSType c \<noteq> DNSTypeMultipleProviders"
proof -
  from assms(2) obtain ts where "validateConfig (level_String z) ord c ts = None"
    by (auto simp: ResolveOperatorConfig_def NewDependencyResolver_def Let_def split: prod.splits)
  then show ?thesis using config_spec_unfold [OF assms(1)] by (simp add: config_spec_def)
qed

text \<open>
  C33. When the operator starts with an error-free configuration, at most one of NS1, Route53 and
  Infoblox is enabled, and the recorded edge DNS type is that provider, or no provider at all. The
  configuration stays: every later call returns it, whatever the environment then holds, and
  leaves the resolver as it is.
\<close>

theorem resolved_config:
  assumes "range_ok ord"
    and "ResolveOperatorConfig e z ord NewDependencyResolver = ((Some c, None), dr)"
  shows "co_edgeDNSType c =
      (if co_ns1Enabled c then DNSTypeNS1 else if co_route53Enabled c then DNSTypeRoute53
       else if isNotEmpty (ib_host (co_infoblox c)) then DNSTypeInfoblox else DNSTypeNoEdgeDNS) \<and>
    \<not> (co_ns1Enabled c \<and> co_route53Enabled c) \<and>
    \<not> (isNotEmpty (ib_host (co_infoblox c)) \<and> (co_ns1Enabled c \<or> co_route53Enabled c)) \<and>
    ResolveOperatorConfig e' z' ord' dr = ((Some c, None), dr)"
proof -
  from assms(2) obtain c0 ts where c: "getEdgeDNSType c0 = (co_edgeDNSType c, ts)"
    "c = c0\<lparr>co_edgeDNSType := co_edgeDNSType c\<rparr>"
    by (auto simp: ResolveOperatorConfig_def NewDependencyResolver_def Let_def split: prod.splits)
  have "co_edgeDNSType c \<noteq> DNSTypeMultipleProviders" using assms by (rule resolved_not_multiple)
  moreover have "co_ns1Enabled c = co_ns1Enabled c0" "co_route53Enabled c = co_route53Enabled c0"
    "co_infoblox c = co_infoblox c0"
    by (subst c(2), simp)+
  ultimately show ?thesis
    using c(1) resolve_again [OF assms(2)] by (auto simp: getEdgeDNSType_def Let_def split: if_splits)
qed

theorem resolved_config_witness:
  "range_ok (\<lambda>m. m) \<and>
   (\<exists>c dr. ResolveOperatorConfig sample_env sample_zerolog (\<lambda>m. m) NewDependencyResolver = ((Some c, None), dr)
      \<and> co_edgeDNSType c = DNSTypeNS1 \<and> \<not> co_route53Enabled c \<and>
      ResolveOperatorConfig (sample_env\<lparr>getEnvAsString := \<lambda>_ _. []\<rparr>) sample_zerolog rev dr = ((Some c, None), dr))"
proof -
  have "co_ns1Enabled sample_config" by (simp add: sample_config_def)
  with resolved_config [OF range_ok_id sample_resolve, of "sample_env\<lparr>getEnvAsString := \<lambda>_ _. []\<rparr>" sample_zerolog rev] sample_resolve show ?thesis
    by (auto simp: range_ok_id)
qed

end
