(* ===== verification/Platform.thy ===== *)
theory Platform
  imports Gslb_Api
begin

text \<open>
  What k8gb calls outside its own sources, as the record \<open>sys\<close> of operations over an abstract
  world \<open>'w\<close>: the controller-runtime client, DNS queries, the clock, the Infoblox object
  manager, the gauges of Prometheus, \<^verbatim>\<open>dns.Fqdn\<close> and two functions of the Kubernetes
  libraries. Every
  definition that models such a call takes the record as an argument and threads the world.

  The locale \<open>kube_api\<close> states what the code relies on of the API server, over a \<open>view\<close> of
  the stored objects: a read returns the stored object, under the name it was asked for, and NotFound only
  when there is none; a
  successful write stores the object, and one refused with a conflict stores nothing; a call changes only objects of
  its own kind; an update that
  leaves a deleted object without finalizers removes it. A write that failed in another way may or may not have
  taken effect, but it touches no other object.

  The definitions from \<open>store\<close> on are an in-memory API server with arbitrary injected faults,
  in the manner of the fake client the repository's tests use; it satisfies the locale.
\<close>

section \<open>Operations of the environment\<close>

datatype qtype = TypeA | TypeTXT

text \<open>A resource record of a DNS answer: an A record with its printed address, a TXT record with
  its printed form, or a record of another type.\<close>

datatype rr = RR_A string | RR_TXT string | RR_Other

type_synonym dns_msg = "rr list"

record name_server =
  nsv_address :: string
  nsv_name :: string

record zone_delegated =
  zd_ref :: string
  zd_fqdn :: string
  zd_delegateTo :: "name_server slice"

record host_config =
  hc_host :: string
  hc_version :: string
  hc_port :: string
  hc_username :: string
  hc_password :: string

text \<open>Which connector an object manager was made with.\<close>

datatype obj_mgr = FakeMgr | RealMgr

record 'w sys =
  c_getGslb :: "'w \<Rightarrow> namespaced_name \<Rightarrow> (goerr + Gslb) \<times> 'w"
  c_listGslb :: "'w \<Rightarrow> string \<Rightarrow> (goerr + Gslb list) \<times> 'w"
  c_createGslb :: "'w \<Rightarrow> Gslb \<Rightarrow> goerr option \<times> 'w"
  c_updateGslb :: "'w \<Rightarrow> Gslb \<Rightarrow> (goerr + Gslb) \<times> 'w"
  c_updateGslbStatus :: "'w \<Rightarrow> Gslb \<Rightarrow> goerr option \<times> 'w"
  c_getIngress :: "'w \<Rightarrow> namespaced_name \<Rightarrow> (goerr + ingress) \<times> 'w"
  c_createIngress :: "'w \<Rightarrow> ingress \<Rightarrow> goerr option \<times> 'w"
  c_updateIngress :: "'w \<Rightarrow> ingress \<Rightarrow> goerr option \<times> 'w"
  c_getDNSEndpoint :: "'w \<Rightarrow> namespaced_name \<Rightarrow> (goerr + dns_endpoint) \<times> 'w"
  c_createDNSEndpoint :: "'w \<Rightarrow> dns_endpoint \<Rightarrow> goerr option \<times> 'w"
  c_updateDNSEndpoint :: "'w \<Rightarrow> dns_endpoint \<Rightarrow> goerr option \<times> 'w"
  c_deleteDNSEndpoint :: "'w \<Rightarrow> dns_endpoint \<Rightarrow> goerr option \<times> 'w"
  c_getService :: "'w \<Rightarrow> namespaced_name \<Rightarrow> (goerr + service) \<times> 'w"
  c_getEndpoints :: "'w \<Rightarrow> namespaced_name \<Rightarrow> (goerr + endpoints) \<times> 'w"
  n_exchange :: "'w \<Rightarrow> string \<Rightarrow> qtype \<Rightarrow> string \<Rightarrow> (goerr + dns_msg) \<times> 'w"
  n_digSetDNS :: "'w \<Rightarrow> string \<Rightarrow> goerr option \<times> 'w"
  n_digA :: "'w \<Rightarrow> string \<Rightarrow> string \<Rightarrow> (goerr + string list) \<times> 'w"
  n_now :: "'w \<Rightarrow> int \<times> 'w"
  n_gaugeSet :: "'w \<Rightarrow> string \<Rightarrow> string list \<Rightarrow> nat \<Rightarrow> 'w"
  ib_newConnector :: "'w \<Rightarrow> host_config \<Rightarrow> int \<Rightarrow> int \<Rightarrow> goerr option \<times> 'w"
  ib_logout :: "'w \<Rightarrow> goerr option \<times> 'w"
  ib_getZoneDelegated :: "'w \<Rightarrow> obj_mgr \<Rightarrow> string \<Rightarrow> (goerr + zone_delegated option) \<times> 'w"
  ib_createZoneDelegated :: "'w \<Rightarrow> obj_mgr \<Rightarrow> string \<Rightarrow> name_server slice \<Rightarrow> goerr option \<times> 'w"
  ib_updateZoneDelegated :: "'w \<Rightarrow> obj_mgr \<Rightarrow> string \<Rightarrow> name_server slice \<Rightarrow> goerr option \<times> 'w"
  ib_deleteZoneDelegated :: "'w \<Rightarrow> obj_mgr \<Rightarrow> string \<Rightarrow> goerr option \<times> 'w"
  ib_getTXTRecord :: "'w \<Rightarrow> obj_mgr \<Rightarrow> string \<Rightarrow> (goerr + string option) \<times> 'w"
  ib_createTXTRecord :: "'w \<Rightarrow> obj_mgr \<Rightarrow> string \<Rightarrow> string \<Rightarrow> int \<Rightarrow> string \<Rightarrow> goerr option \<times> 'w"
  ib_updateTXTRecord :: "'w \<Rightarrow> obj_mgr \<Rightarrow> string \<Rightarrow> string \<Rightarrow> goerr option \<times> 'w"
  ib_deleteTXTRecord :: "'w \<Rightarrow> obj_mgr \<Rightarrow> string \<Rightarrow> goerr option \<times> 'w"
  l_dnsFqdn :: "string \<Rightarrow> string"
  l_setMetaDataAnnotation :: "object_meta \<Rightarrow> string \<Rightarrow> string \<Rightarrow> object_meta"
  l_setControllerReference :: "object_meta \<Rightarrow> object_meta \<Rightarrow> goerr + object_meta"

section \<open>What the API server promises\<close>

record 'w view =
  v_gslb :: "'w \<Rightarrow> namespaced_name \<Rightarrow> Gslb option"
  v_ingress :: "'w \<Rightarrow> namespaced_name \<Rightarrow> ingress option"
  v_dns :: "'w \<Rightarrow> namespaced_name \<Rightarrow> dns_endpoint option"
  v_service :: "'w \<Rightarrow> namespaced_name \<Rightarrow> service option"
  v_endpoints :: "'w \<Rightarrow> namespaced_name \<Rightarrow> endpoints option"
  v_refused :: "'w \<Rightarrow> ingress list"

text \<open>The last field is a history: the updates of Ingresses that the server has refused with a conflict so
  far. Only such a refusal extends it, so that what a run leaves behind can be told from it.\<close>

definition keep_gslb :: "'w view \<Rightarrow> 'w \<Rightarrow> 'w \<Rightarrow> bool" where
  "keep_gslb V w w' \<longleftrightarrow> v_gslb V w' = v_gslb V w"

definition keep_ingress :: "'w view \<Rightarrow> 'w \<Rightarrow> 'w \<Rightarrow> bool" where
  "keep_ingress V w w' \<longleftrightarrow> v_ingress V w' = v_ingress V w \<and> v_refused V w' = v_refused V w"

definition keep_dns :: "'w view \<Rightarrow> 'w \<Rightarrow> 'w \<Rightarrow> bool" where
  "keep_dns V w w' \<longleftrightarrow> v_dns V w' = v_dns V w"

definition keep_work :: "'w view \<Rightarrow> 'w \<Rightarrow> 'w \<Rightarrow> bool" where
  "keep_work V w w' \<longleftrightarrow> v_service V w' = v_service V w \<and> v_endpoints V w' = v_endpoints V w"

definition keep_all :: "'w view \<Rightarrow> 'w \<Rightarrow> 'w \<Rightarrow> bool" where
  "keep_all V w w' \<longleftrightarrow> keep_gslb V w w' \<and> keep_ingress V w w' \<and> keep_dns V w w' \<and> keep_work V w w'"

lemmas keep_defs = keep_gslb_def keep_ingress_def keep_dns_def keep_work_def keep_all_def

definition reads ::
    "'w view \<Rightarrow> ('w \<Rightarrow> namespaced_name \<Rightarrow> (goerr + 'a) \<times> 'w) \<Rightarrow> ('w \<Rightarrow> namespaced_name \<Rightarrow> 'a option) \<Rightarrow> bool" where
  "reads V rd v \<longleftrightarrow> (\<forall>w k r w'. rd w k = (r, w') \<longrightarrow> keep_all V w w' \<and>
     (\<forall>x. r = Inr x \<longrightarrow> v w k = Some x) \<and> (\<forall>e. r = Inl e \<and> isNotFound e \<longrightarrow> v w k = None))"

text \<open>The object an update of the main resource stores: metadata and specification are those of the
  request, the status is not changed, and a deleted object without finalizers disappears.\<close>

definition stored_gslb :: "Gslb \<Rightarrow> Gslb option" where
  "stored_gslb g =
     (if om_deletionTimestamp (g_meta g) \<noteq> None \<and> om_finalizers (g_meta g) = [] then None else Some g)"

locale kube_api =
  fixes S :: "'w sys" and V :: "'w view"
  assumes get_gslb: "reads V (c_getGslb S) (v_gslb V)"
    and get_ingress: "reads V (c_getIngress S) (v_ingress V)"
    and get_dns: "reads V (c_getDNSEndpoint S) (v_dns V)"
    and get_service: "reads V (c_getService S) (v_service V)"
    and get_endpoints: "reads V (c_getEndpoints S) (v_endpoints V)"
    and get_key:
      "c_getGslb S w nn = (Inr g, w1) \<Longrightarrow> meta_key (g_meta g) = nn"
      "c_getIngress S w nn = (Inr i, w2) \<Longrightarrow> meta_key (ing_meta i) = nn"
      "c_getDNSEndpoint S w nn = (Inr d, w3) \<Longrightarrow> meta_key (de_meta d) = nn"
    and update_gslb: "c_updateGslb S w g = (Inr g', w') \<Longrightarrow>
      g_meta g' = g_meta g \<and> g_spec g' = g_spec g \<and>
      v_gslb V w' = (v_gslb V w)(meta_key (g_meta g) := stored_gslb g')"
    and update_gslb_frame: "c_updateGslb S w g = (rg, w') \<Longrightarrow>
      keep_ingress V w w' \<and> keep_dns V w w' \<and> keep_work V w w'"
    and update_gslb_failed: "c_updateGslb S w g = (Inl e, w') \<Longrightarrow>
      v_gslb V w' = v_gslb V w \<or>
      (\<exists>g'. g_meta g' = g_meta g \<and> g_spec g' = g_spec g \<and>
        v_gslb V w' = (v_gslb V w)(meta_key (g_meta g) := stored_gslb g'))"
    and list_gslb: "c_listGslb S w nsp = (rl, w') \<Longrightarrow> keep_all V w w' \<and>
      (\<forall>gs. rl = Inr gs \<longrightarrow> set gs = {g. v_gslb V w (meta_key (g_meta g)) = Some g \<and> g_namespace g = nsp})"
    and create_gslb: "c_createGslb S w g = (rn, w') \<Longrightarrow>
      keep_ingress V w w' \<and> keep_dns V w w' \<and> keep_work V w w' \<and>
      (rn \<noteq> None \<and> v_gslb V w' = v_gslb V w \<or>
       v_gslb V w (meta_key (g_meta g)) = None \<and> v_gslb V w' = (v_gslb V w)(meta_key (g_meta g) \<mapsto> g))"
    and status_gslb: "c_updateGslbStatus S w g = (r, w') \<Longrightarrow>
      keep_ingress V w w' \<and> keep_dns V w w' \<and> keep_work V w w' \<and>
      (\<forall>k. map_option g_meta (v_gslb V w' k) = map_option g_meta (v_gslb V w k))"
    and status_stored: "c_updateGslbStatus S w g = (None, w') \<Longrightarrow> v_gslb V w (meta_key (g_meta g)) = Some x \<Longrightarrow>
      v_gslb V w' (meta_key (g_meta g)) = Some (x\<lparr>g_status := g_status g\<rparr>)"
    and create_ingress: "c_createIngress S w i = (None, w') \<Longrightarrow>
      v_ingress V w' = (v_ingress V w)(meta_key (ing_meta i) \<mapsto> i)"
    and create_ingress_frame: "c_createIngress S w i = (r, w') \<Longrightarrow>
      keep_gslb V w w' \<and> keep_dns V w w' \<and> keep_work V w w' \<and> v_refused V w' = v_refused V w"
    and update_ingress: "c_updateIngress S w i = (None, w') \<Longrightarrow>
      v_ingress V w' = (v_ingress V w)(meta_key (ing_meta i) \<mapsto> i)"
    and update_ingress_frame: "c_updateIngress S w i = (r, w') \<Longrightarrow>
      keep_gslb V w w' \<and> keep_dns V w w' \<and> keep_work V w w' \<and>
      v_refused V w' = v_refused V w @ (if \<exists>e. r = Some e \<and> isConflict e then [i] else [])"
    and update_ingress_conflict: "c_updateIngress S w i = (Some e, w') \<Longrightarrow> isConflict e \<Longrightarrow>
      v_ingress V w' = v_ingress V w"
    and create_dns: "c_createDNSEndpoint S w d = (None, w') \<Longrightarrow>
      v_dns V w' = (v_dns V w)(meta_key (de_meta d) \<mapsto> d)"
    and create_dns_frame: "c_createDNSEndpoint S w d = (r, w') \<Longrightarrow>
      keep_gslb V w w' \<and> keep_ingress V w w' \<and> keep_work V w w'"
    and update_dns: "c_updateDNSEndpoint S w d = (None, w') \<Longrightarrow>
      v_dns V w' = (v_dns V w)(meta_key (de_meta d) \<mapsto> d)"
    and update_dns_frame: "c_updateDNSEndpoint S w d = (r, w') \<Longrightarrow>
      keep_gslb V w w' \<and> keep_ingress V w w' \<and> keep_work V w w'"
    and delete_dns: "c_deleteDNSEndpoint S w d = (None, w') \<Longrightarrow>
      v_dns V w' = (v_dns V w)(meta_key (de_meta d) := None)"
    and delete_dns_frame: "c_deleteDNSEndpoint S w d = (r, w') \<Longrightarrow>
      keep_gslb V w w' \<and> keep_ingress V w w' \<and> keep_work V w w'"
    and dns_other:
      "c_createDNSEndpoint S w d = (r1, w1) \<Longrightarrow> nn \<noteq> meta_key (de_meta d) \<Longrightarrow> v_dns V w1 nn = v_dns V w nn"
      "c_updateDNSEndpoint S w d = (r2, w2) \<Longrightarrow> nn \<noteq> meta_key (de_meta d) \<Longrightarrow> v_dns V w2 nn = v_dns V w nn"
      "c_deleteDNSEndpoint S w d = (r3, w3) \<Longrightarrow> nn \<noteq> meta_key (de_meta d) \<Longrightarrow> v_dns V w3 nn = v_dns V w nn"
    and net_frame:
      "n_exchange S w q t s = (x1, w1) \<Longrightarrow> keep_all V w w1"
      "n_digSetDNS S w s = (x2, w2) \<Longrightarrow> keep_all V w w2"
      "n_digA S w s f = (x3, w3) \<Longrightarrow> keep_all V w w3"
      "n_now S w = (x4, w4) \<Longrightarrow> keep_all V w w4"
      "keep_all V w (n_gaugeSet S w gauge ls n)"
    and infoblox_frame:
      "ib_newConnector S w hc a b = (e1, w1) \<Longrightarrow> keep_all V w w1"
      "ib_logout S w = (e2, w2) \<Longrightarrow> keep_all V w w2"
      "ib_getZoneDelegated S w om z = (e3, w3) \<Longrightarrow> keep_all V w w3"
      "ib_createZoneDelegated S w om z ns = (e4, w4) \<Longrightarrow> keep_all V w w4"
      "ib_updateZoneDelegated S w om z ns = (e5, w5) \<Longrightarrow> keep_all V w w5"
      "ib_deleteZoneDelegated S w om z = (e6, w6) \<Longrightarrow> keep_all V w w6"
      "ib_getTXTRecord S w om z = (e7, w7) \<Longrightarrow> keep_all V w w7"
      "ib_createTXTRecord S w om z ts ttl vw = (e8, w8) \<Longrightarrow> keep_all V w w8"
      "ib_updateTXTRecord S w om z ts = (e9, w9) \<Longrightarrow> keep_all V w w9"
      "ib_deleteTXTRecord S w om z = (e10, w10) \<Longrightarrow> keep_all V w w10"
    and set_annotation: "l_setMetaDataAnnotation S m k v =
      m\<lparr>om_annotations := Some (m_set k v (case om_annotations m of None \<Rightarrow> [] | Some a \<Rightarrow> a))\<rparr>"
    and set_owner: "l_setControllerReference S owner m = Inr m' \<Longrightarrow>
      \<exists>refs. m' = m\<lparr>om_ownerReferences := refs\<rparr>"

lemma keep_all_refl [simp, intro]: "keep_all V w w"
  by (simp add: keep_defs)

lemma keep_all_trans: "keep_all V w w' \<Longrightarrow> keep_all V w' w'' \<Longrightarrow> keep_all V w w''"
  by (simp add: keep_defs)

lemma keep_trans:
  "keep_gslb V w w' \<Longrightarrow> keep_gslb V w' w'' \<Longrightarrow> keep_gslb V w w''"
  "keep_ingress V w w' \<Longrightarrow> keep_ingress V w' w'' \<Longrightarrow> keep_ingress V w w''"
  "keep_dns V w w' \<Longrightarrow> keep_dns V w' w'' \<Longrightarrow> keep_dns V w w''"
  "keep_work V w w' \<Longrightarrow> keep_work V w' w'' \<Longrightarrow> keep_work V w w''"
  by (simp_all add: keep_defs)

lemma keep_allD:
  assumes "keep_all V w w'"
  shows "keep_gslb V w w'" "keep_ingress V w w'" "keep_dns V w w'" "keep_work V w w'"
  using assms by (simp_all add: keep_all_def)

lemma readsD:
  assumes "reads V rd v" and "rd w k = (r, w')"
  shows "keep_all V w w'" "r = Inr x \<Longrightarrow> v w k = Some x" "r = Inl e \<Longrightarrow> isNotFound e \<Longrightarrow> v w k = None"
  using assms unfolding reads_def by blast+

section \<open>An in-memory platform\<close>

record store =
  s_gslb :: "(namespaced_name \<times> Gslb) list"
  s_ingress :: "(namespaced_name \<times> ingress) list"
  s_dns :: "(namespaced_name \<times> dns_endpoint) list"
  s_service :: "(namespaced_name \<times> service) list"
  s_endpoints :: "(namespaced_name \<times> endpoints) list"
  s_gauges :: "((string \<times> string list) \<times> nat) list"
  s_zones :: "zone_delegated list"
  s_txt :: "(string \<times> string) list"
  s_calls :: nat
  s_time :: int
  s_refused :: "ingress list"

definition empty_store :: store where
  "empty_store = \<lparr>s_gslb = [], s_ingress = [], s_dns = [], s_service = [], s_endpoints = [],
     s_gauges = [], s_zones = [], s_txt = [], s_calls = 0, s_time = 0, s_refused = []\<rparr>"

text \<open>The n-th call fails when the fault schedule says so; a fault is never a false NotFound.\<close>

type_synonym faults = "nat \<Rightarrow> goerr option"

definition fault_at :: "faults \<Rightarrow> store \<Rightarrow> goerr option" where
  "fault_at f w = (case f (s_calls w) of
     None \<Rightarrow> None | Some (NotFound s) \<Rightarrow> Some (ExtError s) | Some e \<Rightarrow> Some e)"

definition tick :: "store \<Rightarrow> store" where
  "tick w = w\<lparr>s_calls := Suc (s_calls w)\<rparr>"

definition mem_get :: "faults \<Rightarrow> (store \<Rightarrow> (namespaced_name \<times> 'a) list) \<Rightarrow> ('a \<Rightarrow> namespaced_name \<Rightarrow> bool)
    \<Rightarrow> store \<Rightarrow> namespaced_name \<Rightarrow> (goerr + 'a) \<times> store" where
  "mem_get f sel named w k =
     ((case fault_at f w of Some e \<Rightarrow> Inl e
       | None \<Rightarrow> (case map_of (sel w) k of None \<Rightarrow> Inl (NotFound (snd k))
           | Some x \<Rightarrow> if named x k then Inr x else Inl (ExtError ''bad key''))), tick w)"

definition named_gslb :: "Gslb \<Rightarrow> namespaced_name \<Rightarrow> bool" where "named_gslb g k = (meta_key (g_meta g) = k)"
definition named_ingress :: "ingress \<Rightarrow> namespaced_name \<Rightarrow> bool" where "named_ingress i k = (meta_key (ing_meta i) = k)"
definition named_dns :: "dns_endpoint \<Rightarrow> namespaced_name \<Rightarrow> bool" where "named_dns d k = (meta_key (de_meta d) = k)"

lemmas named_defs = named_gslb_def named_ingress_def named_dns_def

definition mem_write :: "faults \<Rightarrow> (store \<Rightarrow> store) \<Rightarrow> store \<Rightarrow> goerr option \<times> store" where
  "mem_write f upd w = (case fault_at f w of Some e \<Rightarrow> (Some e, tick w) | None \<Rightarrow> (None, upd (tick w)))"

text \<open>A conflict is written down.\<close>

definition mem_updateIngress :: "faults \<Rightarrow> store \<Rightarrow> ingress \<Rightarrow> goerr option \<times> store" where
  "mem_updateIngress f w i =
     (case fault_at f w of
        Some e \<Rightarrow> (Some e, (tick w)\<lparr>s_refused := s_refused w @ (if isConflict e then [i] else [])\<rparr>)
      | None \<Rightarrow> (None, (tick w)\<lparr>s_ingress := AList.update (meta_key (ing_meta i)) i (s_ingress w)\<rparr>))"

definition mem_updateGslb :: "faults \<Rightarrow> store \<Rightarrow> Gslb \<Rightarrow> (goerr + Gslb) \<times> store" where
  "mem_updateGslb f w g =
     (case fault_at f w of Some e \<Rightarrow> (Inl e, tick w)
      | None \<Rightarrow> (Inr g, (case stored_gslb g of
          None \<Rightarrow> (tick w)\<lparr>s_gslb := AList.delete (meta_key (g_meta g)) (s_gslb w)\<rparr>
        | Some g' \<Rightarrow> (tick w)\<lparr>s_gslb := AList.update (meta_key (g_meta g)) g' (s_gslb w)\<rparr>)))"

definition mem_listGslb :: "faults \<Rightarrow> store \<Rightarrow> string \<Rightarrow> (goerr + Gslb list) \<times> store" where
  "mem_listGslb f w n =
     ((case fault_at f w of Some e \<Rightarrow> Inl e
       | None \<Rightarrow> Inr (map snd (filter (\<lambda>(k, g). fst k = n \<and> named_gslb g k \<and> map_of (s_gslb w) k = Some g) (s_gslb w)))),
      tick w)"

definition mem_createGslb :: "faults \<Rightarrow> store \<Rightarrow> Gslb \<Rightarrow> goerr option \<times> store" where
  "mem_createGslb f w g =
     (if map_of (s_gslb w) (meta_key (g_meta g)) \<noteq> None then (Some (ExtError ''already exists''), tick w)
      else mem_write f (\<lambda>w. w\<lparr>s_gslb := AList.update (meta_key (g_meta g)) g (s_gslb w)\<rparr>) w)"

definition put_status :: "Gslb \<Rightarrow> store \<Rightarrow> store" where
  "put_status g w = w\<lparr>s_gslb := map (\<lambda>(k, x).
     (k, if k = meta_key (g_meta g) then x\<lparr>g_status := g_status g\<rparr> else x)) (s_gslb w)\<rparr>"

definition put_zone :: "zone_delegated \<Rightarrow> store \<Rightarrow> store" where
  "put_zone z w = w\<lparr>s_zones := z # filter (\<lambda>y. zd_ref y \<noteq> zd_ref z) (s_zones w)\<rparr>"

definition find_zone :: "store \<Rightarrow> string \<Rightarrow> zone_delegated option" where
  "find_zone w z = find (\<lambda>y. zd_fqdn y = z \<and> zd_ref y \<noteq> []) (s_zones w)"

definition txt_key :: "string \<Rightarrow> string" where "txt_key n = ''record:txt/'' @ n"

definition drop_txt :: "string \<Rightarrow> store \<Rightarrow> store" where
  "drop_txt r w = w\<lparr>s_txt := filter (\<lambda>(n, _). txt_key n \<noteq> r) (s_txt w)\<rparr>"

definition drop_zone :: "string \<Rightarrow> store \<Rightarrow> store" where
  "drop_zone r w = w\<lparr>s_zones := filter (\<lambda>y. \<not> list_ex (\<lambda>x. zd_ref x = r \<and> zd_fqdn x = zd_fqdn y) (s_zones w)) (s_zones w)\<rparr>"

definition mem_annotate :: "object_meta \<Rightarrow> string \<Rightarrow> string \<Rightarrow> object_meta" where
  "mem_annotate m k v =
     m\<lparr>om_annotations := Some (m_set k v (case om_annotations m of None \<Rightarrow> [] | Some a \<Rightarrow> a))\<rparr>"

text \<open>The answers of the network are arguments: DNS exchange and dig.\<close>

definition mem_sys ::
    "faults \<Rightarrow> (string \<Rightarrow> qtype \<Rightarrow> string \<Rightarrow> goerr + dns_msg) \<Rightarrow> (string \<Rightarrow> string \<Rightarrow> goerr + string list)
       \<Rightarrow> store sys" where
  "mem_sys f net dig =
     \<lparr>c_getGslb = mem_get f s_gslb named_gslb,
      c_listGslb = mem_listGslb f,
      c_createGslb = mem_createGslb f,
      c_updateGslb = mem_updateGslb f,
      c_updateGslbStatus = (\<lambda>w g. mem_write f (put_status g) w),
      c_getIngress = mem_get f s_ingress named_ingress,
      c_createIngress = (\<lambda>w i. mem_write f (\<lambda>w. w\<lparr>s_ingress := AList.update (meta_key (ing_meta i)) i (s_ingress w)\<rparr>) w),
      c_updateIngress = mem_updateIngress f,
      c_getDNSEndpoint = mem_get f s_dns named_dns,
      c_createDNSEndpoint = (\<lambda>w d. mem_write f (\<lambda>w. w\<lparr>s_dns := AList.update (meta_key (de_meta d)) d (s_dns w)\<rparr>) w),
      c_updateDNSEndpoint = (\<lambda>w d. mem_write f (\<lambda>w. w\<lparr>s_dns := AList.update (meta_key (de_meta d)) d (s_dns w)\<rparr>) w),
      c_deleteDNSEndpoint = (\<lambda>w d. mem_write f (\<lambda>w. w\<lparr>s_dns := AList.delete (meta_key (de_meta d)) (s_dns w)\<rparr>) w),
      c_getService = mem_get f s_service (\<lambda>_ _. True),
      c_getEndpoints = mem_get f s_endpoints (\<lambda>_ _. True),
      n_exchange = (\<lambda>w q t s. (net q t s, w)),
      n_digSetDNS = (\<lambda>w s. (None, w)),
      n_digA = (\<lambda>w s q. (dig s q, w)),
      n_now = (\<lambda>w. (s_time w, w)),
      n_gaugeSet = (\<lambda>w m ls v. w\<lparr>s_gauges := AList.update (m, ls) v (s_gauges w)\<rparr>),
      ib_newConnector = (\<lambda>w hc a b. mem_write f (\<lambda>w. w) w),
      ib_logout = (\<lambda>w. (None, w)),
      ib_getZoneDelegated = (\<lambda>w m z. ((case fault_at f w of Some e \<Rightarrow> Inl e
         | None \<Rightarrow> Inr (find_zone w z)), tick w)),
      ib_createZoneDelegated = (\<lambda>w m z ns.
         mem_write f (put_zone \<lparr>zd_ref = ''zone_delegated/'' @ z, zd_fqdn = z, zd_delegateTo = ns\<rparr>) w),
      ib_updateZoneDelegated = (\<lambda>w m r ns. mem_write f (\<lambda>w. w\<lparr>s_zones := map (\<lambda>y.
         if zd_ref y = r then y\<lparr>zd_delegateTo := ns\<rparr> else y) (s_zones w)\<rparr>) w),
      ib_deleteZoneDelegated = (\<lambda>w m r. mem_write f (drop_zone r) w),
      ib_getTXTRecord = (\<lambda>w m n. ((case fault_at f w of Some e \<Rightarrow> Inl e
         | None \<Rightarrow> Inr (if map_of (s_txt w) n = None then None else Some (txt_key n))), tick w)),
      ib_createTXTRecord = (\<lambda>w m n t ttl vw. mem_write f (\<lambda>w. w\<lparr>s_txt := AList.update n t (s_txt w)\<rparr>) w),
      ib_updateTXTRecord = (\<lambda>w m n t. mem_write f (\<lambda>w. w\<lparr>s_txt := AList.update n t (s_txt w)\<rparr>) w),
      ib_deleteTXTRecord = (\<lambda>w m r. mem_write f (drop_txt r) w),
      l_dnsFqdn = (\<lambda>s. if hasSuffix ''.'' s then s else s @ ''.''),
      l_setMetaDataAnnotation = mem_annotate,
      l_setControllerReference = (\<lambda>owner m. Inr (m\<lparr>om_ownerReferences := [om_name owner]\<rparr>))\<rparr>"

definition mem_view :: "store view" where
  "mem_view = \<lparr>v_gslb = (\<lambda>w. map_of (s_gslb w)), v_ingress = (\<lambda>w. map_of (s_ingress w)),
     v_dns = (\<lambda>w. map_of (s_dns w)), v_service = (\<lambda>w. map_of (s_service w)),
     v_endpoints = (\<lambda>w. map_of (s_endpoints w)), v_refused = s_refused\<rparr>"

lemma mem_sys_sel [simp]:
  "c_getGslb (mem_sys f net dig) = mem_get f s_gslb named_gslb"
  "c_listGslb (mem_sys f net dig) = mem_listGslb f" "c_createGslb (mem_sys f net dig) = mem_createGslb f"
  "c_updateGslb (mem_sys f net dig) = mem_updateGslb f"
  "c_updateGslbStatus (mem_sys f net dig) = (\<lambda>w g. mem_write f (put_status g) w)"
  "c_getIngress (mem_sys f net dig) = mem_get f s_ingress named_ingress"
  "c_createIngress (mem_sys f net dig) = (\<lambda>w i. mem_write f (\<lambda>w. w\<lparr>s_ingress := AList.update (meta_key (ing_meta i)) i (s_ingress w)\<rparr>) w)"
  "c_updateIngress (mem_sys f net dig) = mem_updateIngress f"
  "c_getDNSEndpoint (mem_sys f net dig) = mem_get f s_dns named_dns"
  "c_createDNSEndpoint (mem_sys f net dig) = (\<lambda>w d. mem_write f (\<lambda>w. w\<lparr>s_dns := AList.update (meta_key (de_meta d)) d (s_dns w)\<rparr>) w)"
  "c_updateDNSEndpoint (mem_sys f net dig) = (\<lambda>w d. mem_write f (\<lambda>w. w\<lparr>s_dns := AList.update (meta_key (de_meta d)) d (s_dns w)\<rparr>) w)"
  "c_deleteDNSEndpoint (mem_sys f net dig) = (\<lambda>w d. mem_write f (\<lambda>w. w\<lparr>s_dns := AList.delete (meta_key (de_meta d)) (s_dns w)\<rparr>) w)"
  "c_getService (mem_sys f net dig) = mem_get f s_service (\<lambda>_ _. True)"
  "c_getEndpoints (mem_sys f net dig) = mem_get f s_endpoints (\<lambda>_ _. True)"
  "n_exchange (mem_sys f net dig) = (\<lambda>w q t s. (net q t s, w))"
  "n_digSetDNS (mem_sys f net dig) = (\<lambda>w s. (None, w))"
  "n_digA (mem_sys f net dig) = (\<lambda>w s q. (dig s q, w))"
  "n_now (mem_sys f net dig) = (\<lambda>w. (s_time w, w))"
  "n_gaugeSet (mem_sys f net dig) = (\<lambda>w m ls v. w\<lparr>s_gauges := AList.update (m, ls) v (s_gauges w)\<rparr>)"
  "ib_newConnector (mem_sys f net dig) = (\<lambda>w hc a b. mem_write f (\<lambda>w. w) w)"
  "ib_logout (mem_sys f net dig) = (\<lambda>w. (None, w))"
  "ib_getZoneDelegated (mem_sys f net dig) = (\<lambda>w m z. ((case fault_at f w of Some e \<Rightarrow> Inl e | None \<Rightarrow> Inr (find_zone w z)), tick w))"
  "ib_createZoneDelegated (mem_sys f net dig) = (\<lambda>w m z ns. mem_write f (put_zone \<lparr>zd_ref = ''zone_delegated/'' @ z, zd_fqdn = z, zd_delegateTo = ns\<rparr>) w)"
  "ib_updateZoneDelegated (mem_sys f net dig) = (\<lambda>w m r ns. mem_write f (\<lambda>w. w\<lparr>s_zones := map (\<lambda>y. if zd_ref y = r then y\<lparr>zd_delegateTo := ns\<rparr> else y) (s_zones w)\<rparr>) w)"
  "ib_deleteZoneDelegated (mem_sys f net dig) = (\<lambda>w m r. mem_write f (drop_zone r) w)"
  "ib_getTXTRecord (mem_sys f net dig) = (\<lambda>w m n. ((case fault_at f w of Some e \<Rightarrow> Inl e | None \<Rightarrow> Inr (if map_of (s_txt w) n = None then None else Some (txt_key n))), tick w))"
  "ib_createTXTRecord (mem_sys f net dig) = (\<lambda>w m n t ttl vw. mem_write f (\<lambda>w. w\<lparr>s_txt := AList.update n t (s_txt w)\<rparr>) w)"
  "ib_updateTXTRecord (mem_sys f net dig) = (\<lambda>w m n t. mem_write f (\<lambda>w. w\<lparr>s_txt := AList.update n t (s_txt w)\<rparr>) w)"
  "ib_deleteTXTRecord (mem_sys f net dig) = (\<lambda>w m r. mem_write f (drop_txt r) w)"
  "l_dnsFqdn (mem_sys f net dig) = (\<lambda>s. if hasSuffix ''.'' s then s else s @ ''.'')"
  "l_setMetaDataAnnotation (mem_sys f net dig) = mem_annotate"
  "l_setControllerReference (mem_sys f net dig) = (\<lambda>owner m. Inr (m\<lparr>om_ownerReferences := [om_name owner]\<rparr>))"
  by (simp_all add: mem_sys_def)

lemma mem_view_sel [simp]:
  "v_gslb mem_view = (\<lambda>w. map_of (s_gslb w))" "v_ingress mem_view = (\<lambda>w. map_of (s_ingress w))"
  "v_dns mem_view = (\<lambda>w. map_of (s_dns w))" "v_service mem_view = (\<lambda>w. map_of (s_service w))"
  "v_endpoints mem_view = (\<lambda>w. map_of (s_endpoints w))" "v_refused mem_view = s_refused"
  by (simp_all add: mem_view_def)

lemma fault_at_not_NotFound: "fault_at f w = Some e \<Longrightarrow> \<not> isNotFound e"
  by (auto simp: fault_at_def isNotFound_iff split: option.splits goerr.splits)

lemma tick_fields [simp]:
  "s_gslb (tick w) = s_gslb w" "s_ingress (tick w) = s_ingress w" "s_dns (tick w) = s_dns w"
  "s_service (tick w) = s_service w" "s_endpoints (tick w) = s_endpoints w"
  "s_zones (tick w) = s_zones w" "s_txt (tick w) = s_txt w" "s_time (tick w) = s_time w"
  "s_refused (tick w) = s_refused w"
  by (simp_all add: tick_def)

lemma mem_reads:
  assumes "\<And>w. v w = map_of (sel w)"
  shows "reads mem_view (mem_get f sel named) v"
  unfolding reads_def
  by (auto simp: mem_get_def mem_view_def keep_defs assms dest: fault_at_not_NotFound split: option.splits if_splits)

lemma mem_get_named: "mem_get f sel named w k = (Inr x, w') \<Longrightarrow> named x k"
  by (auto simp: mem_get_def split: option.splits if_splits)

lemma map_of_status:
  "map_option g_meta (map_of (map (\<lambda>(k, x). (k, if k = a then x\<lparr>g_status := s\<rparr> else x)) xs) k) =
     map_option g_meta (map_of xs k)"
  by (induction xs) auto

lemma map_of_put_status:
  "map_of xs a = Some x \<Longrightarrow>
     map_of (map (\<lambda>(k, y). (k, if k = a then y\<lparr>g_status := s\<rparr> else y)) xs) a = Some (x\<lparr>g_status := s\<rparr>)"
  by (induction xs) (auto split: if_splits)

lemma mem_list_set:
  "snd ` set (filter (\<lambda>(k, g). fst k = n \<and> named_gslb g k \<and> map_of xs k = Some g) xs) =
     {g. map_of xs (meta_key (g_meta g)) = Some g \<and> g_namespace g = n}"
  by (force simp: named_gslb_def meta_key_def g_namespace_def image_iff dest: map_of_SomeD)

interpretation mem: kube_api "mem_sys f net dig" mem_view
proof (unfold_locales, goal_cases)
  case (9 w g g' w')
  then show ?case
    by (auto simp: mem_updateGslb_def stored_gslb_def update_conv' delete_conv' split: option.splits if_splits)
next
  case (10 w g rg w')
  then show ?case by (auto simp: mem_updateGslb_def keep_defs split: option.splits)
next
  case (11 w g e w')
  then show ?case by (auto simp: mem_updateGslb_def split: option.splits)
next
  case (12 w n rl w')
  then have w': "w' = tick w" and rl: "rl = fst (mem_listGslb f w n)" by (auto simp: mem_listGslb_def)
  from mem_list_set [of n "s_gslb w"] show ?case
    by (simp add: w' rl mem_listGslb_def keep_defs del: set_filter split: option.splits)
next
  case (13 w g rn w')
  then show ?case
    by (auto simp: mem_createGslb_def mem_write_def keep_defs update_conv' split: option.splits if_splits)
next
  case (14 w g r w')
  then show ?case
    by (auto simp: keep_defs put_status_def mem_write_def map_of_status split: option.splits)
next
  case (15 w g w' x)
  then show ?case by (auto simp: put_status_def mem_write_def map_of_put_status split: option.splits)
qed (auto simp: keep_defs put_zone_def drop_zone_def drop_txt_def mem_annotate_def named_defs [symmetric] mem_write_def mem_updateIngress_def update_conv' delete_conv'
    intro!: mem_reads dest: mem_get_named split: option.splits)

end
