(* ===== verification/Utils.thy ===== *)
theory Utils
  imports Platform
begin

text \<open>
  \<^verbatim>\<open>controllers/internal/utils\<close>: merging annotations, the reconcile result handler and \<^verbatim>\<open>Dig\<close>.
  (The fake DNS server and the YAML reader of that package serve the tests only.)
\<close>

section \<open>Annotations\<close>

definition MergeAnnotations ::
    "range_order \<Rightarrow> string gomap option \<Rightarrow> string gomap option \<Rightarrow> string gomap option" where
  "MergeAnnotations ord target source =
     (let target = (case target of None \<Rightarrow> [] | Some t \<Rightarrow> t);
          source = (case source of None \<Rightarrow> [] | Some s \<Rightarrow> s)
      in Some (fold (\<lambda>(k, v) t. if m_get t k \<noteq> v then m_set k v t else t) (ord source) target))"

section \<open>Reconcile results\<close>

text \<open>\<^verbatim>\<open>ctrl.Result\<close>; durations are nanoseconds.\<close>

record ctrl_result =
  cr_requeue :: bool
  cr_requeueAfter :: int

definition no_result :: ctrl_result where
  "no_result = \<lparr>cr_requeue = False, cr_requeueAfter = 0\<rparr>"

definition second :: int where "second = 1000000000"

record ReconcileResultHandler =
  rr_delayedResult :: ctrl_result

definition NewReconcileResultHandler :: "int \<Rightarrow> ReconcileResultHandler" where
  "NewReconcileResultHandler reconcileAfter =
     \<lparr>rr_delayedResult = no_result\<lparr>cr_requeueAfter := int64 (second * reconcileAfter)\<rparr>\<rparr>"

type_synonym reconcile_return = "ctrl_result \<times> goerr option"

definition Stop :: "ReconcileResultHandler \<Rightarrow> reconcile_return" where
  "Stop r = (no_result, None)"

definition RequeueError :: "ReconcileResultHandler \<Rightarrow> goerr \<Rightarrow> reconcile_return" where
  "RequeueError r err = (no_result, Some err)"

definition Requeue :: "ReconcileResultHandler \<Rightarrow> reconcile_return" where
  "Requeue r = (rr_delayedResult r, None)"

definition RequeueNow :: "ReconcileResultHandler \<Rightarrow> reconcile_return" where
  "RequeueNow r = (no_result\<lparr>cr_requeue := True\<rparr>, None)"

section \<open>Dig\<close>

definition Dig :: "'w sys \<Rightarrow> 'w \<Rightarrow> string \<Rightarrow> string \<Rightarrow> (goerr + string list) \<times> 'w" where
  "Dig S w edgeDNSServer fqdn =
     (if edgeDNSServer = [] then (Inl (Errorf ''empty edgeDNSServer'' []), w)
      else case n_digSetDNS S w edgeDNSServer of
        (Some err, w) \<Rightarrow>
          (Inl (Errorf ''dig error: can't set query dns (%s) with error(%s)'' [edgeDNSServer, err_text err]), w)
      | (None, w) \<Rightarrow>
          (case n_digA S w edgeDNSServer fqdn of
             (Inl err, w) \<Rightarrow>
               (Inl (Errorf ''dig error: can't dig fqdn(%s) with error(%s)'' [fqdn, err_text err]), w)
           | (Inr a, w) \<Rightarrow> (Inr (sort a), w)))"

section \<open>Lemmas\<close>

lemma int64_mod: "int64 i mod 2 ^ 64 = i mod 2 ^ 64"
proof -
  have "int64 i = signed_take_bit 63 i" by (simp add: int64_def sint_sbintrunc')
  then have "take_bit 64 (int64 i) = take_bit 64 i" by (simp add: take_bit_signed_take_bit)
  then show ?thesis by (simp only: take_bit_eq_mod)
qed

lemma merge_fold:
  "gomap_ok s \<Longrightarrow>
     m_get (fold (\<lambda>(k, v) t. if m_get t k \<noteq> v then m_set k v t else t) s t) k' =
       (case map_of s k' of None \<Rightarrow> m_get t k' | Some v \<Rightarrow> v)"
proof (induction s arbitrary: t)
  case (Cons a s)
  obtain k v where a: "a = (k, v)" by (cases a)
  from Cons.prems have s: "gomap_ok s" and k: "map_of s k = None"
    by (auto simp: gomap_ok_def a map_of_eq_None_iff)
  show ?case using k by (auto simp: a Cons.IH [OF s] split: option.split)
qed simp

lemma merge_fold_ok:
  "gomap_ok t \<Longrightarrow> gomap_ok (fold (\<lambda>(k, v) t. if m_get t k \<noteq> v then m_set k v t else t) s t)"
  by (induction s arbitrary: t) auto

lemma map_of_range: "range_ok ord \<Longrightarrow> gomap_ok m \<Longrightarrow> map_of (ord m) = map_of m"
proof
  fix k
  assume o: "range_ok ord" and m: "gomap_ok m"
  have "map_of (ord m) k = Some v \<longleftrightarrow> map_of m k = Some v" for v
    using gomap_ok_map_of [OF range_ok_distinct [OF o m]] gomap_ok_map_of [OF m]
    by (simp add: range_ok_set [OF o])
  then show "map_of (ord m) k = map_of m k"
    by (metis option.exhaust)
qed

lemma Dig_keep:
  assumes "kube_api S V" and "Dig S w e f = (r, w')"
  shows "keep_all V w w'"
proof -
  note net = kube_api.net_frame [OF assms(1)]
  show ?thesis
    using assms(2) net(2) [of w e] net(3) [of _ e f]
    by (auto simp: Dig_def split: if_splits prod.splits option.splits sum.splits
        intro: keep_all_trans)
qed

text \<open>
  Merging annotations overrides the target with every annotation of the source and keeps
  the target's other annotations, in whatever order the source is visited; a nil map counts as
  an empty one, and the result is never nil.
\<close>

lemma MergeAnnotations_lookup:
  assumes "range_ok ord" and "gomap_ok (case source of None \<Rightarrow> [] | Some s \<Rightarrow> s)"
  shows "\<exists>m. MergeAnnotations ord target source = Some m \<and>
    (\<forall>k. m_get m k = (case map_of (case source of None \<Rightarrow> [] | Some s \<Rightarrow> s) k of
       Some v \<Rightarrow> v | None \<Rightarrow> m_get (case target of None \<Rightarrow> [] | Some t \<Rightarrow> t) k))"
  using merge_fold [OF range_ok_distinct [OF assms]] map_of_range [OF assms]
  by (simp add: MergeAnnotations_def)

section \<open>Properties\<close>

text \<open>
  C34. The delay after which a Gslb is reconciled again, for any configured period. It is the period in
  nanoseconds wrapped around to 64 bits: congruent to the product modulo 2^64 and within the
  range of a duration. So it is exact just for the settings up to 9223372036 seconds (of either
  sign), is shorter than the setting for every larger one, and is negative for 9223372037 seconds.
\<close>

theorem requeue_delay:
  "\<exists>d. Requeue (NewReconcileResultHandler n) = (no_result\<lparr>cr_requeueAfter := d\<rparr>, None) \<and>
     d mod 2 ^ 64 = n * 1000000000 mod 2 ^ 64 \<and> - (2 ^ 63) \<le> d \<and> d < 2 ^ 63 \<and>
     (d = n * 1000000000 \<longleftrightarrow> - 9223372036 \<le> n \<and> n \<le> 9223372036) \<and>
     (n > 9223372036 \<longrightarrow> d < n * 1000000000) \<and> (n = 9223372037 \<longrightarrow> d < 0)"
proof (intro exI conjI)
  let ?d = "int64 (second * n)"
  show "Requeue (NewReconcileResultHandler n) = (no_result\<lparr>cr_requeueAfter := ?d\<rparr>, None)"
    by (simp add: Requeue_def NewReconcileResultHandler_def)
  show m: "?d mod 2 ^ 64 = n * 1000000000 mod 2 ^ 64" unfolding int64_mod by (simp add: second_def mult.commute)
  show r: "- (2 ^ 63) \<le> ?d" "?d < 2 ^ 63" using int64_range [of "second * n"] by (simp_all add: min_int64_def max_int64_def)
  show "?d = n * 1000000000 \<longleftrightarrow> - 9223372036 \<le> n \<and> n \<le> 9223372036"
  proof
    assume "- 9223372036 \<le> n \<and> n \<le> 9223372036"
    then show "?d = n * 1000000000" by (subst int64_id) (simp_all add: second_def min_int64_def max_int64_def)
  qed (use r in simp)
  show "n > 9223372036 \<longrightarrow> ?d < n * 1000000000" using r by simp
  show "n = 9223372037 \<longrightarrow> ?d < 0" by (simp add: int64_def second_def signed_take_bit_int_eq_self)
qed

theorem requeue_delay_witness:
  "Requeue (NewReconcileResultHandler 30) = (no_result\<lparr>cr_requeueAfter := 30000000000\<rparr>, None)"
  using requeue_delay [of 30] by auto

end
