(* ===== verification/Go_Time.thy ===== *)
theory Go_Time
  imports Prelude
begin

text \<open>
  The part of Go's package \<^verbatim>\<open>time\<close> behind the split brain heartbeat: formatting and parsing with
  the layout \<^verbatim>\<open>2006-01-02T15:04:05\<close> and the difference of two instants.

  An instant is the number of nanoseconds since the year 0 in UTC, in the proleptic Gregorian
  calendar Go uses. \<open>parseTimestamp\<close> follows \<^verbatim>\<open>time.Parse\<close> of Go 1.15 for this layout: a
  four-digit year, two-digit month, day, minute and second, an hour of one or two digits, and a
  fraction of a second that is accepted although the layout has none.
\<close>

section \<open>Calendar\<close>

definition leap :: "nat \<Rightarrow> bool" where
  "leap y \<longleftrightarrow> y mod 4 = 0 \<and> (y mod 100 \<noteq> 0 \<or> y mod 400 = 0)"

definition year_length :: "nat \<Rightarrow> nat" where
  "year_length y = (if leap y then 366 else 365)"

fun days_before_year :: "nat \<Rightarrow> nat" where
  "days_before_year 0 = 0"
| "days_before_year (Suc y) = days_before_year y + year_length y"

text \<open>The same number in closed form, for evaluation.\<close>

definition days_closed :: "nat \<Rightarrow> nat" where
  "days_closed y = 365 * y + (y + 3) div 4 - (y + 99) div 100 + (y + 399) div 400"

definition month_lengths :: "nat \<Rightarrow> nat list" where
  "month_lengths y = [31, if leap y then 29 else 28, 31, 30, 31, 30, 31, 31, 30, 31, 30, 31]"

definition days_in :: "nat \<Rightarrow> nat \<Rightarrow> nat" where
  "days_in y m = month_lengths y ! (m - 1)"

definition day_number :: "nat \<Rightarrow> nat \<Rightarrow> nat \<Rightarrow> nat" where
  "day_number y m d = days_closed y + sum_list (take (m - 1) (month_lengths y)) + (d - 1)"

text \<open>The year of a day: the greatest year that does not start after it.\<close>

fun year_down :: "nat \<Rightarrow> nat \<Rightarrow> nat" where
  "year_down n 0 = 0"
| "year_down n (Suc y) = (if days_closed (Suc y) \<le> n then Suc y else year_down n y)"

definition year_of_day :: "nat \<Rightarrow> nat" where
  "year_of_day n = year_down n (n div 365)"

text \<open>Walk over the month lengths: the index of the month and the day in it.\<close>

fun month_walk :: "nat list \<Rightarrow> nat \<Rightarrow> nat \<times> nat" where
  "month_walk [] k = (0, k)"
| "month_walk (l # ls) k =
     (if k < l then (0, k) else let (m, d) = month_walk ls (k - l) in (Suc m, d))"

section \<open>Formatting\<close>

definition pad :: "nat \<Rightarrow> string \<Rightarrow> string" where
  "pad n s = replicate (n - length s) (CHR ''0'') @ s"

definition ns_per_second :: int where "ns_per_second = 1000000000"

text \<open>\<^verbatim>\<open>t.UTC().Format("2006-01-02T15:04:05")\<close>, for an instant not before the year 0.\<close>

definition formatTimestamp :: "int \<Rightarrow> string" where
  "formatTimestamp t =
     (let s = nat (t div ns_per_second);
          n = s div 86400; r = s mod 86400;
          y = year_of_day n;
          (m, d) = month_walk (month_lengths y) (n - days_closed y)
      in pad 4 (show_nat y) @ ''-'' @ pad 2 (show_nat (m + 1)) @ ''-'' @ pad 2 (show_nat (d + 1))
         @ ''T'' @ pad 2 (show_nat (r div 3600)) @ '':'' @ pad 2 (show_nat (r div 60 mod 60))
         @ '':'' @ pad 2 (show_nat (r mod 60)))"

section \<open>Parsing\<close>

type_synonym 'a parser = "string \<Rightarrow> ('a \<times> string) option"

fun year4 :: "nat parser" where
  "year4 (a # b # c # d # s) =
     (if list_all is_digit [a, b, c, d] then Some (digits_val 0 [a, b, c, d], s) else None)"
| "year4 s = None"

text \<open>\<^verbatim>\<open>getnum(s, fixed)\<close>\<close>

fun getnum :: "bool \<Rightarrow> nat parser" where
  "getnum fixed (a # b # s) =
     (if \<not> is_digit a then None
      else if is_digit b then Some (digits_val 0 [a, b], s)
      else if fixed then None else Some (digit_val a, b # s))"
| "getnum fixed [a] = (if is_digit a \<and> \<not> fixed then Some (digit_val a, []) else None)"
| "getnum fixed [] = None"

fun literal :: "char \<Rightarrow> string \<Rightarrow> string option" where
  "literal c (x # s) = (if x = c then Some s else None)"
| "literal c [] = None"

text \<open>The fraction: a dot and at least one digit, below a second when read in nanoseconds.\<close>

definition fraction :: "int parser" where
  "fraction s =
     (case s of
        c # d # t \<Rightarrow>
          if c = CHR ''.'' \<and> is_digit d
          then let ds = takeWhile is_digit (d # t); v = digits_val 0 ds
               in if v < 1000000000 \<and> length ds \<le> 9
                  then Some (int (v * 10 ^ (9 - length ds)), dropWhile is_digit (d # t))
                  else None
          else Some (0, s)
      | _ \<Rightarrow> Some (0, s))"

definition parse_error :: "'a option \<Rightarrow> goerr + 'a" where
  "parse_error r = (case r of None \<Rightarrow> Inl (ExtError ''parsing time'') | Some x \<Rightarrow> Inr x)"

definition parse_fields :: "string \<Rightarrow> ((nat \<times> nat \<times> nat) \<times> (nat \<times> nat \<times> nat) \<times> int) option" where
  "parse_fields s0 =
     Option.bind (year4 s0) (\<lambda>(y, s1).
     Option.bind (literal (CHR ''-'') s1) (\<lambda>s2.
     Option.bind (getnum True s2) (\<lambda>(mo, s3).
     if mo = 0 \<or> 12 < mo then None else
     Option.bind (literal (CHR ''-'') s3) (\<lambda>s4.
     Option.bind (getnum True s4) (\<lambda>(d, s5).
     Option.bind (literal (CHR ''T'') s5) (\<lambda>s6.
     Option.bind (getnum False s6) (\<lambda>(h, s7).
     if 24 \<le> h then None else
     Option.bind (literal (CHR '':'') s7) (\<lambda>s8.
     Option.bind (getnum True s8) (\<lambda>(mi, s9).
     if 60 \<le> mi then None else
     Option.bind (literal (CHR '':'') s9) (\<lambda>s10.
     Option.bind (getnum True s10) (\<lambda>(se, s11).
     if 60 \<le> se then None else
     Option.bind (fraction s11) (\<lambda>(ns, s12).
     if s12 \<noteq> [] \<or> d < 1 \<or> days_in y mo < d then None
     else Some ((y, mo, d), (h, mi, se), ns)))))))))))))"

definition instant :: "nat \<Rightarrow> nat \<Rightarrow> nat \<Rightarrow> nat \<Rightarrow> nat \<Rightarrow> nat \<Rightarrow> int" where
  "instant y mo d h mi se =
     int (day_number y mo d * 86400 + h * 3600 + mi * 60 + se) * ns_per_second"

definition parseTimestamp :: "string \<Rightarrow> goerr + int" where
  "parseTimestamp s = parse_error (map_option
     (\<lambda>((y, mo, d), (h, mi, se), ns). instant y mo d h mi se + ns) (parse_fields s))"

text \<open>\<^verbatim>\<open>t.Sub(u)\<close>: a difference out of the range of a duration is cut to the nearest bound.\<close>

definition time_Sub :: "int \<Rightarrow> int \<Rightarrow> int" where
  "time_Sub t u = max min_int64 (min max_int64 (t - u))"

text \<open>
  \<^verbatim>\<open>d.String()\<close>: below a second the unit is chosen so that the leading digit is not zero, from a
  second on it is hours, minutes and seconds; the fraction has no trailing zeros. The micro sign
  is its two bytes in UTF-8.
\<close>

definition fmtFrac :: "nat \<Rightarrow> nat \<Rightarrow> string" where
  "fmtFrac u prec =
     (let ds = rev (dropWhile (\<lambda>c. c = CHR ''0'') (rev (pad prec (show_nat (u mod 10 ^ prec)))))
      in if ds = [] then [] else CHR ''.'' # ds)"

definition duration_String :: "int \<Rightarrow> string" where
  "duration_String d =
     (let u = nat \<bar>d\<bar>;
          frac = (\<lambda>prec unit. show_nat (u div 10 ^ prec) @ fmtFrac u prec @ unit);
          s = u div 1000000000;
          body = (if u = 0 then ''0s''
                  else if u < 1000 then show_nat u @ ''ns''
                  else if u < 1000000 then frac 3 [CHR 0xC2, CHR 0xB5, CHR ''s'']
                  else if u < 1000000000 then frac 6 ''ms''
                  else (if s div 3600 > 0 then show_nat (s div 3600) @ ''h'' else [])
                     @ (if s div 60 > 0 then show_nat (s div 60 mod 60) @ ''m'' else [])
                     @ show_nat (s mod 60) @ fmtFrac u 9 @ ''s'')
      in if d < 0 then CHR ''-'' # body else body)"

section \<open>Lemmas\<close>

lemma year_length_pos: "0 < year_length y"
  by (simp add: year_length_def)

lemma ceil_div_Suc:
  "(Suc y + c) div Suc c = (y + c) div Suc c + (if y mod Suc c = 0 then 1 else 0)"
proof -
  have "Suc (y + c) mod Suc c = y mod Suc c"
    by (metis add_Suc_right mod_add_self2)
  then show ?thesis by (simp add: div_Suc)
qed

lemma ceil_divs:
  "(Suc y + 3) div 4 = (y + 3) div 4 + (if y mod 4 = 0 then 1 else 0)"
  "(Suc y + 99) div 100 = (y + 99) div 100 + (if y mod 100 = 0 then 1 else 0)"
  "(Suc y + 399) div 400 = (y + 399) div 400 + (if y mod 400 = 0 then 1 else 0)"
proof -
  have n: "Suc 3 = 4" "Suc 99 = 100" "Suc 399 = 400" by simp_all
  show "(Suc y + 3) div 4 = (y + 3) div 4 + (if y mod 4 = 0 then 1 else 0)"
    "(Suc y + 99) div 100 = (y + 99) div 100 + (if y mod 100 = 0 then 1 else 0)"
    "(Suc y + 399) div 400 = (y + 399) div 400 + (if y mod 400 = 0 then 1 else 0)"
    using ceil_div_Suc [of y 3] ceil_div_Suc [of y 99] ceil_div_Suc [of y 399] unfolding n .
qed

lemma centuries_le: "(y + 99) div 100 \<le> (y :: nat)"
proof -
  have "(y + 99) div 100 \<le> (100 * y + 99) div 100" by (rule div_le_mono) simp
  also have "\<dots> = y" by simp
  finally show ?thesis .
qed

lemma leap_mods: "y mod 400 = 0 \<Longrightarrow> y mod 100 = 0" "y mod 100 = 0 \<Longrightarrow> y mod 4 = (0 :: nat)"
  using dvd_trans [of 100 400 y] dvd_trans [of 4 100 y] by (auto simp: mod_eq_0_iff_dvd)

lemma days_step:
  fixes a b c y :: nat
  assumes "b \<le> y" and "P400 \<Longrightarrow> P100" and "P100 \<Longrightarrow> P4"
  shows "365 * Suc y + (a + (if P4 then 1 else 0)) - (b + (if P100 then 1 else 0))
      + (c + (if P400 then 1 else 0)) =
    365 * y + a - b + c + (if P4 \<and> (\<not> P100 \<or> P400) then 366 else 365)"
proof (cases P400; cases P100; cases P4)
qed (use assms in auto)

lemma days_closed_Suc: "days_closed (Suc y) = days_closed y + year_length y"
  unfolding days_closed_def year_length_def leap_def ceil_divs
  by (rule days_step) (fact centuries_le leap_mods)+

lemma days_before_year_closed: "days_before_year y = days_closed y"
  by (induction y) (simp_all add: days_closed_Suc, simp add: days_closed_def)

lemma days_closed_mono: "x \<le> y \<Longrightarrow> days_closed x \<le> days_closed y"
  by (rule lift_Suc_mono_le [of days_closed]) (simp_all add: days_closed_Suc)

lemma days_closed_ge: "365 * y \<le> days_closed y"
proof (induction y)
  case (Suc y)
  then show ?case by (simp add: days_closed_Suc year_length_def)
qed (simp add: days_closed_def)

lemma year_down_eq:
  "days_closed y \<le> n \<Longrightarrow> n < days_closed (Suc y) \<Longrightarrow> y \<le> k \<Longrightarrow> year_down n k = y"
proof (induction k)
  case (Suc k)
  show ?case
  proof (cases "y = Suc k")
    case False
    with Suc.prems have "days_closed (Suc y) \<le> days_closed (Suc k)" by (intro days_closed_mono) simp
    with Suc.prems have "\<not> days_closed (Suc k) \<le> n" by linarith
    with Suc False show ?thesis by simp
  qed (use Suc in simp)
qed simp

lemma year_of_day_eq:
  assumes "k < year_length y"
  shows "year_of_day (days_closed y + k) = y"
proof -
  have "y \<le> (days_closed y + k) div 365"
    using days_closed_ge [of y] by (simp add: less_eq_div_iff_mult_less_eq)
  then show ?thesis
    unfolding year_of_day_def by (intro year_down_eq) (use assms in \<open>simp_all add: days_closed_Suc\<close>)
qed

lemma year_exists: "\<exists>y k. n = days_closed y + k \<and> k < year_length y"
proof (induction n)
  case 0
  show ?case by (intro exI [of _ 0]) (simp add: days_closed_def year_length_def)
next
  case (Suc n)
  then obtain y k where n: "n = days_closed y + k" "k < year_length y" by blast
  show ?case
  proof (cases "Suc k < year_length y")
    case True
    with n show ?thesis by (intro exI [of _ y] exI [of _ "Suc k"]) simp
  next
    case False
    with n have "Suc n = days_closed (Suc y) + 0" by (simp add: days_closed_Suc)
    then show ?thesis using year_length_pos [of "Suc y"] by blast
  qed
qed

lemma sum_month_lengths: "sum_list (month_lengths y) = year_length y"
  by (simp add: month_lengths_def year_length_def)

lemma month_walk_spec:
  "k < sum_list ls \<Longrightarrow> month_walk ls k = (m, d) \<Longrightarrow>
     m < length ls \<and> d < ls ! m \<and> sum_list (take m ls) + d = k"
proof (induction ls arbitrary: k m d)
  case (Cons l ls)
  show ?case
  proof (cases "k < l")
    case False
    obtain m' d' where w: "month_walk ls (k - l) = (m', d')" by (cases "month_walk ls (k - l)")
    moreover have "k - l < sum_list ls" using Cons.prems False by simp
    ultimately show ?thesis using Cons.IH [OF _ w] Cons.prems False by (auto simp: Let_def)
  qed (use Cons in auto)
qed simp

lemma digit_char_0: "CHR ''0'' = digit_char 0"
  by code_simp

lemma pad2: "n < 100 \<Longrightarrow> pad 2 (show_nat n) = [digit_char (n div 10), digit_char (n mod 10)]"
  by (cases "n < 10") (simp_all add: pad_def show_nat_1 show_nat_2 digit_char_0)

lemma replicate_small: "replicate 3 x = [x, x, x]" "replicate 2 x = [x, x]" "replicate 1 x = [x]"
  by (simp_all add: numeral_eq_Suc)

lemma pad4:
  assumes n: "n < 10000"
  shows "pad 4 (show_nat n) =
     [digit_char (n div 1000), digit_char (n div 100 mod 10), digit_char (n div 10 mod 10), digit_char (n mod 10)]"
proof -
  consider "n < 10" | "10 \<le> n" "n < 100" | "100 \<le> n" "n < 1000" | "1000 \<le> n" by linarith
  then show ?thesis
  proof cases
    case 1
    then have "show_nat n = [digit_char n]" by (rule show_nat_1)
    with 1 show ?thesis by (simp add: pad_def digit_char_0 replicate_small)
  next
    case 2
    then have "show_nat n = [digit_char (n div 10), digit_char (n mod 10)]" by (simp add: show_nat_2)
    moreover have "n div 10 < 10" using 2 by (simp add: less_mult_imp_div_less)
    ultimately show ?thesis using 2 by (simp add: pad_def digit_char_0 replicate_small)
  next
    case 3
    then have "show_nat n = [digit_char (n div 100), digit_char (n div 10 mod 10), digit_char (n mod 10)]"
      by (simp add: show_nat_3)
    moreover have "n div 100 < 10" using 3 by (simp add: less_mult_imp_div_less)
    ultimately show ?thesis using 3 by (simp add: pad_def digit_char_0)
  next
    case 4
    then have "show_nat n =
        [digit_char (n div 1000), digit_char (n div 100 mod 10), digit_char (n div 10 mod 10), digit_char (n mod 10)]"
      using n by (simp add: show_nat_4)
    then show ?thesis by (simp add: pad_def)
  qed
qed

lemma digits_2: "10 * (n div 10) + n mod 10 = (n :: nat)"
  by simp

lemma digits_4: "10 * (10 * (10 * (n div 1000) + n div 100 mod 10) + n div 10 mod 10) + n mod 10 = (n :: nat)"
proof -
  have "n div 1000 = n div 100 div 10" "n div 100 = n div 10 div 10" by (simp_all add: div_mult2_eq [symmetric])
  then show ?thesis by (metis digits_2)
qed

lemma getnum_pad2 [simp]: "n < 100 \<Longrightarrow> getnum fixed (pad 2 (show_nat n) @ s) = Some (n, s)"
  by (simp add: pad2)

lemma mod_10_le: "n mod 10 \<le> (9 :: nat)"
  using mod_less_divisor [of 10 n] by linarith

lemma year4_pad4 [simp]: "n < 10000 \<Longrightarrow> year4 (pad 4 (show_nat n) @ s) = Some (n, s)"
  using digits_4 [of n] mod_10_le by (simp add: pad4)

lemma hms_bounds: "r < 86400 \<Longrightarrow> r div 3600 < (24 :: nat)" "a mod 60 < (60 :: nat)"
  by (simp_all add: less_mult_imp_div_less)

lemma hms_sum: "r div 3600 * 3600 + r div 60 mod 60 * 60 + r mod 60 = (r :: nat)"
proof -
  define q where "q = r div 60"
  have "r div 3600 = q div 60" by (simp add: q_def div_mult2_eq [symmetric])
  moreover have "q div 60 * 60 + q mod 60 = q" by simp
  moreover have "q * 60 + r mod 60 = r" by (simp add: q_def)
  ultimately show ?thesis unfolding q_def [symmetric] by linarith
qed

text \<open>The fields of a day number.\<close>

definition timestamp_text :: "nat \<Rightarrow> nat \<Rightarrow> nat \<Rightarrow> nat \<Rightarrow> nat \<Rightarrow> nat \<Rightarrow> string" where
  "timestamp_text y mo d h mi se =
     pad 4 (show_nat y) @ ''-'' @ pad 2 (show_nat mo) @ ''-'' @ pad 2 (show_nat d)
       @ ''T'' @ pad 2 (show_nat h) @ '':'' @ pad 2 (show_nat mi) @ '':'' @ pad 2 (show_nat se)"

lemma day_fields:
  assumes "n < days_closed 10000"
  obtains y m d where "year_of_day n = y" "month_walk (month_lengths y) (n - days_closed y) = (m, d)"
    "y < 10000" "m < 12" "d < month_lengths y ! m" "day_number y (m + 1) (d + 1) = n"
proof -
  obtain y k where y: "n = days_closed y + k" "k < year_length y" using year_exists by blast
  obtain m d where md: "month_walk (month_lengths y) k = (m, d)" by (cases "month_walk (month_lengths y) k")
  then have walk: "m < length (month_lengths y)" "d < month_lengths y ! m"
      "sum_list (take m (month_lengths y)) + d = k"
    using month_walk_spec [OF _ md] y(2) by (simp_all add: sum_month_lengths)
  have m: "m < 12" using walk(1) by (simp add: month_lengths_def)
  have y4: "y < 10000" using y(1) assms days_closed_mono [of 10000 y] by (meson leD leI le_add1 le_trans)
  have k: "n - days_closed y = k" using y(1) by simp
  have dn: "day_number y (m + 1) (d + 1) = n" using y(1) walk(3) by (simp add: day_number_def)
  have "year_of_day n = y" unfolding y(1) by (rule year_of_day_eq [OF y(2)])
  from that [OF this _ y4 m walk(2) dn] md k show thesis by blast
qed

lemma formatTimestamp_text:
  assumes "nat (t div ns_per_second) = s" "year_of_day (s div 86400) = y"
    "month_walk (month_lengths y) (s div 86400 - days_closed y) = (m, d)" "r = s mod 86400"
  shows "formatTimestamp t = timestamp_text y (m + 1) (d + 1) (r div 3600) (r div 60 mod 60) (r mod 60)"
  unfolding formatTimestamp_def Let_def timestamp_text_def assms(1,2,3) assms(4) [symmetric] by (simp only: prod.case)

lemma month_length_le: "m < 12 \<Longrightarrow> month_lengths y ! m \<le> 31"
  by (simp add: month_lengths_def less_Suc_eq numeral_eq_Suc) auto

lemma parse_fields_text:
  assumes "y < 10000" "m < 12" "d < month_lengths y ! m" "h < 24" "mi < 60" "se < 60"
  shows "parse_fields (timestamp_text y (m + 1) (d + 1) h mi se) = Some ((y, m + 1, d + 1), (h, mi, se), 0)"
proof -
  have "d + 1 < 100" using assms(3) month_length_le [OF assms(2), of y] by linarith
  moreover have "getnum True (pad 2 (show_nat se)) = Some (se, [])" using getnum_pad2 [of se True "[]"] assms(6) by simp
  ultimately show ?thesis using assms
    by (simp add: parse_fields_def timestamp_text_def fraction_def days_in_def del: One_nat_def add_Suc_right)
qed

text \<open>The heartbeat written with the layout is read back as the second it was written in.\<close>

lemma parse_formatTimestamp:
  assumes t: "0 \<le> t" and s: "nat (t div ns_per_second) < days_closed 10000 * 86400"
  shows "parseTimestamp (formatTimestamp t) = Inr (t - t mod ns_per_second)"
proof -
  define s where "s = nat (t div ns_per_second)"
  define r where "r = s mod 86400"
  have "s div 86400 < days_closed 10000" using s unfolding s_def by (rule less_mult_imp_div_less)
  then obtain y m d where f: "year_of_day (s div 86400) = y"
      "month_walk (month_lengths y) (s div 86400 - days_closed y) = (m, d)"
      "y < 10000" "m < 12" "d < month_lengths y ! m" "day_number y (m + 1) (d + 1) = s div 86400"
    by (rule day_fields)
  have r: "r < 86400" by (simp add: r_def)
  have "s = s div 86400 * 86400 + r" unfolding r_def by (rule div_mult_mod_eq [symmetric])
  then have "day_number y (m + 1) (d + 1) * 86400 + r div 3600 * 3600 + r div 60 mod 60 * 60 + r mod 60 = s"
    unfolding f(6) using hms_sum [of r] by linarith
  then have i: "instant y (m + 1) (d + 1) (r div 3600) (r div 60 mod 60) (r mod 60) = int s * ns_per_second"
    unfolding instant_def by (simp only:)
  have "int s = t div ns_per_second" using t by (simp add: s_def ns_per_second_def pos_imp_zdiv_nonneg_iff)
  then have "int s * ns_per_second = t - t mod ns_per_second" by (simp add: minus_mod_eq_div_mult)
  with i show ?thesis
    unfolding formatTimestamp_text [OF s_def [symmetric] f(1,2) r_def] parseTimestamp_def
      parse_fields_text [OF f(3,4,5) hms_bounds(1) [OF r] hms_bounds(2) hms_bounds(2)]
    by (simp add: parse_error_def)
qed

lemma show_nat_digits: "c \<in> set (show_nat n) \<Longrightarrow> is_digit c"
proof (induction n rule: show_nat.induct)
  case (1 n)
  then show ?case using mod_10_le [of n] by (auto simp: show_nat.simps [of n] split: if_splits)
qed

lemma pad_digits: "c \<in> set (pad k (show_nat n)) \<Longrightarrow> is_digit c"
  by (auto simp: pad_def digit_char_0 dest: show_nat_digits)

lemma formatTimestamp_chars: "c \<in> set (formatTimestamp t) \<Longrightarrow> is_digit c \<or> c \<in> set ''-T:''"
  by (auto simp: formatTimestamp_def Let_def split: prod.splits dest: pad_digits)

lemma formatTimestamp_plain: "CHR 0x09 \<notin> set (formatTimestamp t)" "CHR 0x22 \<notin> set (formatTimestamp t)"
  using formatTimestamp_chars [of "CHR 0x09" t] formatTimestamp_chars [of "CHR 0x22" t]
  by (auto simp: is_digit_def)

end
