(* ===== verification/Assistant.thy ===== *)
theory Assistant
  imports Utils Go_Time
begin

text \<open>
  \<^verbatim>\<open>controllers/providers/assistant/gslb.go\<close>: the assistant the DNS providers share. It reads the
  addresses of the CoreDNS service and of the Gslb's Ingress, saves and removes DNSEndpoints,
  checks the heartbeat of another cluster and collects the targets of the external clusters.
  The assistant's client is the record \<open>S\<close> of the environment.

  The locale \<open>assistant_api\<close> is the contract of the interface \<^verbatim>\<open>assistant.Assistant\<close> as far as the
  stored objects are concerned; every platform that satisfies \<open>kube_api\<close> gives an instance on
  the definitions below.
\<close>

section \<open>Operations\<close>

definition coreDNSExtServiceName :: string where
  "coreDNSExtServiceName = ''k8gb-coredns-lb''"

record GslbAssistant =
  as_k8gbNamespace :: string
  as_edgeDNSServer :: string
  as_edgeDNSServerPort :: int

definition NewGslbAssistant :: "string \<Rightarrow> string \<Rightarrow> int \<Rightarrow> GslbAssistant" where
  "NewGslbAssistant k8gbNamespace edgeDNSServer edgeDNSServerPort =
     \<lparr>as_k8gbNamespace = k8gbNamespace, as_edgeDNSServer = edgeDNSServer,
      as_edgeDNSServerPort = edgeDNSServerPort\<rparr>"

definition CoreDNSExposedIPs :: "'w sys \<Rightarrow> GslbAssistant \<Rightarrow> 'w \<Rightarrow> (goerr + string list) \<times> 'w" where
  "CoreDNSExposedIPs S r w =
     (case c_getService S w (as_k8gbNamespace r, coreDNSExtServiceName) of
        (Inl err, w) \<Rightarrow> (Inl err, w)
      | (Inr coreDNSService, w) \<Rightarrow>
          (case svc_lb coreDNSService of
             [] \<Rightarrow> (Inl (Errorf ''no Ingress LoadBalancer entries found for %s serice'' [coreDNSExtServiceName]), w)
           | lb # _ \<Rightarrow> Dig S w (as_edgeDNSServer r) (lb_hostname lb)))"

fun ingress_ips :: "'w sys \<Rightarrow> string \<Rightarrow> lb_ingress list \<Rightarrow> string list \<Rightarrow> 'w \<Rightarrow> (goerr + string list) \<times> 'w" where
  "ingress_ips S edgeDNSServer [] gslbIngressIPs w = (Inr gslbIngressIPs, w)"
| "ingress_ips S edgeDNSServer (ip # ips) gslbIngressIPs w =
     (let gslbIngressIPs = (if length (lb_ip ip) > 0 then gslbIngressIPs @ [lb_ip ip] else gslbIngressIPs)
      in if length (lb_hostname ip) > 0 then
           (case Dig S w edgeDNSServer (lb_hostname ip) of
              (Inl err, w) \<Rightarrow> (Inl err, w)
            | (Inr IPs, w) \<Rightarrow> ingress_ips S edgeDNSServer ips (gslbIngressIPs @ IPs) w)
         else ingress_ips S edgeDNSServer ips gslbIngressIPs w)"

definition GslbIngressExposedIPs ::
    "'w sys \<Rightarrow> GslbAssistant \<Rightarrow> 'w \<Rightarrow> Gslb \<Rightarrow> (goerr + string list) \<times> 'w" where
  "GslbIngressExposedIPs S r w gslb =
     (case c_getIngress S w (g_namespace gslb, g_name gslb) of
        (Inl err, w) \<Rightarrow> (Inl err, w)
      | (Inr gslbIngress, w) \<Rightarrow> ingress_ips S (as_edgeDNSServer r) (ing_lb gslbIngress) [] w)"

definition SaveDNSEndpoint ::
    "'w sys \<Rightarrow> GslbAssistant \<Rightarrow> 'w \<Rightarrow> string \<Rightarrow> dns_endpoint \<Rightarrow> goerr option \<times> 'w" where
  "SaveDNSEndpoint S r w namespace i =
     (case c_getDNSEndpoint S w (namespace, om_name (de_meta i)) of
        (Inl err, w) \<Rightarrow> if isNotFound err then c_createDNSEndpoint S w i else (Some err, w)
      | (Inr found, w) \<Rightarrow>
          c_updateDNSEndpoint S w
            (found\<lparr>de_endpoints := de_endpoints i,
               de_meta := (de_meta found)\<lparr>om_annotations := om_annotations (de_meta i),
                 om_labels := om_labels (de_meta i)\<rparr>\<rparr>))"

definition RemoveEndpoint :: "'w sys \<Rightarrow> GslbAssistant \<Rightarrow> 'w \<Rightarrow> string \<Rightarrow> goerr option \<times> 'w" where
  "RemoveEndpoint S r w endpointName =
     (case c_getDNSEndpoint S w (as_k8gbNamespace r, endpointName) of
        (Inl err, w) \<Rightarrow> if isNotFound err then (None, w) else (Some err, w)
      | (Inr dnsEndpoint, w) \<Rightarrow> c_deleteDNSEndpoint S w dnsEndpoint)"

text \<open>\<^verbatim>\<open>strings.Trim(s, "\"")\<close>\<close>

definition trim_quotes :: "string \<Rightarrow> string" where
  "trim_quotes s = rev (dropWhile (\<lambda>c. c = CHR 0x22) (rev (dropWhile (\<lambda>c. c = CHR 0x22) s)))"

definition server_addr :: "string \<Rightarrow> int \<Rightarrow> string" where
  "server_addr server port = sprintf ''%s:%v'' [server, itoa port]"

definition InspectTXTThreshold ::
    "'w sys \<Rightarrow> GslbAssistant \<Rightarrow> 'w \<Rightarrow> string \<Rightarrow> int \<Rightarrow> unit go \<times> 'w" where
  "InspectTXTThreshold S r w fqdn splitBrainThreshold =
     (let ns = server_addr (as_edgeDNSServer r) (as_edgeDNSServerPort r);
          missing = Err (ResourceExpired (sprintf
            ''Can't find split brain TXT record at EdgeDNS server(%s) and record %s '' [ns, fqdn]))
      in case n_exchange S w (l_dnsFqdn S fqdn) TypeTXT ns of
           (Inl err, w) \<Rightarrow> (Err err, w)
         | (Inr (RR_TXT t # _), w) \<Rightarrow>
             (let parts = split_on (CHR 0x09) t
              in if length parts \<le> 4 then (Panic ''index out of range'', w)
                 else case parseTimestamp (trim_quotes (parts ! 4)) of
                   Inl err \<Rightarrow> (Err err, w)
                 | Inr timeFromTXT \<Rightarrow>
                     (let (now, w) = n_now S w; diff = time_Sub now timeFromTXT
                      in if diff > splitBrainThreshold
                         then (Err (ResourceExpired (sprintf
                                ''Split brain TXT record expired the time threshold: (%s)''
                                [duration_String splitBrainThreshold])), w)
                         else (Ok (), w)))
         | (Inr _, w) \<Rightarrow> (missing, w))"

fun getARecords :: "dns_msg \<Rightarrow> string list go" where
  "getARecords [] = Ok []"
| "getARecords (RR_A a # ans) =
     (case getARecords ans of Ok as \<Rightarrow> Ok (a # as) | Err e \<Rightarrow> Err e | Panic m \<Rightarrow> Panic m)"
| "getARecords (_ # ans) = Panic ''interface conversion: dns.RR is not *dns.A''"

definition dnsQuery :: "'w sys \<Rightarrow> 'w \<Rightarrow> string \<Rightarrow> string \<Rightarrow> int \<Rightarrow> (goerr + dns_msg) \<times> 'w" where
  "dnsQuery S w host nameserver nameserverport =
     n_exchange S w (sprintf ''%s.'' [host]) TypeA (server_addr nameserver nameserverport)"

text \<open>The loop of \<^verbatim>\<open>GetExternalTargets\<close> over the name servers, in the order the map is visited. The
  variable \<^verbatim>\<open>host\<close> is assigned in the loop and keeps its value for the next cluster.\<close>

fun external_targets ::
    "'w sys \<Rightarrow> GslbAssistant \<Rightarrow> string list \<Rightarrow> string \<Rightarrow> string list \<Rightarrow> 'w \<Rightarrow> string list go \<times> 'w" where
  "external_targets S r [] host targets w = (Ok targets, w)"
| "external_targets S r (cluster # clusters) host targets w =
     (case dnsQuery S w cluster (as_edgeDNSServer r) (as_edgeDNSServerPort r) of
        (Inl err, w) \<Rightarrow> (Ok targets, w)
      | (Inr glueA, w) \<Rightarrow>
          (case getARecords glueA of
             Ok glueARecords \<Rightarrow>
               (let nameServerToUse = (case glueARecords of [] \<Rightarrow> cluster | a # _ \<Rightarrow> a);
                    host = sprintf ''localtargets-%s'' [host]
                in case dnsQuery S w host nameServerToUse (as_edgeDNSServerPort r) of
                     (Inl err, w) \<Rightarrow> (Ok targets, w)
                   | (Inr a, w) \<Rightarrow>
                       (case getARecords a of
                          Ok clusterTargets \<Rightarrow> external_targets S r clusters host (targets @ clusterTargets) w
                        | Err e \<Rightarrow> (Err e, w)
                        | Panic m \<Rightarrow> (Panic m, w)))
           | Err e \<Rightarrow> (Err e, w)
           | Panic m \<Rightarrow> (Panic m, w)))"

definition GetExternalTargets ::
    "'w sys \<Rightarrow> range_order \<Rightarrow> GslbAssistant \<Rightarrow> 'w \<Rightarrow> string \<Rightarrow> string gomap \<Rightarrow> string list go \<times> 'w" where
  "GetExternalTargets S ord r w host extClusterNsNames =
     external_targets S r (map snd (ord extClusterNsNames)) host [] w"

section \<open>The contract of the assistant\<close>

definition same_record :: "dns_endpoint \<Rightarrow> dns_endpoint \<Rightarrow> bool" where
  "same_record i d \<longleftrightarrow> de_endpoints d = de_endpoints i \<and>
     om_annotations (de_meta d) = om_annotations (de_meta i) \<and> om_labels (de_meta d) = om_labels (de_meta i) \<and>
     meta_key (de_meta d) = meta_key (de_meta i)"

definition dns_frame :: "'w view \<Rightarrow> 'w \<Rightarrow> 'w \<Rightarrow> bool" where
  "dns_frame V w w' \<longleftrightarrow> keep_gslb V w w' \<and> keep_ingress V w w' \<and> keep_work V w w'"

lemma dns_frame_all: "keep_all V w w' \<Longrightarrow> dns_frame V w w'"
  by (simp add: dns_frame_def keep_all_def)

lemma dns_frame_trans: "dns_frame V w w' \<Longrightarrow> dns_frame V w' w'' \<Longrightarrow> dns_frame V w w''"
  unfolding dns_frame_def by (blast intro: keep_trans)

locale assistant_api =
  fixes V :: "'w view" and ns :: string
    and core_ips :: "'w \<Rightarrow> (goerr + string list) \<times> 'w"
    and exposed_ips :: "'w \<Rightarrow> Gslb \<Rightarrow> (goerr + string list) \<times> 'w"
    and targets :: "'w \<Rightarrow> string \<Rightarrow> string gomap \<Rightarrow> string list go \<times> 'w"
    and inspect :: "'w \<Rightarrow> string \<Rightarrow> int \<Rightarrow> unit go \<times> 'w"
    and save :: "'w \<Rightarrow> string \<Rightarrow> dns_endpoint \<Rightarrow> goerr option \<times> 'w"
    and remove :: "'w \<Rightarrow> string \<Rightarrow> goerr option \<times> 'w"
  assumes core_ips_keep: "core_ips w = (rc, w') \<Longrightarrow> keep_all V w w'"
    and exposed_ips_keep: "exposed_ips w g = (ri, w') \<Longrightarrow> keep_all V w w'"
    and targets_keep: "targets w h m = (rt, w') \<Longrightarrow> keep_all V w w'"
    and inspect_keep: "inspect w f t = (rx, w') \<Longrightarrow> keep_all V w w'"
    and save_frame: "save w n i = (rs, w') \<Longrightarrow> dns_frame V w w'"
    and save_stored: "save w n i = (None, w') \<Longrightarrow> om_namespace (de_meta i) = n \<Longrightarrow>
      \<exists>d. same_record i d \<and> v_dns V w' = (v_dns V w)(meta_key (de_meta i) \<mapsto> d)"
    and save_other: "save w n i = (rs, w') \<Longrightarrow> om_namespace (de_meta i) = n \<Longrightarrow> k \<noteq> meta_key (de_meta i) \<Longrightarrow>
      v_dns V w' k = v_dns V w k"
    and remove_frame: "remove w e = (rr, w') \<Longrightarrow> dns_frame V w w'"
    and remove_other: "remove w e = (rr, w') \<Longrightarrow> k \<noteq> (ns, e) \<Longrightarrow> v_dns V w' k = v_dns V w k"
    and remove_gone: "remove w e = (None, w') \<Longrightarrow> v_dns V w' = (v_dns V w)((ns, e) := None)"
begin

lemma save_save:
  assumes "save w n i = (None, w')" "save w' n j = (None, w'')"
    and "om_namespace (de_meta i) = n" "meta_key (de_meta j) = meta_key (de_meta i)"
  shows "\<exists>d. same_record j d \<and> v_dns V w'' = (v_dns V w)(meta_key (de_meta i) \<mapsto> d)"
proof -
  from assms(3,4) have "om_namespace (de_meta j) = n" by (simp add: meta_key_def)
  from save_stored [OF assms(1,3)] save_stored [OF assms(2) this] assms(4) show ?thesis by force
qed

lemma save_remove:
  assumes "save w ns i = (None, w')" "remove w' (om_name (de_meta i)) = (None, w'')"
    and "om_namespace (de_meta i) = ns"
  shows "v_dns V w'' = (v_dns V w)((ns, om_name (de_meta i)) := None)"
  using save_stored [OF assms(1,3)] remove_gone [OF assms(2)] assms(3) by (auto simp: meta_key_def)

end

section \<open>Lemmas\<close>

context kube_api
begin

lemma dig_keep: "Dig S w e f = (r, w') \<Longrightarrow> keep_all V w w'"
  by (rule Dig_keep [OF kube_api_axioms])

lemma CoreDNSExposedIPs_keep:
  assumes "CoreDNSExposedIPs S r w = (x, w')"
  shows "keep_all V w w'"
  using assms dig_keep
  by (auto simp: CoreDNSExposedIPs_def split: prod.splits sum.splits list.splits
      dest: readsD(1) [OF get_service] intro: keep_all_trans)

lemma ingress_ips_keep: "ingress_ips S e ips acc w = (x, w') \<Longrightarrow> keep_all V w w'"
proof (induction ips arbitrary: acc w)
  case (Cons ip ips)
  then show ?case
    by (fastforce simp: Let_def split: prod.splits sum.splits if_splits dest: dig_keep intro: keep_all_trans)
qed simp

lemma GslbIngressExposedIPs_keep:
  assumes "GslbIngressExposedIPs S r w g = (x, w')"
  shows "keep_all V w w'"
  using assms
  by (auto simp: GslbIngressExposedIPs_def split: prod.splits sum.splits
      dest: readsD(1) [OF get_ingress] ingress_ips_keep intro: keep_all_trans)

lemma external_targets_keep: "external_targets S r cs h acc w = (x, w') \<Longrightarrow> keep_all V w w'"
proof (induction cs arbitrary: h acc w)
  case (Cons c cs)
  then show ?case
    by (auto simp: dnsQuery_def Let_def split: prod.splits sum.splits go.splits
        dest!: net_frame(1) intro: keep_all_trans)
qed simp

lemma InspectTXTThreshold_keep:
  assumes "InspectTXTThreshold S r w f t = (x, w')"
  shows "keep_all V w w'"
  using assms
  by (auto simp: InspectTXTThreshold_def Let_def
      split: prod.splits sum.splits list.splits rr.splits if_splits
      dest!: net_frame(1,4) intro: keep_all_trans)

lemma SaveDNSEndpoint_frame: "SaveDNSEndpoint S r w n i = (x, w') \<Longrightarrow> dns_frame V w w'"
  by (auto simp: SaveDNSEndpoint_def dns_frame_def keep_all_def split: prod.splits sum.splits if_splits
      dest!: readsD(1) [OF get_dns] create_dns_frame update_dns_frame intro: keep_trans)

lemma SaveDNSEndpoint_stored:
  assumes "SaveDNSEndpoint S r w n i = (None, w')" and "om_namespace (de_meta i) = n"
  shows "\<exists>d. same_record i d \<and> v_dns V w' = (v_dns V w)(meta_key (de_meta i) \<mapsto> d)"
proof -
  obtain g w1 where g: "c_getDNSEndpoint S w (meta_key (de_meta i)) = (g, w1)" by fastforce
  have k: "v_dns V w1 = v_dns V w" using readsD(1) [OF get_dns g] by (simp add: keep_defs)
  show ?thesis
  proof (cases g)
    case (Inl e)
    with assms g have "c_createDNSEndpoint S w1 i = (None, w')"
      by (auto simp: SaveDNSEndpoint_def meta_key_def split: if_splits)
    from create_dns [OF this] k show ?thesis by (intro exI [of _ i]) (simp add: same_record_def)
  next
    case (Inr d)
    let ?d = "d\<lparr>de_endpoints := de_endpoints i, de_meta := (de_meta d)\<lparr>om_annotations := om_annotations (de_meta i),
                 om_labels := om_labels (de_meta i)\<rparr>\<rparr>"
    from Inr assms g have u: "c_updateDNSEndpoint S w1 ?d = (None, w')"
      by (auto simp: SaveDNSEndpoint_def meta_key_def)
    have "meta_key (de_meta ?d) = meta_key (de_meta i)"
      using get_key(3) [OF g [unfolded Inr]] by (simp add: meta_key_def)
    with update_dns [OF u] k show ?thesis by (intro exI [of _ ?d]) (simp add: same_record_def)
  qed
qed

lemma SaveDNSEndpoint_other:
  assumes "SaveDNSEndpoint S r w n i = (x, w')" and "om_namespace (de_meta i) = n" and "k \<noteq> meta_key (de_meta i)"
  shows "v_dns V w' k = v_dns V w k"
proof -
  obtain g w1 where g: "c_getDNSEndpoint S w (meta_key (de_meta i)) = (g, w1)" by fastforce
  have k: "v_dns V w1 = v_dns V w" using readsD(1) [OF get_dns g] by (simp add: keep_defs)
  show ?thesis
  proof (cases g)
    case (Inl e)
    with assms(1,2) g have "w' = w1 \<or> c_createDNSEndpoint S w1 i = (x, w')"
      by (auto simp: SaveDNSEndpoint_def meta_key_def split: if_splits)
    with dns_other(1) assms(3) k show ?thesis by metis
  next
    case (Inr d)
    let ?d = "d\<lparr>de_endpoints := de_endpoints i, de_meta := (de_meta d)\<lparr>om_annotations := om_annotations (de_meta i),
                 om_labels := om_labels (de_meta i)\<rparr>\<rparr>"
    from Inr assms(1,2) g have u: "c_updateDNSEndpoint S w1 ?d = (x, w')"
      by (auto simp: SaveDNSEndpoint_def meta_key_def)
    have "meta_key (de_meta ?d) = meta_key (de_meta i)"
      using get_key(3) [OF g [unfolded Inr]] by (simp add: meta_key_def)
    with dns_other(2) [OF u] assms(3) k show ?thesis by metis
  qed
qed

lemma RemoveEndpoint_other:
  assumes "RemoveEndpoint S r w e = (x, w')" and "k \<noteq> (as_k8gbNamespace r, e)"
  shows "v_dns V w' k = v_dns V w k"
proof -
  obtain g w1 where g: "c_getDNSEndpoint S w (as_k8gbNamespace r, e) = (g, w1)" by fastforce
  have k: "v_dns V w1 = v_dns V w" using readsD(1) [OF get_dns g] by (simp add: keep_defs)
  show ?thesis
  proof (cases g)
    case (Inl err)
    with assms(1) g k show ?thesis by (auto simp: RemoveEndpoint_def split: if_splits)
  next
    case (Inr d)
    with assms(1) g have "c_deleteDNSEndpoint S w1 d = (x, w')" by (auto simp: RemoveEndpoint_def)
    with dns_other(3) get_key(3) [OF g [unfolded Inr]] assms(2) k show ?thesis by metis
  qed
qed

lemma RemoveEndpoint_frame: "RemoveEndpoint S r w e = (x, w') \<Longrightarrow> dns_frame V w w'"
  by (auto simp: RemoveEndpoint_def dns_frame_def keep_all_def split: prod.splits sum.splits if_splits
      dest!: readsD(1) [OF get_dns] delete_dns_frame intro: keep_trans)

lemma RemoveEndpoint_gone:
  assumes "RemoveEndpoint S r w e = (None, w')"
  shows "v_dns V w' = (v_dns V w)((as_k8gbNamespace r, e) := None)"
proof -
  obtain g w1 where g: "c_getDNSEndpoint S w (as_k8gbNamespace r, e) = (g, w1)" by fastforce
  have k: "v_dns V w1 = v_dns V w" using readsD(1) [OF get_dns g] by (simp add: keep_defs)
  show ?thesis
  proof (cases g)
    case (Inl err)
    with assms g have "isNotFound err" "w' = w1" by (auto simp: RemoveEndpoint_def split: if_splits)
    with readsD(3) [OF get_dns g Inl] k show ?thesis by auto
  next
    case (Inr d)
    with assms g have "c_deleteDNSEndpoint S w1 d = (None, w')" by (auto simp: RemoveEndpoint_def)
    from delete_dns [OF this] get_key(3) [OF g [unfolded Inr]] k show ?thesis by simp
  qed
qed

end

sublocale kube_api \<subseteq> asst: assistant_api V "as_k8gbNamespace r" "CoreDNSExposedIPs S r" "GslbIngressExposedIPs S r"
    "GetExternalTargets S ord r" "InspectTXTThreshold S r" "SaveDNSEndpoint S r" "RemoveEndpoint S r"
  for r ord
  by unfold_locales
    (auto simp: GetExternalTargets_def intro: CoreDNSExposedIPs_keep GslbIngressExposedIPs_keep
      external_targets_keep InspectTXTThreshold_keep SaveDNSEndpoint_frame SaveDNSEndpoint_stored
      SaveDNSEndpoint_other RemoveEndpoint_frame RemoveEndpoint_other RemoveEndpoint_gone)

lemma dropWhile_quotes: "CHR 0x22 \<notin> set s \<Longrightarrow> dropWhile (\<lambda>c. c = CHR 0x22) s = s"
  by (cases s) auto

lemma trim_quoted: "CHR 0x22 \<notin> set s \<Longrightarrow> trim_quotes (CHR 0x22 # s @ [CHR 0x22]) = s"
proof -
  assume s: "CHR 0x22 \<notin> set s"
  have "dropWhile (\<lambda>c. c = CHR 0x22) (s @ [CHR 0x22]) = (if s = [] then [] else s @ [CHR 0x22])"
    using s by (cases s) auto
  then show ?thesis using s dropWhile_quotes [of "rev s"] by (simp add: trim_quotes_def)
qed

text \<open>How a TXT record with one string is printed: four header fields and the quoted string,
  separated by tabs.\<close>

definition txt_line :: "string list \<Rightarrow> string \<Rightarrow> string" where
  "txt_line header v = join_with (CHR 0x09) (header @ [CHR 0x22 # v @ [CHR 0x22]])"

lemma txt_line_parts:
  assumes "length header = 4" "\<forall>h \<in> set header. CHR 0x09 \<notin> set h" "CHR 0x09 \<notin> set v"
  shows "split_on (CHR 0x09) (txt_line header v) = header @ [CHR 0x22 # v @ [CHR 0x22]]"
  unfolding txt_line_def by (rule split_join) (use assms in auto)

lemma time_Sub_le: "min_int64 \<le> d \<Longrightarrow> d < max_int64 \<Longrightarrow> time_Sub t u \<le> d \<longleftrightarrow> t - u \<le> d"
  by (auto simp: time_Sub_def min_int64_def max_int64_def)

fun a_addresses :: "dns_msg \<Rightarrow> string list" where
  "a_addresses [] = []"
| "a_addresses (RR_A a # ans) = a # a_addresses ans"
| "a_addresses (_ # ans) = a_addresses ans"

fun is_A :: "rr \<Rightarrow> bool" where
  "is_A (RR_A a) = True"
| "is_A _ = False"

lemma getARecords_A: "list_all is_A ans \<Longrightarrow> getARecords ans = Ok (a_addresses ans)"
  by (induction ans rule: a_addresses.induct) simp_all

definition local_target :: "string \<Rightarrow> string" where
  "local_target host = ''localtargets-'' @ host"

fun prefixed :: "nat \<Rightarrow> string \<Rightarrow> string" where
  "prefixed 0 host = host"
| "prefixed (Suc n) host = local_target (prefixed n host)"

lemma prefixed_shift: "prefixed n (local_target host) = local_target (prefixed n host)"
  by (induction n) simp_all

lemma sprintf_targets: "sprintf ''localtargets-%s'' [host] = local_target host"
  by (simp add: local_target_def)

lemma sprintf_dot: "sprintf ''%s.'' [host] = host @ ''.''"
  by simp

text \<open>What the i-th visited cluster answers: its name server is asked at the glue address the edge
  DNS knows, or by its name.\<close>

definition cluster_answer ::
    "(string \<Rightarrow> string \<Rightarrow> dns_msg) \<Rightarrow> GslbAssistant \<Rightarrow> string \<Rightarrow> nat \<times> string \<Rightarrow> string list" where
  "cluster_answer ans r host = (\<lambda>(i, cluster).
     (let port = as_edgeDNSServerPort r;
          glue = a_addresses (ans (cluster @ ''.'') (server_addr (as_edgeDNSServer r) port))
      in a_addresses (ans (prefixed i host @ ''.'') (server_addr (case glue of [] \<Rightarrow> cluster | a # _ \<Rightarrow> a) port))))"

lemma cluster_answer_shift:
  "cluster_answer ans r (local_target host) (i, c) = cluster_answer ans r host (Suc i, c)"
  by (simp add: cluster_answer_def prefixed_shift Let_def)

lemma enumerate_Suc_map: "enumerate (Suc n) xs = map (\<lambda>(i, x). (Suc i, x)) (enumerate n xs)"
  by (induction xs arbitrary: n) auto

lemma cluster_answers_shift:
  "map (cluster_answer ans r (local_target host)) (enumerate n cs) =
     map (cluster_answer ans r host) (enumerate (Suc n) cs)"
  by (auto simp: enumerate_Suc_map cluster_answer_shift)

lemma external_targets_spec:
  assumes net: "\<And>w q s. n_exchange S w q TypeA s = (Inr (ans q s), w)" and A: "\<And>q s. list_all is_A (ans q s)"
  shows "external_targets S r cs host acc w =
    (Ok (acc @ concat (map (cluster_answer ans r host) (enumerate (Suc 0) cs))), w)"
proof (induction cs arbitrary: host acc)
  case (Cons c cs)
  show ?case
    by (simp add: dnsQuery_def net getARecords_A [OF A] sprintf_targets sprintf_dot Cons.IH
        cluster_answers_shift del: sprintf.simps) (simp add: cluster_answer_def Let_def)
qed simp

section \<open>Properties\<close>

definition sample_assistant :: GslbAssistant where
  "sample_assistant = NewGslbAssistant ''k8gb'' ''1.1.1.1'' 53"

definition quiet_sys :: "store sys" where
  "quiet_sys = mem_sys (\<lambda>_. None) (\<lambda>q t s. Inr []) (\<lambda>s q. Inr [])"

definition sample_endpoint :: "string list \<Rightarrow> dns_endpoint" where
  "sample_endpoint targets = \<lparr>de_meta = empty_meta\<lparr>om_name := ''e'', om_namespace := ''ns''\<rparr>,
     de_endpoints = [\<lparr>ep_dnsName = ''a.b'', ep_recordTTL = 30, ep_recordType = ''A'', ep_targets = targets,
       ep_labels = None\<rparr>]\<rparr>"

lemma quiet_api: "kube_api quiet_sys mem_view"
  unfolding quiet_sys_def by (rule mem.kube_api_axioms)

lemmas mem_eval = quiet_sys_def mem_write_def mem_updateIngress_def mem_get_def fault_at_def tick_def empty_store_def
  named_defs meta_key_def empty_meta_def

text \<open>
  C14. A heartbeat written by one cluster is read back by another: when the TXT record holds the
  timestamp of instant t0 and the clock shows t1, the check succeeds exactly when the record, cut
  to the second, is not older than the threshold, and otherwise reports an expired resource.
\<close>

theorem heartbeat_threshold:
  assumes "n_exchange S w (l_dnsFqdn S fqdn) TypeTXT (server_addr (as_edgeDNSServer r) (as_edgeDNSServerPort r)) =
      (Inr (RR_TXT (txt_line header (formatTimestamp t0)) # others), w1)"
    and "n_now S w1 = (t1, w2)" and "length header = 4" and "\<forall>h \<in> set header. CHR 0x09 \<notin> set h"
    and "0 \<le> t0" and "nat (t0 div ns_per_second) < days_closed 10000 * 86400"
    and "min_int64 \<le> threshold" and "threshold < max_int64"
  shows "InspectTXTThreshold S r w fqdn threshold =
    (if t1 - (t0 - t0 mod ns_per_second) \<le> threshold then (Ok (), w2)
     else (Err (ResourceExpired (sprintf ''Split brain TXT record expired the time threshold: (%s)''
            [duration_String threshold])), w2))"
  using txt_line_parts [OF assms(3,4) formatTimestamp_plain(1), of t0] assms(1,2,3)
    parse_formatTimestamp [OF assms(5,6)] trim_quoted [OF formatTimestamp_plain(2), of t0]
    time_Sub_le [OF assms(7,8), of t1 "t0 - t0 mod ns_per_second"]
  by (simp add: InspectTXTThreshold_def nth_append not_le [symmetric] del: sprintf.simps)

theorem heartbeat_threshold_witness:
  "fst (InspectTXTThreshold
     (mem_sys (\<lambda>_. None) (\<lambda>q t s. Inr [RR_TXT (txt_line [''h.'', ''30'', ''IN'', ''TXT''] (formatTimestamp 63800000000000000000))]) (\<lambda>s q. Inr []))
     sample_assistant (empty_store\<lparr>s_time := 63800000299000000000\<rparr>) ''h'' 300000000000) = Ok ()"
  by (subst heartbeat_threshold [where header = "[''h.'', ''30'', ''IN'', ''TXT'']" and ?t0.0 = 63800000000000000000
        and others = "[]" and ?t1.0 = 63800000299000000000
        and ?w1.0 = "empty_store\<lparr>s_time := 63800000299000000000\<rparr>"
        and ?w2.0 = "empty_store\<lparr>s_time := 63800000299000000000\<rparr>"])
    (simp_all add: empty_store_def ns_per_second_def days_closed_def min_int64_def max_int64_def)

text \<open>
  C31. When every name server answers with A records, the external targets are the answers of the
  clusters in the order the map is visited. The first one is asked for \<^verbatim>\<open>localtargets-<host>\<close>; the
  prefix is added again for every further cluster, so the i-th is asked for a name with i prefixes.
\<close>

theorem GetExternalTargets_answers:
  assumes "\<And>w q s. n_exchange S w q TypeA s = (Inr (ans q s), w)" and "\<And>q s. list_all is_A (ans q s)"
  shows "GetExternalTargets S ord r w host m =
    (Ok (concat (map (cluster_answer ans r host) (enumerate 1 (map snd (ord m))))), w)"
  using external_targets_spec [OF assms] by (simp add: GetExternalTargets_def)

lemma itoa_53: "itoa 53 = ''53''"
  by code_simp

theorem GetExternalTargets_answers_witness:
  "GetExternalTargets (mem_sys (\<lambda>_. None) (\<lambda>q t s. Inr [RR_A (q @ s)]) (\<lambda>s q. Inr [])) rev sample_assistant
     empty_store ''h'' [(''us'', ''n1''), (''za'', ''n2'')] =
   (Ok [''localtargets-h.n2.1.1.1.1:53:53'', ''localtargets-localtargets-h.n1.1.1.1.1:53:53''], empty_store)"
  using GetExternalTargets_answers [of "mem_sys (\<lambda>_. None) (\<lambda>q t s. Inr [RR_A (q @ s)]) (\<lambda>s q. Inr [])"
      "\<lambda>q s. [RR_A (q @ s)]" rev sample_assistant empty_store "''h''" "[(''us'', ''n1''), (''za'', ''n2'')]"]
  by (simp add: cluster_answer_def Let_def server_addr_def sample_assistant_def NewGslbAssistant_def
      itoa_53 local_target_def numeral_2_eq_2)

end
