(* ===== verification/Dep_Spec.thy ===== *)
theory Dep_Spec
  imports Dep_Config Assistant
begin

text \<open>
  \<^verbatim>\<open>controllers/depresolver/depresolver_spec.go\<close>: filling in and validating the strategy of a Gslb.
  The resolver is one object for all Gslbs; it keeps the last resolved specification and its
  error, and answers from them when it sees an equal specification again.
\<close>

section \<open>Operations\<close>

definition predefinedStrategy :: Strategy where
  "predefinedStrategy = \<lparr>st_type = [], st_primaryGeoTag = [], st_dnsTtlSeconds = 30,
     st_splitBrainThresholdSeconds = 300\<rparr>"

definition validateSpec :: "Strategy \<Rightarrow> goerr option" where
  "validateSpec strategy =
     (let err = va_err (isHigherOrEqualToZero (field ''DNSTtlSeconds'' (VInt (st_dnsTtlSeconds strategy))))
      in if err \<noteq> None then err
         else va_err (isHigherOrEqualToZero
           (field ''SplitBrainThresholdSeconds'' (VInt (st_splitBrainThresholdSeconds strategy)))))"

text \<open>The two assignments of predefined values.\<close>

definition set_predefined :: "Strategy \<Rightarrow> Strategy" where
  "set_predefined st =
     (let st = (if st_dnsTtlSeconds st = 0
                then st\<lparr>st_dnsTtlSeconds := st_dnsTtlSeconds predefinedStrategy\<rparr> else st)
      in if st_splitBrainThresholdSeconds st = 0
         then st\<lparr>st_splitBrainThresholdSeconds := st_splitBrainThresholdSeconds predefinedStrategy\<rparr> else st)"

text \<open>\<^verbatim>\<open>client == nil\<close> is the client \<^const>\<open>None\<close>. The result is the error, the Gslb (which the code
  changes in place; a successful update writes the server's answer into it), the resolver and
  the world.\<close>

definition ResolveGslbSpec ::
    "'w sys option \<Rightarrow> DependencyResolver \<Rightarrow> 'w \<Rightarrow> Gslb \<Rightarrow> goerr option \<times> Gslb \<times> DependencyResolver \<times> 'w" where
  "ResolveGslbSpec client dr w gslb =
     (case client of
        None \<Rightarrow> (Some (Errorf ''nil client'' []), gslb, dr, w)
      | Some S \<Rightarrow>
          if g_spec gslb \<noteq> dr_spec dr then
            (let gslb = gslb\<lparr>g_spec := (g_spec gslb)\<lparr>gs_strategy := set_predefined (gs_strategy (g_spec gslb))\<rparr>\<rparr>
             in case validateSpec (gs_strategy (g_spec gslb)) of
                  Some err \<Rightarrow> (Some err, gslb, dr\<lparr>dr_errorSpec := Some err, dr_spec := g_spec gslb\<rparr>, w)
                | None \<Rightarrow>
                    (case c_updateGslb S w gslb of
                       (Inl err, w) \<Rightarrow>
                         (Some err, gslb, dr\<lparr>dr_errorSpec := Some err, dr_spec := g_spec gslb\<rparr>, w)
                     | (Inr gslb, w) \<Rightarrow>
                         (None, gslb, dr\<lparr>dr_errorSpec := None, dr_spec := g_spec gslb\<rparr>, w)))
          else (dr_errorSpec dr, gslb, dr, w))"

section \<open>Lemmas\<close>

definition resolved :: "Strategy \<Rightarrow> bool" where
  "resolved st \<longleftrightarrow> 0 < st_dnsTtlSeconds st \<and> 0 < st_splitBrainThresholdSeconds st"

text \<open>What the cache of the resolver promises: no error is remembered for a specification only if it
  is the zero value of a fresh resolver or its strategy is resolved.\<close>

definition dr_ok :: "DependencyResolver \<Rightarrow> bool" where
  "dr_ok dr \<longleftrightarrow> (dr_errorSpec dr = None \<longrightarrow> dr_spec dr = zero_spec \<or> resolved (gs_strategy (dr_spec dr)))"

lemma validateSpec_iff:
  "validateSpec st = None \<longleftrightarrow> 0 \<le> st_dnsTtlSeconds st \<and> 0 \<le> st_splitBrainThresholdSeconds st"
  by (simp add: validateSpec_def va_err_None del: not_None_eq)

lemma validateSpec_ok:
  "0 \<le> st_dnsTtlSeconds st \<Longrightarrow> 0 \<le> st_splitBrainThresholdSeconds st \<Longrightarrow> validateSpec st = None"
  by (simp add: validateSpec_iff)

lemma set_predefined_fields [simp]:
  "st_dnsTtlSeconds (set_predefined st) = (if st_dnsTtlSeconds st = 0 then 30 else st_dnsTtlSeconds st)"
  "st_splitBrainThresholdSeconds (set_predefined st) =
     (if st_splitBrainThresholdSeconds st = 0 then 300 else st_splitBrainThresholdSeconds st)"
  "st_type (set_predefined st) = st_type st" "st_primaryGeoTag (set_predefined st) = st_primaryGeoTag st"
  by (simp_all add: set_predefined_def predefinedStrategy_def Let_def)

lemma set_predefined_resolved: "validateSpec (set_predefined st) = None \<longleftrightarrow> resolved (set_predefined st)"
  by (auto simp: validateSpec_iff resolved_def)

lemma set_predefined_idem: "resolved st \<Longrightarrow> set_predefined st = st"
  by (simp add: resolved_def set_predefined_def Let_def)

lemma resolve_cached: "g_spec g = dr_spec dr \<Longrightarrow> ResolveGslbSpec (Some S) dr w g = (dr_errorSpec dr, g, dr, w)"
  by (simp add: ResolveGslbSpec_def)

lemma resolve_caches:
  "ResolveGslbSpec (Some S) dr w g = (r, g1, dr1, w1) \<Longrightarrow> g_spec g1 = dr_spec dr1 \<and> dr_errorSpec dr1 = r"
  by (auto simp: ResolveGslbSpec_def Let_def split: if_splits option.splits prod.splits sum.splits)

context kube_api
begin

lemma resolve_frame:
  "ResolveGslbSpec (Some S) dr w g = (r, g1, dr1, w1) \<Longrightarrow>
     keep_ingress V w w1 \<and> keep_dns V w w1 \<and> keep_work V w w1"
  by (auto simp: ResolveGslbSpec_def Let_def keep_defs split: if_splits option.splits prod.splits sum.splits
      dest: update_gslb_frame)

lemma resolve_meta: "ResolveGslbSpec (Some S) dr w g = (r, g1, dr1, w1) \<Longrightarrow> g_meta g1 = g_meta g"
  by (auto simp: ResolveGslbSpec_def Let_def split: if_splits option.splits prod.splits sum.splits dest: update_gslb)

lemma resolve_ingress:
  "ResolveGslbSpec (Some S) dr w g = (r, g1, dr1, w1) \<Longrightarrow> gs_ingress (g_spec g1) = gs_ingress (g_spec g)"
  by (auto simp: ResolveGslbSpec_def Let_def split: if_splits option.splits prod.splits sum.splits dest: update_gslb)

lemma resolve_strategy:
  assumes "ResolveGslbSpec (Some S) dr w g = (None, g1, dr1, w1)" and "g_spec g \<noteq> dr_spec dr"
  shows "g_spec g1 = (g_spec g)\<lparr>gs_strategy := set_predefined (gs_strategy (g_spec g))\<rparr>"
    "resolved (gs_strategy (g_spec g1))"
    "v_gslb V w1 = (v_gslb V w)(meta_key (g_meta g) := stored_gslb g1)"
  using assms set_predefined_resolved
  by (auto simp: ResolveGslbSpec_def Let_def split: option.splits prod.splits sum.splits dest!: update_gslb)

lemma resolve_dr_ok:
  "dr_ok dr \<Longrightarrow> ResolveGslbSpec (Some S) dr w g = (r, g1, dr1, w1) \<Longrightarrow> dr_ok dr1"
  using set_predefined_resolved
  by (auto simp: ResolveGslbSpec_def dr_ok_def Let_def split: if_splits option.splits prod.splits sum.splits
      dest!: update_gslb)

lemma resolve_spec:
  assumes "ResolveGslbSpec (Some S) dr w g = (None, g1, dr1, w1)" and "dr_ok dr" and "g_spec g \<noteq> zero_spec"
  shows "resolved (gs_strategy (g_spec g1)) \<and>
    g_spec g1 = (g_spec g)\<lparr>gs_strategy := set_predefined (gs_strategy (g_spec g))\<rparr>"
proof (cases "g_spec g = dr_spec dr")
  case True
  with assms show ?thesis by (auto simp: resolve_cached dr_ok_def set_predefined_idem)
next
  case False
  with resolve_strategy [OF assms(1)] show ?thesis by simp
qed

end

section \<open>Properties\<close>

text \<open>
  C19. Resolving a specification. The cache of the resolver stays consistent, and when no error is
  returned for a Gslb whose specification is not empty, its TTL and its split brain threshold are
  positive: a missing value is replaced by the predefined one, a negative one is an error.
\<close>

theorem ResolveGslbSpec_resolved:
  assumes "kube_api S V" and "dr_ok dr" and "ResolveGslbSpec (Some S) dr w gslb = (r, gslb', dr', w')"
  shows "dr_ok dr' \<and> (r = None \<and> g_spec gslb \<noteq> zero_spec \<longrightarrow> resolved (gs_strategy (g_spec gslb')) \<and>
    gs_strategy (g_spec gslb') = set_predefined (gs_strategy (g_spec gslb)) \<and>
    gs_ingress (g_spec gslb') = gs_ingress (g_spec gslb))"
  using kube_api.resolve_dr_ok [OF assms] kube_api.resolve_spec [OF assms(1) _ assms(2), of w gslb gslb' dr' w'] assms(3) by auto

definition plain_gslb :: "int \<Rightarrow> int \<Rightarrow> Gslb" where
  "plain_gslb ttl threshold =
     \<lparr>g_meta = empty_meta\<lparr>om_name := ''g'', om_namespace := ''ns''\<rparr>,
      g_spec = \<lparr>gs_ingress = gs_ingress zero_spec,
        gs_strategy = \<lparr>st_type = ''roundRobin'', st_primaryGeoTag = [], st_dnsTtlSeconds = ttl,
          st_splitBrainThresholdSeconds = threshold\<rparr>\<rparr>,
      g_status = \<lparr>gst_serviceHealth = [], gst_healthyRecords = [], gst_geoTag = []\<rparr>\<rparr>"

lemma fresh_dr_ok: "dr_ok NewDependencyResolver"
  by (simp add: dr_ok_def NewDependencyResolver_def)

theorem ResolveGslbSpec_resolved_witness:
  "\<exists>g dr w. ResolveGslbSpec (Some quiet_sys) NewDependencyResolver empty_store (plain_gslb 0 60) = (None, g, dr, w) \<and>
     st_dnsTtlSeconds (gs_strategy (g_spec g)) = 30 \<and> st_splitBrainThresholdSeconds (gs_strategy (g_spec g)) = 60"
proof -
  obtain r g dr w where e: "ResolveGslbSpec (Some quiet_sys) NewDependencyResolver empty_store (plain_gslb 0 60) = (r, g, dr, w)"
    by (metis prod_cases4)
  have z: "g_spec (plain_gslb 0 60) \<noteq> zero_spec" by (simp add: plain_gslb_def zero_spec_def)
  then have "r = None"
    using e by (simp add: ResolveGslbSpec_def NewDependencyResolver_def plain_gslb_def set_predefined_def
        predefinedStrategy_def validateSpec_ok Let_def mem_updateGslb_def mem_eval)
  then show ?thesis
    using ResolveGslbSpec_resolved [OF quiet_api fresh_dr_ok e] e z by (auto simp: plain_gslb_def)
qed

text \<open>
  C30. A remembered error is sticky: once resolving failed, every later Gslb with the specification
  left behind gets the same error back, without any call to the API server, until a Gslb with
  another specification is resolved. This holds for a conflict of the update as well.
\<close>

theorem spec_error_sticky:
  assumes "ResolveGslbSpec (Some S) dr w gslb = (Some err, gslb', dr', w')" and "g_spec other = g_spec gslb'"
  shows "ResolveGslbSpec (Some T) dr' w2 other = (Some err, other, dr', w2)"
  using resolve_caches [OF assms(1)] assms(2) by (simp add: resolve_cached)

theorem spec_error_sticky_witness:
  "let (r, g, dr, w) = ResolveGslbSpec (Some (mem_sys (\<lambda>n. if n = 0 then Some (Conflict ''c'') else None)
         (\<lambda>q t s. Inr []) (\<lambda>s q. Inr []))) NewDependencyResolver empty_store (plain_gslb 30 300)
   in r = Some (Conflict ''c'') \<and>
      fst (ResolveGslbSpec (Some quiet_sys) dr w (plain_gslb 30 300)) = Some (Conflict ''c'')"
proof -
  let ?S = "mem_sys (\<lambda>n. if n = 0 then Some (Conflict ''c'') else None) (\<lambda>q t s. Inr []) (\<lambda>s q. Inr [])"
  obtain r g dr w where e: "ResolveGslbSpec (Some ?S) NewDependencyResolver empty_store (plain_gslb 30 300) = (r, g, dr, w)"
    by (metis prod_cases4)
  then have r: "r = Some (Conflict ''c'')" and g: "g_spec (plain_gslb 30 300) = g_spec g"
    by (auto simp: ResolveGslbSpec_def NewDependencyResolver_def plain_gslb_def set_predefined_def zero_spec_def
        predefinedStrategy_def validateSpec_ok Let_def mem_updateGslb_def mem_eval split: if_splits)
  from spec_error_sticky [OF e [unfolded r] g, of quiet_sys w] e r show ?thesis by simp
qed

end
