(* ===== verification/Infoblox.thy ===== *)
theory Infoblox
  imports Assistant Dep_Config
begin

text \<open>
  \<^verbatim>\<open>controllers/providers/dns/infoblox.go\<close> with \<^verbatim>\<open>infoblox-ibclient.go\<close> and \<^verbatim>\<open>infoblox-sort.go\<close>:
  the provider that delegates the zone in Infoblox and keeps the split brain heartbeat.

  The WAPI object manager is part of the environment. \<^verbatim>\<open>sort.Sort\<close> is not stable, so its effect on
  name servers is the argument \<open>zsort\<close>, of which only \<open>zsort_ok\<close> is known. The locale
  \<open>infoblox_api\<close> says what the provider relies on of the object manager, over the zones and the
  TXT records it stores; the in-memory platform satisfies it.
\<close>

section \<open>Operations\<close>

record InfobloxProvider =
  ip_assistant :: GslbAssistant
  ip_config :: Config

definition NewInfobloxDNS :: "Config \<Rightarrow> GslbAssistant \<Rightarrow> InfobloxProvider" where
  "NewInfobloxDNS config assistant = \<lparr>ip_assistant = assistant, ip_config = config\<rparr>"

type_synonym zone_sort = "name_server list \<Rightarrow> name_server list"

definition sortZones :: "zone_sort \<Rightarrow> name_server slice \<Rightarrow> name_server slice" where
  "sortZones zsort zones = map_option zsort zones"

definition filterOutDelegateTo :: "name_server slice \<Rightarrow> string \<Rightarrow> name_server slice" where
  "filterOutDelegateTo delegateTo fqdn = Some (filter (\<lambda>v. nsv_name v \<noteq> fqdn) (elems delegateTo))"

text \<open>\<^verbatim>\<open>append(a, b...)\<close>: appending nothing to a nil slice gives nil.\<close>

definition append_slice :: "'a slice \<Rightarrow> 'a slice \<Rightarrow> 'a slice" where
  "append_slice a b = (case a of None \<Rightarrow> to_slice (elems b) | Some xs \<Rightarrow> Some (xs @ elems b))"

definition sanitizeDelegateZone ::
    "zone_sort \<Rightarrow> InfobloxProvider \<Rightarrow> name_server slice \<Rightarrow> name_server slice \<Rightarrow> name_server slice" where
  "sanitizeDelegateZone zsort p local upstream =
     (let remote = filterOutDelegateTo upstream (GetClusterNSName (ip_config p));
          final = append_slice local remote
      in sortZones zsort final)"

definition infobloxConnection :: "'w sys \<Rightarrow> InfobloxProvider \<Rightarrow> 'w \<Rightarrow> (goerr + obj_mgr) \<times> 'w" where
  "infobloxConnection S p w =
     (let c = ip_config p;
          hostConfig = \<lparr>hc_host = ib_host (co_infoblox c), hc_version = ib_version (co_infoblox c),
            hc_port = itoa (ib_port (co_infoblox c)), hc_username = ib_username (co_infoblox c),
            hc_password = ib_password (co_infoblox c)\<rparr>
      in if co_fakeInfobloxEnabled c then (Inr FakeMgr, w)
         else case ib_newConnector S w hostConfig (ib_httpRequestTimeout (co_infoblox c))
                (ib_httpPoolConnections (co_infoblox c)) of
           (Some err, w) \<Rightarrow> (Inl err, w)
         | (None, w) \<Rightarrow> (let (_, w) = ib_logout S w in (Inr RealMgr, w)))"

definition checkZoneDelegated :: "InfobloxProvider \<Rightarrow> zone_delegated \<Rightarrow> goerr option" where
  "checkZoneDelegated p findZone =
     (if zd_fqdn findZone \<noteq> co_dnsZone (ip_config p)
      then Some (Errorf ''delegated zone returned from infoblox(%s) does not match requested gslb zone(%s)''
             [zd_fqdn findZone, co_dnsZone (ip_config p)])
      else None)"

definition saveHeartbeatTXTRecord ::
    "'w sys \<Rightarrow> InfobloxProvider \<Rightarrow> 'w \<Rightarrow> obj_mgr \<Rightarrow> Gslb \<Rightarrow> goerr option \<times> 'w" where
  "saveHeartbeatTXTRecord S p w objMgr gslb =
     (let (now, w) = n_now S w;
          edgeTimestamp = formatTimestamp now;
          heartbeatTXTName = GetClusterHeartbeatFQDN (ip_config p) (g_name gslb)
      in case ib_getTXTRecord S w objMgr heartbeatTXTName of
           (Inl err, w) \<Rightarrow> (Some err, w)
         | (Inr None, w) \<Rightarrow> ib_createTXTRecord S w objMgr heartbeatTXTName edgeTimestamp
                              (st_dnsTtlSeconds (gs_strategy (g_spec gslb))) ''default''
         | (Inr (Some _), w) \<Rightarrow> ib_updateTXTRecord S w objMgr heartbeatTXTName edgeTimestamp)"

text \<open>The loop that drops the name servers of clusters whose heartbeat is stale.\<close>

fun drop_stale ::
    "'w sys \<Rightarrow> InfobloxProvider \<Rightarrow> int \<Rightarrow> string gomap \<Rightarrow> string gomap \<Rightarrow> name_server slice \<Rightarrow> 'w
       \<Rightarrow> name_server slice go \<times> 'w" where
  "drop_stale S p threshold heartbeats [] currentList w = (Ok currentList, w)"
| "drop_stale S p threshold heartbeats ((extClusterGeoTag, nsServerNameExt) # m) currentList w =
     (case InspectTXTThreshold S (ip_assistant p) w (m_get heartbeats extClusterGeoTag) threshold of
        (Ok _, w) \<Rightarrow> drop_stale S p threshold heartbeats m currentList w
      | (Err err, w) \<Rightarrow>
          drop_stale S p threshold heartbeats m (filterOutDelegateTo currentList nsServerNameExt) w
      | (Panic msg, w) \<Rightarrow> (Panic msg, w))"

definition finish :: "goerr option \<times> 'w \<Rightarrow> unit go \<times> 'w" where
  "finish r = ((case fst r of None \<Rightarrow> Ok () | Some e \<Rightarrow> Err e), snd r)"

definition ib_heartbeat :: "'w sys \<Rightarrow> InfobloxProvider \<Rightarrow> 'w \<Rightarrow> obj_mgr \<Rightarrow> Gslb \<Rightarrow> unit go \<times> 'w" where
  "ib_heartbeat S p w objMgr gslb =
     (if co_splitBrainCheck (ip_config p) then finish (saveHeartbeatTXTRecord S p w objMgr gslb)
      else (Ok (), w))"

text \<open>The branch of \<^verbatim>\<open>CreateZoneDelegationForExternalDNS\<close> for a zone that exists.\<close>

definition ib_update_zone ::
    "'w sys \<Rightarrow> range_order \<Rightarrow> zone_sort \<Rightarrow> InfobloxProvider \<Rightarrow> 'w \<Rightarrow> obj_mgr \<Rightarrow> Gslb \<Rightarrow> name_server slice
       \<Rightarrow> zone_delegated \<Rightarrow> unit go \<times> 'w" where
  "ib_update_zone S ord zsort p w objMgr gslb delegateTo findZone =
     (let config = ip_config p in
      case checkZoneDelegated p findZone of
        Some err \<Rightarrow> (Err err, w)
      | None \<Rightarrow>
          if length (zd_ref findZone) > 0 then
            (let found = sortZones zsort (zd_delegateTo findZone);
                 currentList = sanitizeDelegateZone zsort p delegateTo found;
                 heartbeats = GetExternalClusterHeartbeatFQDNs config (g_name gslb);
                 threshold = int64 (second * st_splitBrainThresholdSeconds (gs_strategy (g_spec gslb)))
             in case (if co_splitBrainCheck config
                      then drop_stale S p threshold heartbeats (ord (GetExternalClusterNSNames config)) currentList w
                      else (Ok currentList, w)) of
                  (Ok currentList, w) \<Rightarrow>
                    if found \<noteq> currentList
                    then (case ib_updateZoneDelegated S w objMgr (zd_ref findZone) currentList of
                            (Some err, w) \<Rightarrow> (Err err, w)
                          | (None, w) \<Rightarrow> ib_heartbeat S p w objMgr gslb)
                    else ib_heartbeat S p w objMgr gslb
                | (Err e, w) \<Rightarrow> (Err e, w)
                | (Panic m, w) \<Rightarrow> (Panic m, w))
          else ib_heartbeat S p w objMgr gslb)"

text \<open>The branch for a zone that does not exist.\<close>

definition ib_create_zone ::
    "'w sys \<Rightarrow> zone_sort \<Rightarrow> InfobloxProvider \<Rightarrow> 'w \<Rightarrow> obj_mgr \<Rightarrow> Gslb \<Rightarrow> name_server slice \<Rightarrow> unit go \<times> 'w" where
  "ib_create_zone S zsort p w objMgr gslb delegateTo =
     (case ib_createZoneDelegated S w objMgr (co_dnsZone (ip_config p)) (sortZones zsort delegateTo) of
        (Some err, w) \<Rightarrow> (Err err, w)
      | (None, w) \<Rightarrow> ib_heartbeat S p w objMgr gslb)"

definition ib_delegate ::
    "'w sys \<Rightarrow> range_order \<Rightarrow> zone_sort \<Rightarrow> InfobloxProvider \<Rightarrow> 'w \<Rightarrow> obj_mgr \<Rightarrow> Gslb \<Rightarrow> name_server slice
       \<Rightarrow> unit go \<times> 'w" where
  "ib_delegate S ord zsort p w objMgr gslb delegateTo =
     (case ib_getZoneDelegated S w objMgr (co_dnsZone (ip_config p)) of
        (Inl err, w) \<Rightarrow> (Err err, w)
      | (Inr zone, w) \<Rightarrow>
          (case zone of
             Some findZone \<Rightarrow> ib_update_zone S ord zsort p w objMgr gslb delegateTo findZone
           | None \<Rightarrow> ib_create_zone S zsort p w objMgr gslb delegateTo))"

definition ib_CreateZoneDelegationForExternalDNS ::
    "'w sys \<Rightarrow> range_order \<Rightarrow> zone_sort \<Rightarrow> InfobloxProvider \<Rightarrow> 'w \<Rightarrow> Gslb \<Rightarrow> unit go \<times> 'w" where
  "ib_CreateZoneDelegationForExternalDNS S ord zsort p w gslb =
     (case infobloxConnection S p w of
        (Inl err, w) \<Rightarrow> (Err err, w)
      | (Inr objMgr, w) \<Rightarrow>
          (case GslbIngressExposedIPs S (ip_assistant p) w gslb of
             (Inl err, w) \<Rightarrow> (Err err, w)
           | (Inr addresses, w) \<Rightarrow>
               (let delegateTo = to_slice (map (\<lambda>address.
                      \<lparr>nsv_address = address, nsv_name = GetClusterNSName (ip_config p)\<rparr>) addresses)
                in ib_delegate S ord zsort p w objMgr gslb delegateTo)))"

definition ib_delete_zone ::
    "'w sys \<Rightarrow> InfobloxProvider \<Rightarrow> 'w \<Rightarrow> obj_mgr \<Rightarrow> zone_delegated option \<Rightarrow> goerr option \<times> 'w" where
  "ib_delete_zone S p w objMgr zone =
     (case zone of
        None \<Rightarrow> (None, w)
      | Some findZone \<Rightarrow>
          (case checkZoneDelegated p findZone of
             Some err \<Rightarrow> (Some err, w)
           | None \<Rightarrow> if length (zd_ref findZone) > 0 then ib_deleteZoneDelegated S w objMgr (zd_ref findZone)
                     else (None, w)))"

definition ib_delete_txt :: "'w sys \<Rightarrow> InfobloxProvider \<Rightarrow> 'w \<Rightarrow> obj_mgr \<Rightarrow> Gslb \<Rightarrow> goerr option \<times> 'w" where
  "ib_delete_txt S p w objMgr gslb =
     (case ib_getTXTRecord S w objMgr (GetClusterHeartbeatFQDN (ip_config p) (g_name gslb)) of
        (Inl err, w) \<Rightarrow> (Some err, w)
      | (Inr findTXT, w) \<Rightarrow>
          (case findTXT of
             None \<Rightarrow> (None, w)
           | Some ref \<Rightarrow> if length ref > 0 then ib_deleteTXTRecord S w objMgr ref else (None, w)))"

definition ib_Finalize :: "'w sys \<Rightarrow> InfobloxProvider \<Rightarrow> 'w \<Rightarrow> Gslb \<Rightarrow> goerr option \<times> 'w" where
  "ib_Finalize S p w gslb =
     (case infobloxConnection S p w of
        (Inl err, w) \<Rightarrow> (Some err, w)
      | (Inr objMgr, w) \<Rightarrow>
          (case ib_getZoneDelegated S w objMgr (co_dnsZone (ip_config p)) of
             (Inl err, w) \<Rightarrow> (Some err, w)
           | (Inr zone, w) \<Rightarrow>
               (case ib_delete_zone S p w objMgr zone of
                  (Some err, w) \<Rightarrow> (Some err, w)
                | (None, w) \<Rightarrow> ib_delete_txt S p w objMgr gslb)))"

section \<open>What the object manager promises\<close>

definition zsort_ok :: "zone_sort \<Rightarrow> bool" where
  "zsort_ok zsort \<longleftrightarrow> (\<forall>zs. mset (zsort zs) = mset zs \<and> sorted (map nsv_address (zsort zs)))"

definition keep_wapi ::
    "('w \<Rightarrow> string \<Rightarrow> zone_delegated option) \<Rightarrow> ('w \<Rightarrow> string \<Rightarrow> string option) \<Rightarrow> 'w \<Rightarrow> 'w \<Rightarrow> bool" where
  "keep_wapi zv tv w w' \<longleftrightarrow> zv w' = zv w \<and> tv w' = tv w"

locale infoblox_api = kube_api S V for S :: "'w sys" and V :: "'w view" +
  fixes zv :: "'w \<Rightarrow> string \<Rightarrow> zone_delegated option" and tv :: "'w \<Rightarrow> string \<Rightarrow> string option"
  assumes get_zone: "ib_getZoneDelegated S w RealMgr z = (Inr r, w') \<Longrightarrow> r = zv w z \<and> keep_wapi zv tv w w'"
    and update_zone: "ib_updateZoneDelegated S w RealMgr ref ns = (None, w') \<Longrightarrow>
      (\<forall>z zd. zv w z = Some zd \<and> zd_ref zd = ref \<longrightarrow> zv w' z = Some (zd\<lparr>zd_delegateTo := ns\<rparr>)) \<and> tv w' = tv w"
    and create_zone: "ib_createZoneDelegated S w RealMgr z ns = (None, w') \<Longrightarrow>
      (\<exists>zd. zv w' z = Some zd \<and> zd_delegateTo zd = ns) \<and> tv w' = tv w"
    and delete_zone: "ib_deleteZoneDelegated S w RealMgr ref = (None, w') \<Longrightarrow>
      (\<forall>z zd. zv w z = Some zd \<and> zd_ref zd = ref \<longrightarrow> zv w' z = None) \<and> tv w' = tv w"
    and get_txt: "ib_getTXTRecord S w RealMgr n = (Inr x, w') \<Longrightarrow> (x = None \<longleftrightarrow> tv w n = None) \<and> keep_wapi zv tv w w'"
    and create_txt: "ib_createTXTRecord S w RealMgr n ts ttl vw = (None, w') \<Longrightarrow>
      zv w' = zv w \<and> tv w' = (tv w)(n \<mapsto> ts)"
    and update_txt: "ib_updateTXTRecord S w RealMgr n ts = (None, w') \<Longrightarrow>
      zv w' = zv w \<and> tv w' = (tv w)(n \<mapsto> ts)"
    and delete_txt: "ib_getTXTRecord S w RealMgr n = (Inr (Some rt), w1) \<Longrightarrow>
      ib_deleteTXTRecord S w1 RealMgr rt = (None, w2) \<Longrightarrow> zv w2 = zv w \<and> tv w2 = (tv w)(n := None)"
    and txt_ref: "ib_getTXTRecord S w RealMgr n = (Inr (Some rt), w1) \<Longrightarrow> rt \<noteq> []"
    and zone_ref: "zv w z = Some zd \<Longrightarrow> zd_ref zd \<noteq> []"
    and net_keep: "n_exchange S w q t s = (m, w1) \<Longrightarrow> keep_wapi zv tv w w1"
      "n_now S w = (now, w1) \<Longrightarrow> keep_wapi zv tv w w1"
      "n_digSetDNS S w s = (e1, w1) \<Longrightarrow> keep_wapi zv tv w w1"
      "n_digA S w s q = (e2, w1) \<Longrightarrow> keep_wapi zv tv w w1"
      "c_getIngress S w nn = (e3, w1) \<Longrightarrow> keep_wapi zv tv w w1"
      "ib_newConnector S w hc a b = (e4, w1) \<Longrightarrow> keep_wapi zv tv w w1"
      "ib_logout S w = (e5, w1) \<Longrightarrow> keep_wapi zv tv w w1"

lemma find_map_zone:
  "find (\<lambda>y. zd_fqdn y = z \<and> zd_ref y \<noteq> []) zs = Some zd \<Longrightarrow> zd_ref zd = ref \<Longrightarrow>
   find (\<lambda>y. zd_fqdn y = z \<and> zd_ref y \<noteq> [])
     (map (\<lambda>y. if zd_ref y = ref then y\<lparr>zd_delegateTo := ns\<rparr> else y) zs) = Some (zd\<lparr>zd_delegateTo := ns\<rparr>)"
  by (induction zs) (auto split: if_splits)

lemma find_Some_mem: "find P xs = Some x \<Longrightarrow> x \<in> set xs \<and> P x"
  by (induction xs) (auto split: if_splits)

lemma find_filter_None: "(\<And>x. x \<in> set xs \<Longrightarrow> Q x \<Longrightarrow> \<not> P x) \<Longrightarrow> find P (filter Q xs) = None"
  by (induction xs) auto

lemma map_of_filter_key: "map_of (filter (\<lambda>(n, _). f n \<noteq> f k) xs) = (map_of xs)(k := None)" if "inj f"
  using that by (induction xs) (auto simp: inj_def fun_eq_iff)

lemma inj_txt_key: "inj txt_key"
  by (simp add: inj_def txt_key_def)

lemma txt_key_neq: "txt_key n \<noteq> []"
  by (simp add: txt_key_def)

interpretation wapi: infoblox_api "mem_sys f net dig" mem_view find_zone "\<lambda>w. map_of (s_txt w)"
proof (unfold_locales, goal_cases)
  case (2 w ref ns w')
  then show ?case
    by (auto simp: mem_write_def find_zone_def intro: find_map_zone split: option.splits)
next
  case (4 w ref w')
  then show ?case
    by (auto simp: mem_write_def find_zone_def drop_zone_def list_ex_iff intro!: find_filter_None
        dest!: find_Some_mem split: option.splits) blast
qed (auto simp: keep_wapi_def find_zone_def put_zone_def mem_write_def tick_def drop_txt_def
    mem_get_def map_of_filter_key [OF inj_txt_key] update_conv' txt_key_neq dest: find_Some_mem split: option.splits if_splits)

section \<open>Lemmas\<close>

lemma zsort_okD:
  assumes "zsort_ok zsort"
  shows "mset (zsort zs) = mset zs" "set (zsort zs) = set zs" "sorted (map nsv_address (zsort zs))"
  using assms mset_eq_setD [of "zsort zs" zs] by (simp_all add: zsort_ok_def)

lemma elems_append_slice [simp]: "elems (append_slice a b) = elems a @ elems b"
  by (simp add: append_slice_def split: option.split)

lemma elems_filterOut [simp]: "elems (filterOutDelegateTo d f) = filter (\<lambda>v. nsv_name v \<noteq> f) (elems d)"
  by (simp add: filterOutDelegateTo_def)

lemma elems_sortZones: "zsort_ok zsort \<Longrightarrow> elems (sortZones zsort d) = (if elems d = [] then [] else zsort (elems d))"
  using zsort_okD(1) [of zsort "[]"] by (cases d) (auto simp: sortZones_def)

lemma mset_sortZones: "zsort_ok zsort \<Longrightarrow> mset (elems (sortZones zsort d)) = mset (elems d)"
  by (simp add: elems_sortZones zsort_okD)

lemma sorted_sortZones: "zsort_ok zsort \<Longrightarrow> sorted (map nsv_address (elems (sortZones zsort d)))"
  by (simp add: elems_sortZones zsort_okD)

lemma keep_wapi_refl [simp]: "keep_wapi zv tv w w"
  by (simp add: keep_wapi_def)

lemma keep_wapi_trans: "keep_wapi zv tv w w' \<Longrightarrow> keep_wapi zv tv w' w'' \<Longrightarrow> keep_wapi zv tv w w''"
  by (simp add: keep_wapi_def)

text \<open>The stale clusters are those whose heartbeat check reports an error.\<close>

definition stale_names :: "(string \<Rightarrow> unit go) \<Rightarrow> string gomap \<Rightarrow> string gomap \<Rightarrow> string set" where
  "stale_names verdict heartbeats m =
     {ns. \<exists>tag e. (tag, ns) \<in> set m \<and> verdict (m_get heartbeats tag) = Err e}"

lemma stale_names_Cons:
  "stale_names vd hb ((tag, ns) # m) =
     (case vd (m_get hb tag) of Err e \<Rightarrow> insert ns (stale_names vd hb m) | _ \<Rightarrow> stale_names vd hb m)"
  by (auto simp: stale_names_def split: go.splits)

lemma drop_stale_spec:
  assumes "\<And>w f. fst (InspectTXTThreshold S (ip_assistant p) w f threshold) = verdict f"
    and "drop_stale S p threshold hb m l w = (Ok l', w')"
  shows "elems l' = filter (\<lambda>n. nsv_name n \<notin> stale_names verdict hb m) (elems l)"
  using assms(2)
proof (induction m arbitrary: l w)
  case (Cons a m)
  obtain tag ns where a: "a = (tag, ns)" by (cases a)
  obtain r w1 where i: "InspectTXTThreshold S (ip_assistant p) w (m_get hb tag) threshold = (r, w1)" by fastforce
  with assms(1) have "verdict (m_get hb tag) = r" by (metis fst_conv)
  with Cons i show ?case
    by (auto simp: a stale_names_Cons split: go.splits intro!: filter_cong)
qed (simp add: stale_names_def)

text \<open>The name servers the provider wants: its own for every exposed address and those of the other
  clusters that are delegated already, without the ones that are stale.\<close>

definition wanted_servers :: "Config \<Rightarrow> string list \<Rightarrow> string set \<Rightarrow> name_server list \<Rightarrow> name_server list" where
  "wanted_servers config addrs stale old =
     filter (\<lambda>n. \<not> (co_splitBrainCheck config \<and> nsv_name n \<in> stale))
       (map (\<lambda>a. \<lparr>nsv_address = a, nsv_name = GetClusterNSName config\<rparr>) addrs
        @ filter (\<lambda>n. nsv_name n \<noteq> GetClusterNSName config) old)"

definition own_servers :: "Config \<Rightarrow> string list \<Rightarrow> name_server slice" where
  "own_servers config addrs = to_slice (map (\<lambda>a. \<lparr>nsv_address = a, nsv_name = GetClusterNSName config\<rparr>) addrs)"

lemma elems_own [simp]:
  "elems (own_servers c addrs) = map (\<lambda>a. \<lparr>nsv_address = a, nsv_name = GetClusterNSName c\<rparr>) addrs"
  unfolding own_servers_def by (rule elems_to_slice)

lemma finish_Ok: "finish r = (Ok (), w') \<longleftrightarrow> r = (None, w')"
  by (cases r) (auto simp: finish_def split: option.splits)

lemma finish_world: "finish r = (x, w') \<Longrightarrow> \<exists>e. r = (e, w')"
  by (cases r) (auto simp: finish_def)

lemma sanitize_mset:
  assumes "zsort_ok zsort"
  shows "mset (elems (sanitizeDelegateZone zsort p local (sortZones zsort d))) =
    mset (elems local) + mset (filter (\<lambda>n. nsv_name n \<noteq> GetClusterNSName (ip_config p)) (elems d))"
  using assms
  by (simp add: sanitizeDelegateZone_def mset_sortZones)

lemma sanitized_current:
  assumes "zsort_ok zsort"
    and "\<And>w f. fst (InspectTXTThreshold S (ip_assistant p) w f t) = verdict f"
    and "(if co_splitBrainCheck (ip_config p)
          then drop_stale S p t hb m (sanitizeDelegateZone zsort p (own_servers (ip_config p) addrs) (sortZones zsort d)) w
          else (Ok (sanitizeDelegateZone zsort p (own_servers (ip_config p) addrs) (sortZones zsort d)), w)) = (Ok l, w')"
  shows "mset (elems l) = mset (wanted_servers (ip_config p) addrs (stale_names verdict hb m) (elems d))"
proof (cases "co_splitBrainCheck (ip_config p)")
  case True
  with assms(3) have "elems l = filter (\<lambda>n. nsv_name n \<notin> stale_names verdict hb m)
      (elems (sanitizeDelegateZone zsort p (own_servers (ip_config p) addrs) (sortZones zsort d)))"
    using drop_stale_spec [OF assms(2)] by simp
  with True sanitize_mset [OF assms(1)] show ?thesis
    by (simp add: wanted_servers_def del: filter_filter)
next
  case False
  with assms(3) sanitize_mset [OF assms(1)] show ?thesis
    by (auto simp: wanted_servers_def)
qed

context kube_api
begin

lemma infobloxConnection_keep: "infobloxConnection S p w = (x, w') \<Longrightarrow> keep_all V w w'"
  by (auto simp: infobloxConnection_def Let_def split: if_splits prod.splits option.splits
      dest!: infoblox_frame(1,2) intro: keep_all_trans)

lemma drop_stale_keep: "drop_stale S p t hb m l w = (x, w') \<Longrightarrow> keep_all V w w'"
proof (induction m arbitrary: l w)
  case (Cons a m)
  then show ?case
    by (cases a) (auto split: prod.splits go.splits dest!: InspectTXTThreshold_keep intro: keep_all_trans)
qed simp

lemma saveHeartbeat_keep: "saveHeartbeatTXTRecord S p w om g = (x, w') \<Longrightarrow> keep_all V w w'"
  by (auto simp: saveHeartbeatTXTRecord_def Let_def split: prod.splits sum.splits option.splits
      dest!: net_frame(4) infoblox_frame(7,8,9) intro: keep_all_trans)

lemma ib_heartbeat_keep: "ib_heartbeat S p w om g = (x, w') \<Longrightarrow> keep_all V w w'"
  by (auto simp: ib_heartbeat_def split: if_splits dest!: finish_world saveHeartbeat_keep)

lemma ib_update_zone_keep:
  assumes "ib_update_zone S ord zsort p w om g d fz = (x, w')"
  shows "keep_all V w w'"
  using assms
  by (auto simp: ib_update_zone_def Let_def split: option.splits if_splits go.splits prod.splits
      dest!: ib_heartbeat_keep drop_stale_keep infoblox_frame(5) intro: keep_all_trans)

lemma ib_delegate_keep: "ib_delegate S ord zsort p w om g d = (x, w') \<Longrightarrow> keep_all V w w'"
  by (auto simp: ib_delegate_def ib_create_zone_def split: prod.splits sum.splits option.splits
      dest!: infoblox_frame(3,4) ib_update_zone_keep ib_heartbeat_keep intro: keep_all_trans)

lemma ib_create_keep: "ib_CreateZoneDelegationForExternalDNS S ord zsort p w g = (x, w') \<Longrightarrow> keep_all V w w'"
  by (auto simp: ib_CreateZoneDelegationForExternalDNS_def Let_def split: prod.splits sum.splits
      dest!: infobloxConnection_keep GslbIngressExposedIPs_keep ib_delegate_keep intro: keep_all_trans)

lemma ib_Finalize_keep: "ib_Finalize S p w g = (x, w') \<Longrightarrow> keep_all V w w'"
  by (auto simp: ib_Finalize_def ib_delete_zone_def ib_delete_txt_def
      split: prod.splits sum.splits option.splits if_splits
      dest!: infobloxConnection_keep infoblox_frame(3,6,7,10) intro: keep_all_trans) (meson keep_all_trans)

end

context infoblox_api
begin

lemma inspect_wapi: "InspectTXTThreshold S r w f t = (x, w') \<Longrightarrow> keep_wapi zv tv w w'"
  by (auto simp: InspectTXTThreshold_def Let_def split: prod.splits sum.splits list.splits rr.splits if_splits
      dest!: net_keep intro: keep_wapi_trans)

lemma drop_stale_wapi: "drop_stale S p t hb m l w = (x, w') \<Longrightarrow> keep_wapi zv tv w w'"
proof (induction m arbitrary: l w)
  case (Cons a m)
  then show ?case
    by (cases a) (auto split: prod.splits go.splits dest!: inspect_wapi intro: keep_wapi_trans)
qed simp

lemma Dig_wapi: "Dig S w e f = (x, w') \<Longrightarrow> keep_wapi zv tv w w'"
  by (auto simp: Dig_def split: if_splits prod.splits option.splits sum.splits
      dest!: net_keep(3,4) intro: keep_wapi_trans)

lemma ingress_ips_wapi: "ingress_ips S e ips acc w = (x, w') \<Longrightarrow> keep_wapi zv tv w w'"
proof (induction ips arbitrary: acc w)
  case (Cons ip ips)
  then show ?case
    by (fastforce simp: Let_def split: prod.splits sum.splits if_splits dest: Dig_wapi intro: keep_wapi_trans)
qed simp

lemma exposed_wapi: "GslbIngressExposedIPs S r w g = (x, w') \<Longrightarrow> keep_wapi zv tv w w'"
  by (auto simp: GslbIngressExposedIPs_def split: prod.splits sum.splits
      dest!: net_keep(5) ingress_ips_wapi intro: keep_wapi_trans)

lemma connection_wapi:
  "infobloxConnection S p w = (Inr om, w') \<Longrightarrow> \<not> co_fakeInfobloxEnabled (ip_config p) \<Longrightarrow>
     om = RealMgr \<and> keep_wapi zv tv w w'"
  by (auto simp: infobloxConnection_def Let_def split: prod.splits option.splits
      dest!: net_keep(6,7) intro: keep_wapi_trans)

lemma heartbeat_stored:
  assumes "ib_heartbeat S p w RealMgr gslb = (Ok (), w')"
  shows "zv w' = zv w"
    "co_splitBrainCheck (ip_config p) \<Longrightarrow>
       tv w' (GetClusterHeartbeatFQDN (ip_config p) (g_name gslb)) = Some (formatTimestamp (fst (n_now S w)))"
  using assms
  by (auto simp: ib_heartbeat_def finish_Ok saveHeartbeatTXTRecord_def Let_def keep_wapi_def
      split: if_splits prod.splits sum.splits option.splits dest!: net_keep(2) get_txt create_txt update_txt)

lemma update_zone_stored:
  assumes zs: "zsort_ok zsort" and z: "zv w (co_dnsZone (ip_config p)) = Some fz"
    and v: "\<And>w f. fst (InspectTXTThreshold S (ip_assistant p) w f
      (int64 (second * st_splitBrainThresholdSeconds (gs_strategy (g_spec gslb))))) = verdict f"
    and ok: "ib_update_zone S ord zsort p w RealMgr gslb (own_servers (ip_config p) addrs) fz = (Ok (), w')"
  shows "\<exists>zd w2. zv w' (co_dnsZone (ip_config p)) = Some zd \<and>
    mset (elems (zd_delegateTo zd)) = mset (wanted_servers (ip_config p) addrs
      (stale_names verdict (GetExternalClusterHeartbeatFQDNs (ip_config p) (g_name gslb))
        (ord (GetExternalClusterNSNames (ip_config p)))) (elems (zd_delegateTo fz))) \<and>
    ib_heartbeat S p w2 RealMgr gslb = (Ok (), w')"
proof -
  let ?c = "ip_config p" and ?found = "sortZones zsort (zd_delegateTo fz)"
  obtain l w1 where l: "(if co_splitBrainCheck ?c
      then drop_stale S p (int64 (second * st_splitBrainThresholdSeconds (gs_strategy (g_spec gslb))))
        (GetExternalClusterHeartbeatFQDNs ?c (g_name gslb)) (ord (GetExternalClusterNSNames ?c))
        (sanitizeDelegateZone zsort p (own_servers ?c addrs) ?found) w
      else (Ok (sanitizeDelegateZone zsort p (own_servers ?c addrs) ?found), w)) = (Ok l, w1)"
    and rest: "(if ?found \<noteq> l then (case ib_updateZoneDelegated S w1 RealMgr (zd_ref fz) l of
          (Some err, w) \<Rightarrow> (Err err, w) | (None, w) \<Rightarrow> ib_heartbeat S p w RealMgr gslb)
        else ib_heartbeat S p w1 RealMgr gslb) = (Ok (), w')"
    using ok zone_ref [OF z]
    by (auto simp: ib_update_zone_def Let_def split: option.splits go.splits prod.splits if_splits)
  have z1: "zv w1 (co_dnsZone ?c) = Some fz"
    using l z drop_stale_wapi by (auto simp: keep_wapi_def split: if_splits)
  have m: "mset (elems l) = mset (wanted_servers ?c addrs
      (stale_names verdict (GetExternalClusterHeartbeatFQDNs ?c (g_name gslb)) (ord (GetExternalClusterNSNames ?c)))
      (elems (zd_delegateTo fz)))"
    by (rule sanitized_current [OF zs v l])
  show ?thesis
  proof (cases "?found = l")
    case True
    with rest have h: "ib_heartbeat S p w1 RealMgr gslb = (Ok (), w')" by simp
    have "mset (elems (zd_delegateTo fz)) = mset (elems l)" using mset_sortZones [OF zs] True by metis
    with z1 m h heartbeat_stored(1) [OF h] show ?thesis by auto
  next
    case False
    with rest obtain w2 where u: "ib_updateZoneDelegated S w1 RealMgr (zd_ref fz) l = (None, w2)"
      and h: "ib_heartbeat S p w2 RealMgr gslb = (Ok (), w')"
      by (auto split: prod.splits option.splits)
    from update_zone [OF u] z1 have "zv w2 (co_dnsZone ?c) = Some (fz\<lparr>zd_delegateTo := l\<rparr>)" by blast
    with m h heartbeat_stored(1) [OF h] show ?thesis by auto
  qed
qed

lemma create_stored:
  assumes zs: "zsort_ok zsort" and real: "\<not> co_fakeInfobloxEnabled (ip_config p)"
    and v: "\<And>w f. fst (InspectTXTThreshold S (ip_assistant p) w f
      (int64 (second * st_splitBrainThresholdSeconds (gs_strategy (g_spec gslb))))) = verdict f"
    and ok: "ib_CreateZoneDelegationForExternalDNS S ord zsort p w gslb = (Ok (), w')"
  shows "\<exists>addrs w1 w2 zd w3. keep_all V w w1 \<and> GslbIngressExposedIPs S (ip_assistant p) w1 gslb = (Inr addrs, w2) \<and>
    zv w' (co_dnsZone (ip_config p)) = Some zd \<and>
    mset (elems (zd_delegateTo zd)) = mset (case zv w (co_dnsZone (ip_config p)) of
        None \<Rightarrow> elems (own_servers (ip_config p) addrs)
      | Some old \<Rightarrow> wanted_servers (ip_config p) addrs
          (stale_names verdict (GetExternalClusterHeartbeatFQDNs (ip_config p) (g_name gslb))
            (ord (GetExternalClusterNSNames (ip_config p)))) (elems (zd_delegateTo old))) \<and>
    ib_heartbeat S p w3 RealMgr gslb = (Ok (), w')"
proof -
  let ?c = "ip_config p"
  from ok [unfolded ib_CreateZoneDelegationForExternalDNS_def Let_def] obtain om w1 where
      c: "infobloxConnection S p w = (Inr om, w1)" and ok1: "(case GslbIngressExposedIPs S (ip_assistant p) w1 gslb of
        (Inl err, w) \<Rightarrow> (Err err, w)
      | (Inr addrs, w) \<Rightarrow> ib_delegate S ord zsort p w om gslb (own_servers ?c addrs)) = (Ok (), w')"
    unfolding ib_delegate_def own_servers_def by (auto elim: sum_stepE)
  then obtain addrs w2 where a: "GslbIngressExposedIPs S (ip_assistant p) w1 gslb = (Inr addrs, w2)"
      and ok2: "ib_delegate S ord zsort p w2 om gslb (own_servers ?c addrs) = (Ok (), w')"
    by (auto elim: sum_stepE)
  have om: "om = RealMgr" using connection_wapi [OF c real] by simp
  from ok2 [unfolded ib_delegate_def om] obtain w3 where
      g: "ib_getZoneDelegated S w2 RealMgr (co_dnsZone ?c) = (Inr (zv w2 (co_dnsZone ?c)), w3)"
    and rest: "(case zv w2 (co_dnsZone ?c) of
        Some findZone \<Rightarrow> ib_update_zone S ord zsort p w3 RealMgr gslb (own_servers ?c addrs) findZone
      | None \<Rightarrow> ib_create_zone S zsort p w3 RealMgr gslb (own_servers ?c addrs)) = (Ok (), w')"
    by (auto elim!: sum_stepE dest: get_zone)
  have k1: "keep_all V w w1" using c by (rule infobloxConnection_keep)
  have k: "zv w3 = zv w" "zv w2 = zv w"
    using connection_wapi [OF c real] exposed_wapi [OF a] get_zone [OF g] by (simp_all add: keep_wapi_def)
  show ?thesis
  proof (cases "zv w (co_dnsZone ?c)")
    case None
    with rest k obtain w4 where cr: "ib_createZoneDelegated S w3 RealMgr (co_dnsZone ?c)
          (sortZones zsort (own_servers ?c addrs)) = (None, w4)" and h: "ib_heartbeat S p w4 RealMgr gslb = (Ok (), w')"
      by (auto simp: ib_create_zone_def elim: opt_stepE)
    from create_zone [OF cr] obtain zd where "zv w4 (co_dnsZone ?c) = Some zd"
        "zd_delegateTo zd = sortZones zsort (own_servers ?c addrs)" by blast
    with None a h k1 heartbeat_stored(1) [OF h] mset_sortZones [OF zs] show ?thesis by fastforce
  next
    case (Some old)
    with rest k have u: "ib_update_zone S ord zsort p w3 RealMgr gslb (own_servers ?c addrs) old = (Ok (), w')"
      and z: "zv w3 (co_dnsZone ?c) = Some old" by simp_all
    from update_zone_stored [OF zs z v u] Some a k1 show ?thesis by force
  qed
qed

lemma finalize_gone:
  assumes real: "\<not> co_fakeInfobloxEnabled (ip_config p)" and ok: "ib_Finalize S p w gslb = (None, w')"
  shows "zv w' (co_dnsZone (ip_config p)) = None \<and> tv w' (GetClusterHeartbeatFQDN (ip_config p) (g_name gslb)) = None"
proof -
  let ?c = "ip_config p" and ?hb = "GetClusterHeartbeatFQDN (ip_config p) (g_name gslb)"
  from ok obtain om zone w1 w2 w3 where c: "infobloxConnection S p w = (Inr om, w1)"
    and g: "ib_getZoneDelegated S w1 om (co_dnsZone ?c) = (Inr zone, w2)"
    and d: "ib_delete_zone S p w2 om zone = (None, w3)" and t: "ib_delete_txt S p w3 om gslb = (None, w')"
    by (auto simp: ib_Finalize_def elim!: sum_stepE opt_stepE)
  have om: "om = RealMgr" using connection_wapi [OF c real] by simp
  have k: "zone = zv w1 (co_dnsZone ?c)" "zv w2 = zv w1" using get_zone [OF g [unfolded om]] by (simp_all add: keep_wapi_def)
  have "zv w3 (co_dnsZone ?c) = None"
  proof (cases zone)
    case (Some zd)
    with d k zone_ref have "ib_deleteZoneDelegated S w2 RealMgr (zd_ref zd) = (None, w3)"
      by (auto simp: om ib_delete_zone_def split: option.splits if_splits)
    from delete_zone [OF this] Some k show ?thesis by auto
  qed (use d k in \<open>simp add: ib_delete_zone_def\<close>)
  moreover from t [unfolded ib_delete_txt_def om] have "zv w' = zv w3 \<and> tv w' ?hb = None"
  proof (cases rule: sum_stepE)
    case (Inr x w4)
    from get_txt [OF Inr(1)] txt_ref delete_txt Inr show ?thesis
      by (cases x) (auto simp: keep_wapi_def)
  qed simp
  ultimately show ?thesis by simp
qed

end

section \<open>Properties\<close>

text \<open>
  C22. Sanitizing the delegated zone: whatever order the unstable sort leaves, the result is sorted
  by address and holds exactly the local servers and the upstream servers of the other clusters;
  sanitizing the result again, with local servers that carry the cluster's own name, changes no
  entry.
\<close>

theorem sanitizeDelegateZone_entries:
  assumes "zsort_ok zsort" and "\<forall>n \<in> set (elems local). nsv_name n = GetClusterNSName (ip_config p)"
  shows "sorted (map nsv_address (elems (sanitizeDelegateZone zsort p local upstream))) \<and>
    mset (elems (sanitizeDelegateZone zsort p local upstream)) =
      mset (elems local) + mset (filter (\<lambda>n. nsv_name n \<noteq> GetClusterNSName (ip_config p)) (elems upstream)) \<and>
    mset (elems (sanitizeDelegateZone zsort p local (sanitizeDelegateZone zsort p local upstream))) =
      mset (elems (sanitizeDelegateZone zsort p local upstream))"
proof -
  have "filter (\<lambda>n. nsv_name n \<noteq> GetClusterNSName (ip_config p)) (elems local) = []"
    using assms(2) by (simp add: filter_empty_conv)
  then have own: "filter_mset (\<lambda>n. nsv_name n \<noteq> GetClusterNSName (ip_config p)) (mset (elems local)) = {#}"
    by (metis mset_filter mset_zero_iff)
  show ?thesis
    by (simp add: sanitizeDelegateZone_def mset_sortZones sorted_sortZones assms(1) own filter_filter_mset)
qed

theorem sanitizeDelegateZone_entries_witness:
  "zsort_ok (sort_key nsv_address) \<and>
   mset (elems (sanitizeDelegateZone (sort_key nsv_address) \<lparr>ip_assistant = sample_assistant, ip_config = sample_config\<rparr>
      (Some [\<lparr>nsv_address = ''10.0.0.9'', nsv_name = GetClusterNSName sample_config\<rparr>])
      (Some [\<lparr>nsv_address = ''10.0.0.7'', nsv_name = ''other''\<rparr>,
             \<lparr>nsv_address = ''10.0.0.8'', nsv_name = GetClusterNSName sample_config\<rparr>]))) =
     {#\<lparr>nsv_address = ''10.0.0.9'', nsv_name = GetClusterNSName sample_config\<rparr>,
       \<lparr>nsv_address = ''10.0.0.7'', nsv_name = ''other''\<rparr>#}"
proof -
  have z: "zsort_ok (sort_key nsv_address)" by (simp add: zsort_ok_def)
  show ?thesis
    using z sanitizeDelegateZone_entries [OF z, of "Some [\<lparr>nsv_address = ''10.0.0.9'', nsv_name = GetClusterNSName sample_config\<rparr>]"
      "\<lparr>ip_assistant = sample_assistant, ip_config = sample_config\<rparr>"
      "Some [\<lparr>nsv_address = ''10.0.0.7'', nsv_name = ''other''\<rparr>,
             \<lparr>nsv_address = ''10.0.0.8'', nsv_name = GetClusterNSName sample_config\<rparr>]"]
    by (simp add: GetClusterNSName_def getNsName_def sample_config_def)
qed


definition sample_gslb :: Gslb where
  "sample_gslb = \<lparr>g_meta = empty_meta\<lparr>om_name := ''g'', om_namespace := ''ns''\<rparr>, g_spec = zero_spec,
     g_status = \<lparr>gst_serviceHealth = [], gst_healthyRecords = [], gst_geoTag = []\<rparr>\<rparr>"

definition sample_ingress :: ingress where
  "sample_ingress = \<lparr>ing_meta = empty_meta\<lparr>om_name := ''g'', om_namespace := ''ns''\<rparr>,
     ing_spec = \<lparr>v1s_ingressClassName = None, v1s_backend = None, v1s_tls = None, v1s_rules = None\<rparr>,
     ing_lb = [\<lparr>lb_ip = ''10.0.0.9'', lb_hostname = []\<rparr>]\<rparr>"

definition sample_infoblox_provider :: InfobloxProvider where
  "sample_infoblox_provider = NewInfobloxDNS (sample_config\<lparr>co_splitBrainCheck := True\<rparr>) sample_assistant"

text \<open>A store with the Ingress and with a zone delegated to a cluster that has no heartbeat.\<close>

definition sample_zone :: zone_delegated where
  "sample_zone = \<lparr>zd_ref = ''r'', zd_fqdn = ''cloud.example.com'', zd_delegateTo =
     Some [\<lparr>nsv_address = ''10.0.0.7'', nsv_name = getNsName ''uk'' ''cloud.example.com'' ''example.com'' ''dns.example.com''\<rparr>]\<rparr>"

definition sample_store :: store where
  "sample_store = empty_store\<lparr>s_ingress := [((''ns'', ''g''), sample_ingress)], s_zones := [sample_zone]\<rparr>"

definition no_heartbeat :: "GslbAssistant \<Rightarrow> string \<Rightarrow> goerr" where
  "no_heartbeat r f = ResourceExpired (sprintf
     ''Can't find split brain TXT record at EdgeDNS server(%s) and record %s ''
     [server_addr (as_edgeDNSServer r) (as_edgeDNSServerPort r), f])"

lemma quiet_inspect: "InspectTXTThreshold quiet_sys r w f t = (Err (no_heartbeat r f), w)"
  by (simp add: InspectTXTThreshold_def quiet_sys_def no_heartbeat_def Let_def del: sprintf.simps)

lemma quiet_drop_stale:
  "drop_stale quiet_sys p t hb m l w = (Ok (fold (\<lambda>(_, ns) l. filterOutDelegateTo l ns) m l), w)"
  by (induction m arbitrary: l) (auto simp: quiet_inspect)

lemma quiet_wapi: "infoblox_api quiet_sys mem_view find_zone (\<lambda>w. map_of (s_txt w))"
  unfolding quiet_sys_def by (rule wapi.infoblox_api_axioms)

lemma sample_ns_names:
  "GetExternalClusterNSNames (sample_config\<lparr>co_splitBrainCheck := True\<rparr>) =
     [(''uk'', getNsName ''uk'' ''cloud.example.com'' ''example.com'' ''dns.example.com''),
      (''eu'', getNsName ''eu'' ''cloud.example.com'' ''example.com'' ''dns.example.com'')]"
  by (simp add: GetExternalClusterNSNames_def sample_config_def m_set_def)

lemma sample_exposed:
  "map_of (s_ingress w) (''ns'', ''g'') = Some sample_ingress \<Longrightarrow>
     GslbIngressExposedIPs quiet_sys r w sample_gslb = (Inr [''10.0.0.9''], tick w)"
  by (simp add: GslbIngressExposedIPs_def sample_gslb_def sample_ingress_def g_namespace_def g_name_def mem_eval)

lemma sample_store_ingress: "map_of (s_ingress sample_store) (''ns'', ''g'') = Some sample_ingress"
  by (simp add: sample_store_def)

lemma sample_provider_sel:
  "ip_config sample_infoblox_provider = sample_config\<lparr>co_splitBrainCheck := True\<rparr>"
  "ip_assistant sample_infoblox_provider = sample_assistant"
  by (simp_all add: sample_infoblox_provider_def NewInfobloxDNS_def)

lemma sample_connection: "infobloxConnection quiet_sys sample_infoblox_provider w = (Inr RealMgr, tick w)"
  by (simp add: infobloxConnection_def sample_provider_sel sample_config_def mem_eval)

lemma sample_heartbeat: "fst (ib_heartbeat quiet_sys sample_infoblox_provider w om sample_gslb) = Ok ()"
  by (simp add: ib_heartbeat_def sample_provider_sel finish_def saveHeartbeatTXTRecord_def Let_def mem_eval)

lemma sample_find: "s_zones w = s_zones sample_store \<Longrightarrow> find_zone w (co_dnsZone sample_config) = Some sample_zone"
  by (simp add: find_zone_def sample_store_def sample_config_def sample_zone_def)

lemma quiet_update: "\<exists>w'. ib_updateZoneDelegated quiet_sys w om r ns = (None, w')"
  by (simp add: mem_eval)

lemma sample_update_Ok:
  "fst (ib_update_zone quiet_sys ord zsort sample_infoblox_provider w om sample_gslb d sample_zone) = Ok ()"
proof -
  have "checkZoneDelegated sample_infoblox_provider sample_zone = None" "zd_ref sample_zone \<noteq> []"
    by (simp_all add: checkZoneDelegated_def sample_provider_sel sample_config_def sample_zone_def)
  then show ?thesis
    using quiet_update [of w om "zd_ref sample_zone"]
    by (auto simp: ib_update_zone_def sample_provider_sel quiet_drop_stale sample_heartbeat Let_def
        split: prod.splits option.splits) (metis option.distinct(1) prod.inject)
qed

lemma sample_delegation_Ok:
  "fst (ib_CreateZoneDelegationForExternalDNS quiet_sys (\<lambda>m. m) (sort_key nsv_address) sample_infoblox_provider
     sample_store sample_gslb) = Ok ()"
proof -
  have "\<exists>w'. ib_getZoneDelegated quiet_sys w om (co_dnsZone sample_config) = (Inr (Some sample_zone), w')"
    if "s_zones w = s_zones sample_store" for w om
    using sample_find [OF that] by (simp add: mem_eval)
  from this [of "tick (tick sample_store)" RealMgr] show ?thesis
    using sample_update_Ok
    by (auto simp: ib_CreateZoneDelegationForExternalDNS_def sample_connection sample_exposed sample_store_ingress ib_delegate_def
        sample_provider_sel)
qed


text \<open>
  C21. After the Infoblox provider finalized a Gslb without error, the delegated zone and the
  cluster's heartbeat record are gone, whether they existed or not.
\<close>

theorem infoblox_finalized:
  assumes "infoblox_api S V zv tv" and "\<not> co_fakeInfobloxEnabled (ip_config p)"
    and "ib_Finalize S p w gslb = (None, w')"
  shows "zv w' (co_dnsZone (ip_config p)) = None \<and>
    tv w' (GetClusterHeartbeatFQDN (ip_config p) (g_name gslb)) = None"
  by (rule infoblox_api.finalize_gone [OF assms])

lemma sample_finalize_None: "fst (ib_Finalize quiet_sys sample_infoblox_provider sample_store sample_gslb) = None"
proof -
  have z: "find_zone w (co_dnsZone sample_config) = Some sample_zone" if "s_zones w = s_zones sample_store" for w
    using that by (rule sample_find)
  have "checkZoneDelegated sample_infoblox_provider sample_zone = None" "zd_ref sample_zone = ''r''"
    by (simp_all add: checkZoneDelegated_def sample_provider_sel sample_config_def sample_zone_def)
  then show ?thesis
    using z [of "tick sample_store"]
    by (simp add: ib_Finalize_def sample_connection [unfolded quiet_sys_def] sample_provider_sel ib_delete_zone_def ib_delete_txt_def
        quiet_sys_def mem_write_def fault_at_def Let_def)
qed

theorem infoblox_finalized_witness:
  "find_zone sample_store ''cloud.example.com'' \<noteq> None \<and>
   find_zone (snd (ib_Finalize quiet_sys sample_infoblox_provider sample_store sample_gslb)) ''cloud.example.com'' = None"
proof -
  have ok: "ib_Finalize quiet_sys sample_infoblox_provider sample_store sample_gslb =
      (None, snd (ib_Finalize quiet_sys sample_infoblox_provider sample_store sample_gslb))"
    using sample_finalize_None by (metis prod.collapse)
  have real: "\<not> co_fakeInfobloxEnabled (ip_config sample_infoblox_provider)"
    by (simp add: sample_provider_sel sample_config_def)
  have "co_dnsZone (ip_config sample_infoblox_provider) = ''cloud.example.com''"
    by (simp add: sample_provider_sel sample_config_def)
  with infoblox_finalized [OF quiet_wapi real ok] show ?thesis
    using sample_find [of sample_store] by (simp add: sample_config_def)
qed

end
