(* ===== verification/Providers.thy ===== *)
theory Providers
  imports Infoblox
begin

text \<open>
  \<^verbatim>\<open>controllers/providers/dns\<close>: the providers without Infoblox (\<^verbatim>\<open>empty.go\<close>, \<^verbatim>\<open>external.go\<close>), the
  factory (\<^verbatim>\<open>factory.go\<close>) and the interface \<^verbatim>\<open>dns.Provider\<close>. A value of the interface type is
  one of the three structs; a call through the interface is the case distinction over them.

  The locale \<open>dns_provider\<close> is the contract the controller relies on. It is proved for the
  calls through the interface, hence for all three providers, on every platform that satisfies
  \<open>kube_api\<close>.
\<close>

section \<open>The provider without edge DNS\<close>

record EmptyDNSProvider =
  em_assistant :: GslbAssistant
  em_config :: Config

definition NewEmptyDNS :: "Config \<Rightarrow> GslbAssistant \<Rightarrow> EmptyDNSProvider" where
  "NewEmptyDNS config assistant = \<lparr>em_assistant = assistant, em_config = config\<rparr>"

section \<open>The provider on top of ExternalDNS\<close>

definition externalDNSTypeNS1 :: string where "externalDNSTypeNS1 = ''ns1''"
definition externalDNSTypeRoute53 :: string where "externalDNSTypeRoute53 = ''route53''"

record ExternalDNSProvider =
  xd_assistant :: GslbAssistant
  xd_dnsType :: string
  xd_config :: Config
  xd_endpointName :: string

definition NewExternalDNS :: "string \<Rightarrow> Config \<Rightarrow> GslbAssistant \<Rightarrow> ExternalDNSProvider" where
  "NewExternalDNS dnsType config assistant =
     \<lparr>xd_assistant = assistant, xd_dnsType = dnsType, xd_config = config,
      xd_endpointName = sprintf ''k8gb-ns-%s'' [dnsType]\<rparr>"

definition xd_NSServerList :: "range_order \<Rightarrow> Config \<Rightarrow> string list" where
  "xd_NSServerList ord config =
     sort (GetClusterNSName config # map snd (ord (GetExternalClusterNSNames config)))"

definition xd_NSRecord :: "range_order \<Rightarrow> ExternalDNSProvider \<Rightarrow> Gslb \<Rightarrow> string list \<Rightarrow> dns_endpoint" where
  "xd_NSRecord ord p gslb NSServerIPs =
     (let ttl = st_dnsTtlSeconds (gs_strategy (g_spec gslb)); config = xd_config p
      in \<lparr>de_meta = empty_meta\<lparr>om_name := xd_endpointName p, om_namespace := co_k8gbNamespace config,
            om_annotations := Some [(''k8gb.absa.oss/dnstype'', xd_dnsType p)]\<rparr>,
          de_endpoints =
            [\<lparr>ep_dnsName = co_dnsZone config, ep_recordTTL = ttl, ep_recordType = ''NS'',
              ep_targets = xd_NSServerList ord config, ep_labels = None\<rparr>,
             \<lparr>ep_dnsName = GetClusterNSName config, ep_recordTTL = ttl, ep_recordType = ''A'',
              ep_targets = NSServerIPs, ep_labels = None\<rparr>]\<rparr>)"

definition xd_CreateZoneDelegationForExternalDNS ::
    "'w sys \<Rightarrow> range_order \<Rightarrow> ExternalDNSProvider \<Rightarrow> 'w \<Rightarrow> Gslb \<Rightarrow> goerr option \<times> 'w" where
  "xd_CreateZoneDelegationForExternalDNS S ord p w gslb =
     (case (if co_coreDNSExposed (xd_config p) then CoreDNSExposedIPs S (xd_assistant p) w
            else GslbIngressExposedIPs S (xd_assistant p) w gslb) of
        (Inl err, w) \<Rightarrow> (Some err, w)
      | (Inr NSServerIPs, w) \<Rightarrow>
          SaveDNSEndpoint S (xd_assistant p) w (co_k8gbNamespace (xd_config p)) (xd_NSRecord ord p gslb NSServerIPs))"

section \<open>The interface\<close>

datatype Provider =
    EmptyProvider EmptyDNSProvider
  | ExternalProvider ExternalDNSProvider
  | IBProvider InfobloxProvider

fun pr_assistant :: "Provider \<Rightarrow> GslbAssistant" where
  "pr_assistant (EmptyProvider p) = em_assistant p"
| "pr_assistant (ExternalProvider p) = xd_assistant p"
| "pr_assistant (IBProvider p) = ip_assistant p"

fun pr_config :: "Provider \<Rightarrow> Config" where
  "pr_config (EmptyProvider p) = em_config p"
| "pr_config (ExternalProvider p) = xd_config p"
| "pr_config (IBProvider p) = ip_config p"

definition em_CreateZoneDelegationForExternalDNS :: "EmptyDNSProvider \<Rightarrow> 'w \<Rightarrow> Gslb \<Rightarrow> goerr option \<times> 'w" where
  "em_CreateZoneDelegationForExternalDNS p w gslb = (None, w)"

fun pr_CreateZoneDelegationForExternalDNS ::
    "'w sys \<Rightarrow> range_order \<Rightarrow> zone_sort \<Rightarrow> Provider \<Rightarrow> 'w \<Rightarrow> Gslb \<Rightarrow> unit go \<times> 'w" where
  "pr_CreateZoneDelegationForExternalDNS S ord zsort (EmptyProvider p) w gslb =
     finish (em_CreateZoneDelegationForExternalDNS p w gslb)"
| "pr_CreateZoneDelegationForExternalDNS S ord zsort (ExternalProvider p) w gslb =
     finish (xd_CreateZoneDelegationForExternalDNS S ord p w gslb)"
| "pr_CreateZoneDelegationForExternalDNS S ord zsort (IBProvider p) w gslb =
     ib_CreateZoneDelegationForExternalDNS S ord zsort p w gslb"

text \<open>The operations that only pass on to the assistant, one per provider.\<close>

definition em_GslbIngressExposedIPs :: "'w sys \<Rightarrow> EmptyDNSProvider \<Rightarrow> 'w \<Rightarrow> Gslb \<Rightarrow> (goerr + string list) \<times> 'w" where
  "em_GslbIngressExposedIPs S p w gslb = GslbIngressExposedIPs S (em_assistant p) w gslb"

definition xd_GslbIngressExposedIPs :: "'w sys \<Rightarrow> ExternalDNSProvider \<Rightarrow> 'w \<Rightarrow> Gslb \<Rightarrow> (goerr + string list) \<times> 'w" where
  "xd_GslbIngressExposedIPs S p w gslb = GslbIngressExposedIPs S (xd_assistant p) w gslb"

definition ib_GslbIngressExposedIPs :: "'w sys \<Rightarrow> InfobloxProvider \<Rightarrow> 'w \<Rightarrow> Gslb \<Rightarrow> (goerr + string list) \<times> 'w" where
  "ib_GslbIngressExposedIPs S p w gslb = GslbIngressExposedIPs S (ip_assistant p) w gslb"

definition em_GetExternalTargets :: "'w sys \<Rightarrow> range_order \<Rightarrow> EmptyDNSProvider \<Rightarrow> 'w \<Rightarrow> string \<Rightarrow> string list go \<times> 'w" where
  "em_GetExternalTargets S ord p w host =
     GetExternalTargets S ord (em_assistant p) w host (GetExternalClusterNSNames (em_config p))"

definition xd_GetExternalTargets :: "'w sys \<Rightarrow> range_order \<Rightarrow> ExternalDNSProvider \<Rightarrow> 'w \<Rightarrow> string \<Rightarrow> string list go \<times> 'w" where
  "xd_GetExternalTargets S ord p w host =
     GetExternalTargets S ord (xd_assistant p) w host (GetExternalClusterNSNames (xd_config p))"

definition ib_GetExternalTargets :: "'w sys \<Rightarrow> range_order \<Rightarrow> InfobloxProvider \<Rightarrow> 'w \<Rightarrow> string \<Rightarrow> string list go \<times> 'w" where
  "ib_GetExternalTargets S ord p w host =
     GetExternalTargets S ord (ip_assistant p) w host (GetExternalClusterNSNames (ip_config p))"

definition em_SaveDNSEndpoint :: "'w sys \<Rightarrow> EmptyDNSProvider \<Rightarrow> 'w \<Rightarrow> Gslb \<Rightarrow> dns_endpoint \<Rightarrow> goerr option \<times> 'w" where
  "em_SaveDNSEndpoint S p w gslb i = SaveDNSEndpoint S (em_assistant p) w (g_namespace gslb) i"

definition xd_SaveDNSEndpoint :: "'w sys \<Rightarrow> ExternalDNSProvider \<Rightarrow> 'w \<Rightarrow> Gslb \<Rightarrow> dns_endpoint \<Rightarrow> goerr option \<times> 'w" where
  "xd_SaveDNSEndpoint S p w gslb i = SaveDNSEndpoint S (xd_assistant p) w (g_namespace gslb) i"

definition ib_SaveDNSEndpoint :: "'w sys \<Rightarrow> InfobloxProvider \<Rightarrow> 'w \<Rightarrow> Gslb \<Rightarrow> dns_endpoint \<Rightarrow> goerr option \<times> 'w" where
  "ib_SaveDNSEndpoint S p w gslb i = SaveDNSEndpoint S (ip_assistant p) w (g_namespace gslb) i"

fun pr_GslbIngressExposedIPs :: "'w sys \<Rightarrow> Provider \<Rightarrow> 'w \<Rightarrow> Gslb \<Rightarrow> (goerr + string list) \<times> 'w" where
  "pr_GslbIngressExposedIPs S (EmptyProvider p) w gslb = em_GslbIngressExposedIPs S p w gslb"
| "pr_GslbIngressExposedIPs S (ExternalProvider p) w gslb = xd_GslbIngressExposedIPs S p w gslb"
| "pr_GslbIngressExposedIPs S (IBProvider p) w gslb = ib_GslbIngressExposedIPs S p w gslb"

fun pr_GetExternalTargets :: "'w sys \<Rightarrow> range_order \<Rightarrow> Provider \<Rightarrow> 'w \<Rightarrow> string \<Rightarrow> string list go \<times> 'w" where
  "pr_GetExternalTargets S ord (EmptyProvider p) w host = em_GetExternalTargets S ord p w host"
| "pr_GetExternalTargets S ord (ExternalProvider p) w host = xd_GetExternalTargets S ord p w host"
| "pr_GetExternalTargets S ord (IBProvider p) w host = ib_GetExternalTargets S ord p w host"

fun pr_SaveDNSEndpoint :: "'w sys \<Rightarrow> Provider \<Rightarrow> 'w \<Rightarrow> Gslb \<Rightarrow> dns_endpoint \<Rightarrow> goerr option \<times> 'w" where
  "pr_SaveDNSEndpoint S (EmptyProvider p) w gslb i = em_SaveDNSEndpoint S p w gslb i"
| "pr_SaveDNSEndpoint S (ExternalProvider p) w gslb i = xd_SaveDNSEndpoint S p w gslb i"
| "pr_SaveDNSEndpoint S (IBProvider p) w gslb i = ib_SaveDNSEndpoint S p w gslb i"

definition em_Finalize :: "'w sys \<Rightarrow> EmptyDNSProvider \<Rightarrow> 'w \<Rightarrow> Gslb \<Rightarrow> goerr option \<times> 'w" where
  "em_Finalize S p w gslb = RemoveEndpoint S (em_assistant p) w (g_name gslb)"

definition xd_Finalize :: "'w sys \<Rightarrow> ExternalDNSProvider \<Rightarrow> 'w \<Rightarrow> Gslb \<Rightarrow> goerr option \<times> 'w" where
  "xd_Finalize S p w gslb = RemoveEndpoint S (xd_assistant p) w (xd_endpointName p)"

fun pr_Finalize :: "'w sys \<Rightarrow> Provider \<Rightarrow> 'w \<Rightarrow> Gslb \<Rightarrow> goerr option \<times> 'w" where
  "pr_Finalize S (EmptyProvider p) w gslb = em_Finalize S p w gslb"
| "pr_Finalize S (ExternalProvider p) w gslb = xd_Finalize S p w gslb"
| "pr_Finalize S (IBProvider p) w gslb = ib_Finalize S p w gslb"

definition toUpper_char :: "char \<Rightarrow> char" where
  "toUpper_char c =
     (if 97 \<le> (of_char c :: nat) \<and> (of_char c :: nat) \<le> 122 then char_of (of_char c - 32 :: nat) else c)"

definition xd_String :: "ExternalDNSProvider \<Rightarrow> string" where
  "xd_String p = map toUpper_char (xd_dnsType p)"

definition em_String :: "EmptyDNSProvider \<Rightarrow> string" where
  "em_String p = ''EMPTY''"

definition ib_String :: "InfobloxProvider \<Rightarrow> string" where
  "ib_String p = ''Infoblox''"

declare em_String_def [simp] ib_String_def [simp]

fun pr_String :: "Provider \<Rightarrow> string" where
  "pr_String (EmptyProvider p) = em_String p"
| "pr_String (ExternalProvider p) = xd_String p"
| "pr_String (IBProvider p) = ib_String p"

section \<open>The factory\<close>

record 'w ProviderFactory =
  pf_config :: Config
  pf_client :: "'w sys option"

definition NewDNSProviderFactory :: "'w sys option \<Rightarrow> Config \<Rightarrow> 'w ProviderFactory \<times> goerr option" where
  "NewDNSProviderFactory client config =
     (\<lparr>pf_config = config, pf_client = client\<rparr>,
      if client = None then Some (Errorf ''nil client'' []) else None)"

definition factory_Provider :: "'w ProviderFactory \<Rightarrow> Provider" where
  "factory_Provider f =
     (let c = pf_config f;
          a = NewGslbAssistant (co_k8gbNamespace c) (co_edgeDNSServer c) (co_edgeDNSServerPort c)
      in case co_edgeDNSType c of
           DNSTypeNS1 \<Rightarrow> ExternalProvider (NewExternalDNS externalDNSTypeNS1 c a)
         | DNSTypeRoute53 \<Rightarrow> ExternalProvider (NewExternalDNS externalDNSTypeRoute53 c a)
         | DNSTypeInfoblox \<Rightarrow> IBProvider (NewInfobloxDNS c a)
         | _ \<Rightarrow> EmptyProvider (NewEmptyDNS c a))"

section \<open>The contract of a provider\<close>

text \<open>Outside the namespace of k8gb itself, only \<^verbatim>\<open>SaveDNSEndpoint\<close> changes DNSEndpoints.\<close>

definition keep_dns_outside :: "'w view \<Rightarrow> string \<Rightarrow> 'w \<Rightarrow> 'w \<Rightarrow> bool" where
  "keep_dns_outside V ns w w' \<longleftrightarrow> (\<forall>k. fst k \<noteq> ns \<longrightarrow> v_dns V w' k = v_dns V w k)"

locale dns_provider =
  fixes V :: "'w view" and k8gb_ns :: string
    and create :: "'w \<Rightarrow> Gslb \<Rightarrow> unit go \<times> 'w"
    and exposed_ips :: "'w \<Rightarrow> Gslb \<Rightarrow> (goerr + string list) \<times> 'w"
    and targets :: "'w \<Rightarrow> string \<Rightarrow> string list go \<times> 'w"
    and save :: "'w \<Rightarrow> Gslb \<Rightarrow> dns_endpoint \<Rightarrow> goerr option \<times> 'w"
    and finalize :: "'w \<Rightarrow> Gslb \<Rightarrow> goerr option \<times> 'w"
  assumes exposed_ips_keep: "exposed_ips w g = (ri, w') \<Longrightarrow> keep_all V w w'"
    and targets_keep: "targets w h = (rt, w') \<Longrightarrow> keep_all V w w'"
    and create_frame: "create w g = (rc, w') \<Longrightarrow> dns_frame V w w'"
    and create_outside: "create w g = (rc, w') \<Longrightarrow> keep_dns_outside V k8gb_ns w w'"
    and finalize_frame: "finalize w g = (rf, w') \<Longrightarrow> dns_frame V w w'"
    and finalize_outside: "finalize w g = (rf, w') \<Longrightarrow> keep_dns_outside V k8gb_ns w w'"
    and save_frame: "save w g i = (rs, w') \<Longrightarrow> dns_frame V w w'"
    and save_stored: "save w g i = (None, w') \<Longrightarrow> om_namespace (de_meta i) = g_namespace g \<Longrightarrow>
      \<exists>d. same_record i d \<and> v_dns V w' = (v_dns V w)(meta_key (de_meta i) \<mapsto> d)"
begin

lemma save_create:
  assumes "save w g i = (None, w1)" "create w1 g = (rc, w2)"
    and "om_namespace (de_meta i) = g_namespace g" "g_namespace g \<noteq> k8gb_ns"
  shows "\<exists>d. same_record i d \<and> v_dns V w2 (meta_key (de_meta i)) = Some d"
  using save_stored [OF assms(1,3)] create_outside [OF assms(2)] assms(3,4)
  by (auto simp: keep_dns_outside_def meta_key_def)

end

section \<open>Lemmas\<close>

lemma keep_dns_outside_all: "keep_all V w w' \<Longrightarrow> keep_dns_outside V ns w w'"
  by (simp add: keep_dns_outside_def keep_defs)

text \<open>Provider values as the factory makes them: the assistant works in the configured namespace.\<close>

definition provider_ok :: "Provider \<Rightarrow> bool" where
  "provider_ok p \<longleftrightarrow> as_k8gbNamespace (pr_assistant p) = co_k8gbNamespace (pr_config p)"

lemma factory_provider_ok: "provider_ok (factory_Provider f)"
  by (auto simp: factory_Provider_def provider_ok_def NewEmptyDNS_def NewExternalDNS_def NewInfobloxDNS_def
      NewGslbAssistant_def Let_def split: EdgeDNSType.splits)

lemma pr_GslbIngressExposedIPs_eq: "pr_GslbIngressExposedIPs S p w g = GslbIngressExposedIPs S (pr_assistant p) w g"
  by (cases p) (simp_all add: em_GslbIngressExposedIPs_def xd_GslbIngressExposedIPs_def ib_GslbIngressExposedIPs_def)

lemma pr_GetExternalTargets_eq:
  "pr_GetExternalTargets S ord p w h = GetExternalTargets S ord (pr_assistant p) w h (GetExternalClusterNSNames (pr_config p))"
  by (cases p) (simp_all add: em_GetExternalTargets_def xd_GetExternalTargets_def ib_GetExternalTargets_def)

lemma pr_SaveDNSEndpoint_eq: "pr_SaveDNSEndpoint S p w g i = SaveDNSEndpoint S (pr_assistant p) w (g_namespace g) i"
  by (cases p) (simp_all add: em_SaveDNSEndpoint_def xd_SaveDNSEndpoint_def ib_SaveDNSEndpoint_def)

lemma factory_pr_config [simp]: "pr_config (factory_Provider f) = pf_config f"
  by (auto simp: factory_Provider_def NewEmptyDNS_def NewExternalDNS_def NewInfobloxDNS_def Let_def
      split: EdgeDNSType.splits)

context kube_api
begin

lemma xd_create_frame: "xd_CreateZoneDelegationForExternalDNS S ord p w g = (x, w') \<Longrightarrow> dns_frame V w w'"
  unfolding xd_CreateZoneDelegationForExternalDNS_def
  by (auto split: if_splits prod.splits sum.splits
      dest!: CoreDNSExposedIPs_keep GslbIngressExposedIPs_keep SaveDNSEndpoint_frame
      intro: dns_frame_all dns_frame_trans)

lemma xd_create_stored:
  assumes "xd_CreateZoneDelegationForExternalDNS S ord p w g = (None, w')"
  shows "\<exists>w1 ips d. (if co_coreDNSExposed (xd_config p) then CoreDNSExposedIPs S (xd_assistant p) w
      else GslbIngressExposedIPs S (xd_assistant p) w g) = (Inr ips, w1) \<and>
    same_record (xd_NSRecord ord p g ips) d \<and>
    v_dns V w' = (v_dns V w)((co_k8gbNamespace (xd_config p), xd_endpointName p) \<mapsto> d)"
proof -
  from assms obtain ips w2 where ips: "(if co_coreDNSExposed (xd_config p) then CoreDNSExposedIPs S (xd_assistant p) w
      else GslbIngressExposedIPs S (xd_assistant p) w g) = (Inr ips, w2)"
    and s: "SaveDNSEndpoint S (xd_assistant p) w2 (co_k8gbNamespace (xd_config p)) (xd_NSRecord ord p g ips) = (None, w')"
    unfolding xd_CreateZoneDelegationForExternalDNS_def by (auto elim: sum_stepE)
  have "keep_all V w w2"
    using ips CoreDNSExposedIPs_keep GslbIngressExposedIPs_keep by (auto split: if_splits)
  then have "v_dns V w2 = v_dns V w" by (simp add: keep_defs)
  moreover have "om_namespace (de_meta (xd_NSRecord ord p g ips)) = co_k8gbNamespace (xd_config p)"
      "meta_key (de_meta (xd_NSRecord ord p g ips)) = (co_k8gbNamespace (xd_config p), xd_endpointName p)"
    by (simp_all add: xd_NSRecord_def Let_def meta_key_def)
  ultimately show ?thesis using ips SaveDNSEndpoint_stored [OF s] by fastforce
qed

lemma xd_create_other:
  assumes "xd_CreateZoneDelegationForExternalDNS S ord p w g = (x, w')"
    and "k \<noteq> (co_k8gbNamespace (xd_config p), xd_endpointName p)"
  shows "v_dns V w' k = v_dns V w k"
  using assms(1) [unfolded xd_CreateZoneDelegationForExternalDNS_def]
proof (cases rule: sum_stepE)
  case (Inl e w1)
  then have "keep_all V w w1" using CoreDNSExposedIPs_keep GslbIngressExposedIPs_keep by (auto split: if_splits)
  with Inl show ?thesis by (simp add: keep_defs)
next
  case (Inr ips w1)
  then have "keep_all V w w1" using CoreDNSExposedIPs_keep GslbIngressExposedIPs_keep by (auto split: if_splits)
  moreover have "v_dns V w' k = v_dns V w1 k"
    using SaveDNSEndpoint_other [OF Inr(2)] assms(2) by (simp add: xd_NSRecord_def Let_def meta_key_def)
  ultimately show ?thesis by (simp add: keep_defs)
qed

lemma pr_create_frame: "pr_CreateZoneDelegationForExternalDNS S ord zsort p w g = (x, w') \<Longrightarrow> dns_frame V w w'"
  by (cases p) (auto simp: em_CreateZoneDelegationForExternalDNS_def dest!: finish_world xd_create_frame ib_create_keep
      intro: dns_frame_all)

lemma pr_create_outside:
  assumes "pr_CreateZoneDelegationForExternalDNS S ord zsort p w g = (x, w')"
  shows "keep_dns_outside V (co_k8gbNamespace (pr_config p)) w w'"
proof (cases p)
  case (ExternalProvider q)
  with assms show ?thesis
    by (auto simp: keep_dns_outside_def dest!: finish_world intro!: xd_create_other)
qed (use assms in \<open>auto simp: em_CreateZoneDelegationForExternalDNS_def dest!: finish_world
    dest: ib_create_keep intro: keep_dns_outside_all\<close>)

lemma pr_finalize_frame: "pr_Finalize S p w g = (x, w') \<Longrightarrow> dns_frame V w w'"
  by (cases p) (auto simp: em_Finalize_def xd_Finalize_def dest: RemoveEndpoint_frame ib_Finalize_keep intro: dns_frame_all)

lemma pr_finalize_outside:
  assumes "provider_ok p" and "pr_Finalize S p w g = (x, w')"
  shows "keep_dns_outside V (co_k8gbNamespace (pr_config p)) w w'"
proof (cases p)
  case (IBProvider q)
  with assms show ?thesis by (auto dest: ib_Finalize_keep intro: keep_dns_outside_all)
qed (use assms in \<open>auto simp: em_Finalize_def xd_Finalize_def provider_ok_def keep_dns_outside_def
    intro!: RemoveEndpoint_other\<close>)

end

locale kube_api_provider = kube_api S V for S :: "'w sys" and V :: "'w view" +
  fixes p :: Provider
  assumes ok: "provider_ok p"

sublocale kube_api_provider \<subseteq> prov: dns_provider V "co_k8gbNamespace (pr_config p)"
    "pr_CreateZoneDelegationForExternalDNS S ord zsort p" "pr_GslbIngressExposedIPs S p"
    "pr_GetExternalTargets S ord p" "pr_SaveDNSEndpoint S p" "pr_Finalize S p"
  for ord zsort
  by unfold_locales
    (auto simp: pr_GslbIngressExposedIPs_eq pr_GetExternalTargets_eq pr_SaveDNSEndpoint_eq
      intro: asst.exposed_ips_keep asst.targets_keep pr_create_frame pr_create_outside pr_finalize_frame
        pr_finalize_outside [OF ok] SaveDNSEndpoint_frame SaveDNSEndpoint_stored)

interpretation mem_prov: kube_api_provider "mem_sys f net dig" mem_view "factory_Provider pf"
  by unfold_locales (rule factory_provider_ok)

text \<open>
  The factory makes the provider the configuration enables: NS1, Route53 or Infoblox when it is
  the only one enabled, and the empty provider when none or several are.
\<close>

lemma factory_by_settings:
  assumes "co_edgeDNSType c = fst (getEdgeDNSType c)"
  shows "pr_String (factory_Provider (fst (NewDNSProviderFactory client c))) =
    (if co_ns1Enabled c \<and> \<not> co_route53Enabled c \<and> \<not> isNotEmpty (ib_host (co_infoblox c)) then ''NS1''
     else if \<not> co_ns1Enabled c \<and> co_route53Enabled c \<and> \<not> isNotEmpty (ib_host (co_infoblox c)) then ''ROUTE53''
     else if \<not> co_ns1Enabled c \<and> \<not> co_route53Enabled c \<and> isNotEmpty (ib_host (co_infoblox c)) then ''Infoblox''
     else ''EMPTY'')"
proof -
  have u: "map toUpper_char externalDNSTypeNS1 = ''NS1''" "map toUpper_char externalDNSTypeRoute53 = ''ROUTE53''"
    by code_simp+
  show ?thesis
    using assms u
    by (cases "co_ns1Enabled c"; cases "co_route53Enabled c"; cases "isNotEmpty (ib_host (co_infoblox c))")
      (simp_all add: getEdgeDNSType_def factory_Provider_def NewDNSProviderFactory_def
        NewExternalDNS_def xd_String_def Let_def)
qed

section \<open>Properties\<close>

text \<open>
  C18. When the ExternalDNS provider reports success, the DNSEndpoint that delegates the zone is
  stored: its NS record lists the name servers of this and of every external cluster in sorted
  order, whatever order the map is visited in, and its A record holds the exposed addresses.
  Nothing else changed.
\<close>

theorem external_delegation:
  assumes "kube_api S V" and "range_ok ord" and "xd_CreateZoneDelegationForExternalDNS S ord p w gslb = (None, w')"
  shows "\<exists>d ips ns w1. (if co_coreDNSExposed (xd_config p) then CoreDNSExposedIPs S (xd_assistant p) w
      else GslbIngressExposedIPs S (xd_assistant p) w gslb) = (Inr ips, w1) \<and>
    v_dns V w' = (v_dns V w)((co_k8gbNamespace (xd_config p), xd_endpointName p) \<mapsto> d) \<and>
    map (\<lambda>e. (ep_dnsName e, ep_recordType e, ep_targets e)) (de_endpoints d) =
      [(co_dnsZone (xd_config p), ''NS'', ns), (GetClusterNSName (xd_config p), ''A'', ips)] \<and>
    sorted ns \<and> mset ns = add_mset (GetClusterNSName (xd_config p))
      (mset (map snd (GetExternalClusterNSNames (xd_config p)))) \<and>
    keep_gslb V w w' \<and> keep_ingress V w w' \<and> keep_work V w w'"
proof -
  let ?c = "xd_config p"
  from kube_api.xd_create_stored [OF assms(1,3)] obtain ips d w1 where
      i: "(if co_coreDNSExposed ?c then CoreDNSExposedIPs S (xd_assistant p) w
        else GslbIngressExposedIPs S (xd_assistant p) w gslb) = (Inr ips, w1)"
    and d: "same_record (xd_NSRecord ord p gslb ips) d" "v_dns V w' = (v_dns V w)((co_k8gbNamespace ?c, xd_endpointName p) \<mapsto> d)" by blast
  have e: "map (\<lambda>e. (ep_dnsName e, ep_recordType e, ep_targets e)) (de_endpoints d) =
      [(co_dnsZone ?c, ''NS'', xd_NSServerList ord ?c), (GetClusterNSName ?c, ''A'', ips)]"
    using d(1) by (simp add: same_record_def xd_NSRecord_def Let_def)
  have "mset (map snd (ord (GetExternalClusterNSNames ?c))) = mset (map snd (GetExternalClusterNSNames ?c))"
    using range_okD [OF assms(2), of "GetExternalClusterNSNames ?c"] by (metis mset_map)
  then have "mset (xd_NSServerList ord ?c) = add_mset (GetClusterNSName ?c) (mset (map snd (GetExternalClusterNSNames ?c)))"
    unfolding xd_NSServerList_def by simp
  moreover have "sorted (xd_NSServerList ord ?c)" unfolding xd_NSServerList_def by (rule sorted_sort)
  ultimately show ?thesis
    using i d(2) e kube_api.xd_create_frame [OF assms(1,3), unfolded dns_frame_def]
    by (intro exI [of _ d] exI [of _ ips] exI [of _ "xd_NSServerList ord ?c"] exI [of _ w1]) simp
qed

definition sample_external :: ExternalDNSProvider where
  "sample_external = NewExternalDNS externalDNSTypeNS1 sample_config sample_assistant"

theorem external_delegation_witness:
  "let r = xd_CreateZoneDelegationForExternalDNS quiet_sys rev sample_external sample_store sample_gslb
   in fst r = None \<and> (\<exists>d. v_dns mem_view (snd r) (''k8gb'', ''k8gb-ns-ns1'') = Some d)"
proof -
  define r where "r = xd_CreateZoneDelegationForExternalDNS quiet_sys rev sample_external sample_store sample_gslb"
  have x: "xd_config sample_external = sample_config" "xd_endpointName sample_external = ''k8gb-ns-ns1''"
      "co_k8gbNamespace sample_config = ''k8gb''" "\<not> co_coreDNSExposed sample_config"
    by (simp_all add: sample_external_def NewExternalDNS_def externalDNSTypeNS1_def sample_config_def)
  have "fst r = None"
    using sample_exposed [OF sample_store_ingress, of "xd_assistant sample_external"]
    by (simp add: r_def xd_CreateZoneDelegationForExternalDNS_def x SaveDNSEndpoint_def)
      (simp add: xd_NSRecord_def Let_def sample_store_def mem_eval)
  then have ok: "xd_CreateZoneDelegationForExternalDNS quiet_sys rev sample_external sample_store sample_gslb = (None, snd r)"
    unfolding r_def by (metis prod.collapse)
  have o: "range_ok rev" by (simp add: range_ok_def)
  show ?thesis
    using \<open>fst r = None\<close> external_delegation [OF quiet_api o ok] unfolding Let_def r_def [symmetric] x by force
qed

text \<open>
  C32. Finalizing a Gslb with any provider of the factory, with or without success, changes no
  object outside the namespace of k8gb: in particular the DNSEndpoint that was saved for a Gslb in
  another namespace stays, and is left to the garbage collection of owned objects.
\<close>

theorem finalize_keeps_outside:
  assumes "kube_api S V" and "pr_Finalize S (factory_Provider f) w gslb = (r, w')"
    and "fst key \<noteq> co_k8gbNamespace (pf_config f)"
  shows "v_dns V w' key = v_dns V w key \<and> keep_gslb V w w' \<and> keep_ingress V w w' \<and> keep_work V w w'"
  using kube_api.pr_finalize_outside [OF assms(1) factory_provider_ok assms(2)]
    kube_api.pr_finalize_frame [OF assms(1,2)] assms(3)
  by (cases key) (simp add: keep_dns_outside_def dns_frame_def)

theorem finalize_keeps_outside_witness:
  "let w = sample_store\<lparr>s_dns := [((''ns'', ''g''), sample_endpoint []), ((''k8gb'', ''g''), (sample_endpoint [])\<lparr>de_meta := empty_meta\<lparr>om_name := ''g'', om_namespace := ''k8gb''\<rparr>\<rparr>)]\<rparr>;
       r = pr_Finalize quiet_sys (factory_Provider (fst (NewDNSProviderFactory (Some quiet_sys)
             (sample_config\<lparr>co_edgeDNSType := DNSTypeNoEdgeDNS\<rparr>)))) w sample_gslb
   in fst r = None \<and> v_dns mem_view (snd r) (''ns'', ''g'') = Some (sample_endpoint []) \<and>
      v_dns mem_view (snd r) (''k8gb'', ''g'') = None"
proof -
  define w where "w = sample_store\<lparr>s_dns := [((''ns'', ''g''), sample_endpoint []), ((''k8gb'', ''g''), (sample_endpoint [])\<lparr>de_meta := empty_meta\<lparr>om_name := ''g'', om_namespace := ''k8gb''\<rparr>\<rparr>)]\<rparr>"
  define f where "f = fst (NewDNSProviderFactory (Some quiet_sys) (sample_config\<lparr>co_edgeDNSType := DNSTypeNoEdgeDNS\<rparr>))"
  define r where "r = pr_Finalize quiet_sys (factory_Provider f) w sample_gslb"
  have ev: "fst r = None \<and> v_dns mem_view (snd r) (''k8gb'', ''g'') = None"
    by (simp add: r_def w_def f_def factory_Provider_def NewDNSProviderFactory_def NewEmptyDNS_def NewGslbAssistant_def
        em_Finalize_def RemoveEndpoint_def sample_config_def sample_store_def sample_gslb_def g_name_def mem_eval)
  then have ok: "pr_Finalize quiet_sys (factory_Provider f) w sample_gslb = (None, snd r)"
    unfolding r_def by (metis prod.collapse)
  have "fst (''ns'', ''g'') \<noteq> co_k8gbNamespace (pf_config f)"
    by (simp add: f_def NewDNSProviderFactory_def sample_config_def)
  from finalize_keeps_outside [OF quiet_api ok this]
  have "v_dns mem_view (snd r) (''ns'', ''g'') = v_dns mem_view w (''ns'', ''g'')" by simp
  with ev show ?thesis unfolding Let_def w_def [symmetric] f_def [symmetric] r_def [symmetric] by (simp add: w_def)
qed

end
