(* ===== verification/Finalizers.thy ===== *)
theory Finalizers
  imports Providers
begin

text \<open>
  \<^verbatim>\<open>controllers/finalize.go\<close>: adding and removing the finalizer of a Gslb.

  \<^verbatim>\<open>remove\<close> ranges over a slice while it shifts the slice's backing array: the loop visits the
  indices of the original length and reads the array as it is by then, and a slice expression out
  of range panics. The model keeps the array and the current length apart.
\<close>

section \<open>Operations\<close>

definition gslbFinalizer :: string where "gslbFinalizer = ''k8gb.absa.oss/finalizer''"
definition legacyFinalizer :: string where "legacyFinalizer = ''finalizer.k8gb.absa.oss''"

fun contains :: "string list \<Rightarrow> string \<Rightarrow> bool" where
  "contains [] s = False"
| "contains (v # list) s = (if v = s then True else contains list s)"

text \<open>The state of the loop: the remaining indices, the backing array and the length of
  \<^verbatim>\<open>list\<close>. \<^verbatim>\<open>append(list[:i], list[i+1:]...)\<close> copies the elements after i one place down; the
  last cell of the array keeps its value.\<close>

fun remove_loop :: "nat list \<Rightarrow> string list \<Rightarrow> nat \<Rightarrow> string \<Rightarrow> string list go" where
  "remove_loop [] arr len s = Ok (take len arr)"
| "remove_loop (i # is) arr len s =
     (if arr ! i = s
      then if i + 1 > len then Panic ''slice bounds out of range''
           else remove_loop is (take i arr @ drop (i + 1) (take len arr) @ drop (len - 1) arr) (len - 1) s
      else remove_loop is arr len s)"

definition remove_fin :: "string list \<Rightarrow> string \<Rightarrow> string list go" where
  "remove_fin list s = remove_loop [0..<length list] list (length list) s"

definition finalizeGslb :: "'w sys \<Rightarrow> Provider \<Rightarrow> 'w \<Rightarrow> Gslb \<Rightarrow> goerr option \<times> 'w" where
  "finalizeGslb S provider w gslb = pr_Finalize S provider w gslb"

definition set_finalizers :: "string list \<Rightarrow> Gslb \<Rightarrow> Gslb" where
  "set_finalizers fs gslb = gslb\<lparr>g_meta := (g_meta gslb)\<lparr>om_finalizers := fs\<rparr>\<rparr>"

definition addFinalizer :: "'w sys \<Rightarrow> 'w \<Rightarrow> Gslb \<Rightarrow> (goerr + Gslb) \<times> 'w" where
  "addFinalizer S w gslb =
     c_updateGslb S w (set_finalizers (om_finalizers (g_meta gslb) @ [gslbFinalizer]) gslb)"

section \<open>Lemmas\<close>

lemma contains_iff [simp]: "contains list s \<longleftrightarrow> s \<in> set list"
  by (induction list) auto

text \<open>Nothing more is removed when the cells that are still visited differ from s.\<close>

lemma remove_loop_id:
  "(\<And>i. i \<in> set is \<Longrightarrow> arr ! i \<noteq> s) \<Longrightarrow> remove_loop is arr len s = Ok (take len arr)"
  by (induction "is") auto

lemma upt_split: "[0..<n + Suc m] = [0..<n] @ n # [Suc n..<n + Suc m]"
  using upt_add_eq_append [of 0 n "Suc m"] upt_conv_Cons [of n "n + Suc m"] by simp

text \<open>The loop reaches the first occurrence.\<close>

lemma remove_loop_skip:
  "(\<And>i. i \<in> set as \<Longrightarrow> arr ! i \<noteq> s) \<Longrightarrow> remove_loop (as @ is) arr len s = remove_loop is arr len s"
  by (induction as) auto

lemma remove_split:
  assumes "s \<notin> set xs" "s \<notin> set ys"
  shows "remove_fin (xs @ s # ys) s = Ok (xs @ ys)"
proof -
  let ?l = "xs @ s # ys" and ?i = "length xs"
  have split: "[0..<length ?l] = [0..<?i] @ ?i # [Suc ?i..<length ?l]"
    using upt_split [of ?i "length ys"] by simp
  let ?arr = "xs @ ys @ [last (s # ys)]"
  have arr: "take ?i ?l @ drop (?i + 1) (take (length ?l) ?l) @ drop (length ?l - 1) ?l = ?arr"
    by (cases ys rule: rev_cases) (auto simp: drop_Cons')
  have rest: "?arr ! j \<noteq> s" if "j \<in> set [Suc ?i..<length ?l]" for j
  proof -
    from that have "ys \<noteq> []" by auto
    then have "last (s # ys) \<in> set ys" by simp
    moreover from that have "?arr ! j = (ys @ [last (s # ys)]) ! (j - ?i)" "j - ?i < Suc (length ys)"
      by (auto simp: nth_append)
    ultimately have "?arr ! j \<in> set ys" by (auto simp: nth_append)
    with assms(2) show ?thesis by auto
  qed
  have "remove_fin ?l s = remove_loop (?i # [Suc ?i..<length ?l]) ?l (length ?l) s"
    unfolding remove_fin_def split using assms(1) by (intro remove_loop_skip) (auto simp: nth_append)
  also have "\<dots> = remove_loop [Suc ?i..<length ?l] ?arr (length ?l - 1) s"
    using arr by simp
  also have "\<dots> = Ok (take (length ?l - 1) ?arr)" by (rule remove_loop_id) (rule rest)
  finally show ?thesis by simp
qed

lemma remove_unique:
  assumes "count_list list s \<le> 1"
  shows "remove_fin list s = Ok (filter (\<lambda>v. v \<noteq> s) list)"
proof (cases "s \<in> set list")
  case True
  then obtain xs ys where l: "list = xs @ s # ys" "s \<notin> set xs" by (meson split_list_first)
  with assms have "count_list ys s = 0" by simp
  then have ys: "s \<notin> set ys" by (simp add: count_list_0_iff)
  have "filter (\<lambda>v. v \<noteq> s) xs = xs" "filter (\<lambda>v. v \<noteq> s) ys = ys"
    using l(2) ys by (auto simp: filter_id_conv)
  then have "filter (\<lambda>v. v \<noteq> s) list = xs @ ys" by (simp add: l(1))
  with remove_split [OF l(2) ys] l(1) show ?thesis by simp
next
  case False
  then have "remove_loop [0..<length list] list (length list) s = Ok (take (length list) list)"
    by (intro remove_loop_id) auto
  moreover have "filter (\<lambda>v. v \<noteq> s) list = list" using False by (auto simp: filter_id_conv)
  ultimately show ?thesis by (simp add: remove_fin_def)
qed

lemma remove_twice:
  assumes "s \<notin> set xs"
  shows "remove_fin (xs @ [s, s]) s = Panic ''slice bounds out of range''"
proof -
  let ?l = "xs @ [s, s]" and ?i = "length xs"
  have split: "[0..<length ?l] = [0..<?i] @ ?i # [Suc ?i]"
    using upt_split [of ?i 1] by simp
  have "remove_fin ?l s = remove_loop (?i # [Suc ?i]) ?l (length ?l) s"
    unfolding remove_fin_def split using assms by (intro remove_loop_skip) (auto simp: nth_append)
  then show ?thesis by (simp add: nth_append)
qed

section \<open>Properties\<close>

text \<open>
  C24. Removing a finalizer that occurs at most once gives the list without it, all other
  finalizers kept in order; the in-place shift never goes out of range then. With a finalizer that
  occurs twice at the end of the list and nowhere else the function panics: the loop reads the stale
  last cell of the shifted array and slices past the end.
\<close>

theorem remove_finalizer:
  "(count_list list s \<le> 1 \<longrightarrow> remove_fin list s = Ok (filter (\<lambda>v. v \<noteq> s) list)) \<and>
   (s \<notin> set list \<longrightarrow> remove_fin (list @ [s, s]) s = Panic ''slice bounds out of range'')"
  using remove_unique remove_twice by blast

theorem remove_finalizer_witness:
  "remove_fin [''a'', ''b'', ''c''] ''a'' = Ok [''b'', ''c''] \<and>
   remove_fin [gslbFinalizer, gslbFinalizer] gslbFinalizer = Panic ''slice bounds out of range''"
  using remove_finalizer [of "[''a'', ''b'', ''c'']" "''a''"] remove_finalizer [of "[]" gslbFinalizer] by simp

end
