(* ===== verification/Metrics.thy ===== *)
theory Metrics
  imports Platform Dep_Config
begin

text \<open>
  \<^verbatim>\<open>controllers/providers/metrics/prometheus.go\<close>: the two gauges of k8gb. Setting a gauge is an
  operation of the environment. The counts do not depend on the order in which the maps are
  visited, so they are computed from the association lists. The global registry of
  controller-runtime is a parameter with a state of its own; \<^verbatim>\<open>sync.Once\<close> is a flag.
\<close>

section \<open>Operations\<close>

definition gslbSubsystem :: string where "gslbSubsystem = ''gslb''"
definition HealthyStatus :: string where "HealthyStatus = ''Healthy''"
definition UnhealthyStatus :: string where "UnhealthyStatus = ''Unhealthy''"
definition NotFoundStatus :: string where "NotFoundStatus = ''NotFound''"

record gauge_vec =
  gv_namespace :: string
  gv_subsystem :: string
  gv_name :: string
  gv_labels :: "string list"

record PrometheusMetrics =
  pm_once :: bool
  healthyRecordsMetric :: gauge_vec
  ingressHostsPerStatusMetric :: gauge_vec

definition NewPrometheusMetrics :: "Config \<Rightarrow> PrometheusMetrics" where
  "NewPrometheusMetrics config =
     \<lparr>pm_once = False,
      healthyRecordsMetric = \<lparr>gv_namespace = co_k8gbNamespace config, gv_subsystem = gslbSubsystem,
        gv_name = ''healthy_records'', gv_labels = [''namespace'', ''name'']\<rparr>,
      ingressHostsPerStatusMetric = \<lparr>gv_namespace = co_k8gbNamespace config, gv_subsystem = gslbSubsystem,
        gv_name = ''ingress_hosts_per_status'', gv_labels = [''namespace'', ''name'', ''status'']\<rparr>\<rparr>"

text \<open>The three counters of the loop: healthy, unhealthy and everything else.\<close>

fun count_status :: "string gomap \<Rightarrow> nat \<times> nat \<times> nat \<Rightarrow> nat \<times> nat \<times> nat" where
  "count_status [] c = c"
| "count_status ((_, hs) # m) (h, u, n) =
     (if hs = HealthyStatus then count_status m (h + 1, u, n)
      else if hs = UnhealthyStatus then count_status m (h, u + 1, n)
      else count_status m (h, u, n + 1))"

definition UpdateIngressHostsPerStatusMetric ::
    "'w sys \<Rightarrow> PrometheusMetrics \<Rightarrow> 'w \<Rightarrow> Gslb \<Rightarrow> string gomap \<Rightarrow> goerr option \<times> 'w" where
  "UpdateIngressHostsPerStatusMetric S m w gslb serviceHealth =
     (let (healthyHostsCount, unhealthyHostsCount, notFoundHostsCount) = count_status serviceHealth (0, 0, 0);
          set_gauge = (\<lambda>status v w. n_gaugeSet S w (gv_name (ingressHostsPerStatusMetric m))
             [g_namespace gslb, g_name gslb, status] v);
          w = set_gauge HealthyStatus healthyHostsCount w;
          w = set_gauge UnhealthyStatus unhealthyHostsCount w;
          w = set_gauge NotFoundStatus notFoundHostsCount w
      in (None, w))"

definition UpdateHealthyRecordsMetric ::
    "'w sys \<Rightarrow> PrometheusMetrics \<Rightarrow> 'w \<Rightarrow> Gslb \<Rightarrow> string list gomap \<Rightarrow> goerr option \<times> 'w" where
  "UpdateHealthyRecordsMetric S m w gslb healthyRecords =
     (let hrsCount = sum_list (map (\<lambda>(_, hrs). length hrs) healthyRecords)
      in (None, n_gaugeSet S w (gv_name (healthyRecordsMetric m)) [g_namespace gslb, g_name gslb] hrsCount))"

record 'r registry =
  rg_register :: "'r \<Rightarrow> gauge_vec \<Rightarrow> goerr option \<times> 'r"
  rg_unregister :: "'r \<Rightarrow> gauge_vec \<Rightarrow> bool \<times> 'r"

text \<open>\<^verbatim>\<open>err\<close> is the named result, which the closure assigns; a call after the first leaves it nil.\<close>

definition Register :: "'r registry \<Rightarrow> PrometheusMetrics \<Rightarrow> 'r \<Rightarrow> goerr option \<times> PrometheusMetrics \<times> 'r" where
  "Register R m r =
     (let (err, r) =
        (if pm_once m then (None, r)
         else case rg_register R r (healthyRecordsMetric m) of
           (Some err, r) \<Rightarrow> (Some err, r)
         | (None, r) \<Rightarrow> rg_register R r (ingressHostsPerStatusMetric m))
      in (case err of None \<Rightarrow> None
          | Some e \<Rightarrow> Some (Errorf ''can't register prometheus metrics: %s'' [err_text e]),
          m\<lparr>pm_once := True\<rparr>, r))"

definition Unregister :: "'r registry \<Rightarrow> PrometheusMetrics \<Rightarrow> 'r \<Rightarrow> 'r" where
  "Unregister R m r =
     (let r = snd (rg_unregister R r (healthyRecordsMetric m))
      in snd (rg_unregister R r (ingressHostsPerStatusMetric m)))"

definition GetHealthyRecordsMetric :: "PrometheusMetrics \<Rightarrow> gauge_vec" where
  "GetHealthyRecordsMetric m = healthyRecordsMetric m"

definition GetIngressHostsPerStatusMetric :: "PrometheusMetrics \<Rightarrow> gauge_vec" where
  "GetIngressHostsPerStatusMetric m = ingressHostsPerStatusMetric m"

text \<open>A registry that holds the registered gauges by name and refuses a name twice.\<close>

definition list_registry :: "string list registry" where
  "list_registry =
     \<lparr>rg_register = (\<lambda>r g. if gv_name g \<in> set r then (Some (ExtError ''duplicate metrics collector registration attempted''), r)
        else (None, gv_name g # r)),
      rg_unregister = (\<lambda>r g. (gv_name g \<in> set r, filter (\<lambda>n. n \<noteq> gv_name g) r))\<rparr>"

section \<open>Lemmas\<close>

lemma count_status_spec:
  "count_status m (h, u, n) =
     (h + length (filter (\<lambda>(_, s). s = HealthyStatus) m),
      u + length (filter (\<lambda>(_, s). s = UnhealthyStatus) m),
      n + length (filter (\<lambda>(_, s). s \<noteq> HealthyStatus \<and> s \<noteq> UnhealthyStatus) m))"
  by (induction m arbitrary: h u n)
    (auto simp: HealthyStatus_def UnhealthyStatus_def split: prod.splits)

lemma count_status_sum: "count_status m (h, u, n) = (a, b, c) \<Longrightarrow> a + b + c = h + u + n + length m"
  by (induction m arbitrary: h u n) (auto split: if_splits)

context kube_api
begin

lemma ingress_metric_keep: "UpdateIngressHostsPerStatusMetric S m w g h = (r, w') \<Longrightarrow> r = None \<and> keep_all V w w'"
  by (auto simp: UpdateIngressHostsPerStatusMetric_def Let_def split: prod.splits)
    (meson keep_all_trans net_frame(5))

lemma records_metric_keep: "UpdateHealthyRecordsMetric S m w g h = (r, w') \<Longrightarrow> r = None \<and> keep_all V w w'"
  by (auto simp: UpdateHealthyRecordsMetric_def Let_def intro: net_frame(5))

end

text \<open>The status gauges count every host of the health map exactly once: the three values set for a
  Gslb are the numbers of healthy, unhealthy and other hosts, and they sum up to the size of the map.\<close>

lemma status_gauges_partition:
  assumes "count_status serviceHealth (0, 0, 0) = (h, u, n)"
  shows "h + u + n = length serviceHealth \<and>
    h = length (filter (\<lambda>(_, s). s = ''Healthy'') serviceHealth) \<and>
    u = length (filter (\<lambda>(_, s). s = ''Unhealthy'') serviceHealth) \<and>
    UpdateIngressHostsPerStatusMetric (mem_sys f net dig) m w gslb serviceHealth =
     (None, w\<lparr>s_gauges :=
        AList.update (gv_name (ingressHostsPerStatusMetric m), [g_namespace gslb, g_name gslb, ''NotFound'']) n
          (AList.update (gv_name (ingressHostsPerStatusMetric m), [g_namespace gslb, g_name gslb, ''Unhealthy'']) u
            (AList.update (gv_name (ingressHostsPerStatusMetric m), [g_namespace gslb, g_name gslb, ''Healthy'']) h
              (s_gauges w)))\<rparr>)"
  using assms count_status_sum [OF assms] count_status_spec [of serviceHealth 0 0 0]
  by (simp add: UpdateIngressHostsPerStatusMetric_def Let_def HealthyStatus_def UnhealthyStatus_def NotFoundStatus_def)

section \<open>Properties\<close>

text \<open>
  C38. The gauges are registered once: when the first call reports success both are registered, in
  order; when it reports an error nothing after the failing registration happened; and every
  later call reports success without touching the registry, even after a first call that failed.
\<close>

theorem Register_once:
  "case Register R m r of (err, m', r') \<Rightarrow>
     Register R m' r' = (None, m', r') \<and>
     (\<not> pm_once m \<longrightarrow>
        (case rg_register R r (healthyRecordsMetric m) of
           (Some e, r1) \<Rightarrow> r' = r1 \<and> err \<noteq> None
         | (None, r1) \<Rightarrow> (case rg_register R r1 (ingressHostsPerStatusMetric m) of
              (e, r2) \<Rightarrow> r' = r2 \<and> (err = None \<longleftrightarrow> e = None))))"
  by (auto simp: Register_def Let_def split: prod.splits option.splits if_splits)

theorem Register_once_witness:
  "let m = NewPrometheusMetrics sample_config; (err, m', r) = Register list_registry m [''healthy_records'']
   in err \<noteq> None \<and> r = [''healthy_records''] \<and> fst (Register list_registry m' r) = None"
  using Register_once [of list_registry "NewPrometheusMetrics sample_config" "[''healthy_records'']"]
  by (auto simp: list_registry_def NewPrometheusMetrics_def Let_def split: prod.splits)

end
