(* ===== verification/Status.thy ===== *)
theory Status
  imports Providers Metrics
begin

text \<open>
  \<^verbatim>\<open>controllers/status.go\<close>: the health of the services behind a Gslb, the healthy records and the
  status update. \<^verbatim>\<open>rule.HTTP\<close> is dereferenced without a check, so a rule without paths panics.
\<close>

section \<open>Operations\<close>

record GslbReconciler =
  re_config :: Config
  re_metrics :: PrometheusMetrics
  re_provider :: Provider

definition endpoint_health :: "endpoints \<Rightarrow> string" where
  "endpoint_health e =
     fold (\<lambda>subset h. if length subset > 0 then ''Healthy'' else h) (eps_subsets e) ''Unhealthy''"

text \<open>The inner loop over the paths of a rule.\<close>

fun health_paths ::
    "'w sys \<Rightarrow> string \<Rightarrow> string \<Rightarrow> http_path list \<Rightarrow> string gomap \<Rightarrow> 'w \<Rightarrow> (goerr + string gomap) \<times> 'w" where
  "health_paths S namespace host [] serviceHealth w = (Inr serviceHealth, w)"
| "health_paths S namespace host (path # paths) serviceHealth w =
     (let finder = (namespace, be_serviceName (pa_backend path)) in
      case c_getService S w finder of
        (Inl err, w) \<Rightarrow>
          if isNotFound err then health_paths S namespace host paths (m_set host ''NotFound'' serviceHealth) w
          else (Inl err, w)
      | (Inr service, w) \<Rightarrow>
          (case c_getEndpoints S w finder of
             (Inl err, w) \<Rightarrow> (Inl err, w)
           | (Inr endpoints, w) \<Rightarrow>
               health_paths S namespace host paths (m_set host (endpoint_health endpoints) serviceHealth) w))"

fun health_rules ::
    "'w sys \<Rightarrow> string \<Rightarrow> IngressRule list \<Rightarrow> string gomap \<Rightarrow> 'w \<Rightarrow> string gomap go \<times> 'w" where
  "health_rules S namespace [] serviceHealth w = (Ok serviceHealth, w)"
| "health_rules S namespace (rule # rules) serviceHealth w =
     (case ru_http rule of
        None \<Rightarrow> (Panic ''invalid memory address or nil pointer dereference'', w)
      | Some paths \<Rightarrow>
          (case health_paths S namespace (ru_host rule) (elems paths) serviceHealth w of
             (Inl err, w) \<Rightarrow> (Err err, w)
           | (Inr serviceHealth, w) \<Rightarrow> health_rules S namespace rules serviceHealth w))"

definition getServiceHealthStatus :: "'w sys \<Rightarrow> 'w \<Rightarrow> Gslb \<Rightarrow> string gomap go \<times> 'w" where
  "getServiceHealthStatus S w gslb =
     health_rules S (g_namespace gslb) (elems (is_rules (gs_ingress (g_spec gslb)))) [] w"

text \<open>\<^verbatim>\<open>^localtargets\<close> is a match at the start of the name.\<close>

definition healthy_records :: "dns_record list \<Rightarrow> string list gomap" where
  "healthy_records endpoints =
     fold (\<lambda>endpoint m.
        let local = hasPrefix ''localtargets'' (ep_dnsName endpoint)
        in if \<not> local \<and> ep_recordType endpoint = ''A'' \<and> length (ep_targets endpoint) > 0
           then m_set (ep_dnsName endpoint) (ep_targets endpoint) m else m) endpoints []"

definition getHealthyRecords :: "'w sys \<Rightarrow> 'w \<Rightarrow> Gslb \<Rightarrow> (goerr + string list gomap) \<times> 'w" where
  "getHealthyRecords S w gslb =
     (case c_getDNSEndpoint S w (g_namespace gslb, g_name gslb) of
        (Inl err, w) \<Rightarrow> (Inl err, w)
      | (Inr dnsEndpoint, w) \<Rightarrow> (Inr (healthy_records (de_endpoints dnsEndpoint)), w))"

definition updateGslbStatus :: "'w sys \<Rightarrow> GslbReconciler \<Rightarrow> 'w \<Rightarrow> Gslb \<Rightarrow> unit go \<times> 'w" where
  "updateGslbStatus S r w gslb =
     (case getServiceHealthStatus S w gslb of
        (Ok serviceHealth, w) \<Rightarrow>
          (let gslb = gslb\<lparr>g_status := (g_status gslb)\<lparr>gst_serviceHealth := serviceHealth\<rparr>\<rparr>
           in case UpdateIngressHostsPerStatusMetric S (re_metrics r) w gslb serviceHealth of
                (Some err, w) \<Rightarrow> (Err err, w)
              | (None, w) \<Rightarrow>
                  (case getHealthyRecords S w gslb of
                     (Inl err, w) \<Rightarrow> (Err err, w)
                   | (Inr healthyRecords, w) \<Rightarrow>
                       (let gslb = gslb\<lparr>g_status := (g_status gslb)\<lparr>gst_healthyRecords := healthyRecords,
                              gst_geoTag := co_clusterGeoTag (re_config r)\<rparr>\<rparr>
                        in case UpdateHealthyRecordsMetric S (re_metrics r) w gslb healthyRecords of
                             (Some err, w) \<Rightarrow> (Err err, w)
                           | (None, w) \<Rightarrow> finish (c_updateGslbStatus S w gslb))))
      | (Err err, w) \<Rightarrow> (Err err, w)
      | (Panic m, w) \<Rightarrow> (Panic m, w))"

section \<open>What the health of a host is\<close>

definition path_status :: "'w view \<Rightarrow> 'w \<Rightarrow> string \<Rightarrow> string \<Rightarrow> string" where
  "path_status V w ns svc =
     (case v_service V w (ns, svc) of
        None \<Rightarrow> ''NotFound''
      | Some _ \<Rightarrow> (case v_endpoints V w (ns, svc) of
           Some e \<Rightarrow> if list_ex (\<lambda>a. a \<noteq> []) (eps_subsets e) then ''Healthy'' else ''Unhealthy''
         | None \<Rightarrow> ''Unhealthy''))"

text \<open>The (host, service) pairs of a specification in the order the loops visit them.\<close>

definition host_services :: "IngressRule list \<Rightarrow> (string \<times> string) list" where
  "host_services rules =
     concat (map (\<lambda>r. map (\<lambda>p. (ru_host r, be_serviceName (pa_backend p)))
       (case ru_http r of None \<Rightarrow> [] | Some ps \<Rightarrow> elems ps)) rules)"

definition host_status :: "'w view \<Rightarrow> 'w \<Rightarrow> string \<Rightarrow> (string \<times> string) list \<Rightarrow> string \<Rightarrow> string option" where
  "host_status V w ns ps = map_of (rev (map (\<lambda>(h, svc). (h, path_status V w ns svc)) ps))"

section \<open>Lemmas\<close>

lemma endpoint_health_fold:
  "fold (\<lambda>subset h. if length subset > 0 then ''Healthy'' else h) ss h0 =
     (if list_ex (\<lambda>a. a \<noteq> []) ss then ''Healthy'' else h0)"
  by (induction ss arbitrary: h0) auto

lemma endpoint_health_eq:
  "endpoint_health e = (if list_ex (\<lambda>a. a \<noteq> []) (eps_subsets e) then ''Healthy'' else ''Unhealthy'')"
  unfolding endpoint_health_def by (rule endpoint_health_fold)

lemma path_status_cong: "keep_work V w w' \<Longrightarrow> path_status V w' = path_status V w"
  unfolding path_status_def keep_work_def by (elim conjE) (simp only:)

lemma host_status_Cons:
  "host_status V w ns ((h, svc) # ps) = (\<lambda>k. case host_status V w ns ps k of
     Some s \<Rightarrow> Some s | None \<Rightarrow> if k = h then Some (path_status V w ns svc) else None)"
  by (auto simp: host_status_def fun_eq_iff map_add_def split: option.split)

lemma host_status_append:
  "host_status V w ns (ps @ qs) = (\<lambda>k. case host_status V w ns qs k of
     Some s \<Rightarrow> Some s | None \<Rightarrow> host_status V w ns ps k)"
  by (auto simp: host_status_def fun_eq_iff map_add_def split: option.split)

lemma host_services_Cons:
  "host_services (r # rs) = map (\<lambda>p. (ru_host r, be_serviceName (pa_backend p)))
     (case ru_http r of None \<Rightarrow> [] | Some ps \<Rightarrow> elems ps) @ host_services rs"
  by (simp add: host_services_def)

context kube_api
begin

lemma health_paths_spec:
  "health_paths S ns host ps h w = (Inr h', w') \<Longrightarrow> keep_all V w w' \<and>
     map_of h' = (\<lambda>k. case host_status V w ns (map (\<lambda>p. (host, be_serviceName (pa_backend p))) ps) k of
       Some s \<Rightarrow> Some s | None \<Rightarrow> map_of h k) \<and> (gomap_ok h \<longrightarrow> gomap_ok h')"
proof (induction ps arbitrary: h w)
  case Nil
  then show ?case by (simp add: host_status_def)
next
  case (Cons p ps)
  let ?svc = "be_serviceName (pa_backend p)"
  obtain rs w1 where s: "c_getService S w (ns, ?svc) = (rs, w1)" by fastforce
  have k1: "keep_all V w w1" using readsD(1) [OF get_service s] .
  have "\<exists>w2. keep_all V w w2 \<and>
      health_paths S ns host ps (m_set host (path_status V w ns ?svc) h) w2 = (Inr h', w')"
  proof (cases rs)
    case (Inl e)
    with Cons.prems s have "isNotFound e" by (auto split: if_splits)
    with Cons.prems s Inl readsD(3) [OF get_service s Inl] k1 show ?thesis
      by (auto simp: path_status_def)
  next
    case (Inr x)
    obtain re w2 where e: "c_getEndpoints S w1 (ns, ?svc) = (re, w2)" by fastforce
    have k2: "keep_all V w1 w2" using readsD(1) [OF get_endpoints e] .
    from Cons.prems s Inr e obtain y where y: "re = Inr y" by (cases re) auto
    have "v_service V w (ns, ?svc) = Some x" using readsD(2) [OF get_service s Inr] .
    moreover have "v_endpoints V w (ns, ?svc) = Some y"
      using readsD(2) [OF get_endpoints e y] k1 by (simp add: keep_defs)
    ultimately have "path_status V w ns ?svc = endpoint_health y"
      by (simp add: path_status_def endpoint_health_eq)
    with Cons.prems s Inr e y keep_all_trans [OF k1 k2] show ?thesis by auto
  qed
  then obtain w2 where k: "keep_all V w w2"
    and r: "health_paths S ns host ps (m_set host (path_status V w ns ?svc) h) w2 = (Inr h', w')" by blast
  have "host_status V w2 = host_status V w"
    using path_status_cong [of V w w2] k by (simp add: host_status_def keep_all_def fun_eq_iff)
  with Cons.IH [OF r] k show ?case
    by (auto simp: host_status_Cons fun_eq_iff intro: keep_all_trans split: option.split)
qed

lemma host_status_work: "keep_work V w w' \<Longrightarrow> host_status V w' = host_status V w"
  using path_status_cong [of V w w'] by (simp add: host_status_def fun_eq_iff)

lemma host_status_cong: "keep_all V w w' \<Longrightarrow> host_status V w' = host_status V w"
  by (rule host_status_work) (simp add: keep_all_def)

lemma health_rules_spec:
  "health_rules S ns rs h w = (Ok h', w') \<Longrightarrow> keep_all V w w' \<and>
     map_of h' = (\<lambda>k. case host_status V w ns (host_services rs) k of Some s \<Rightarrow> Some s | None \<Rightarrow> map_of h k) \<and>
     (gomap_ok h \<longrightarrow> gomap_ok h')"
proof (induction rs arbitrary: h w)
  case Nil
  then show ?case by (simp add: host_status_def host_services_def)
next
  case (Cons r rs)
  from Cons.prems obtain ps h1 w1 where ps: "ru_http r = Some ps"
    and p: "health_paths S ns (ru_host r) (elems ps) h w = (Inr h1, w1)" and q: "health_rules S ns rs h1 w1 = (Ok h', w')"
    by (auto split: option.splits elim: sum_stepE)
  from health_paths_spec [OF p] Cons.IH [OF q] host_status_cong [of w w1] show ?case
    by (auto simp: host_services_Cons ps host_status_append fun_eq_iff intro: keep_all_trans split: option.split)
qed

lemma getServiceHealthStatus_spec:
  assumes "getServiceHealthStatus S w g = (Ok h, w')"
  shows "keep_all V w w'" "gomap_ok h"
    "map_of h = host_status V w (g_namespace g) (host_services (elems (is_rules (gs_ingress (g_spec g)))))"
  using health_rules_spec [OF assms [unfolded getServiceHealthStatus_def]]
  by (auto simp: fun_eq_iff split: option.splits)

lemma health_paths_keep: "health_paths S ns host ps h w = (r, w') \<Longrightarrow> keep_all V w w'"
proof (induction ps arbitrary: h w)
  case (Cons p ps)
  then show ?case
    by (auto simp: Let_def elim!: sum_stepE split: if_splits
        dest!: readsD(1) [OF get_service] readsD(1) [OF get_endpoints] intro: keep_all_trans)
qed simp

lemma health_rules_keep: "health_rules S ns rs h w = (r, w') \<Longrightarrow> keep_all V w w'"
proof (induction rs arbitrary: h w)
  case (Cons x rs)
  then show ?case
    by (auto elim!: sum_stepE split: option.splits dest!: health_paths_keep intro: keep_all_trans)
qed simp

lemma getServiceHealthStatus_keep: "getServiceHealthStatus S w g = (r, w') \<Longrightarrow> keep_all V w w'"
  unfolding getServiceHealthStatus_def by (rule health_rules_keep)

lemma getHealthyRecords_spec:
  assumes "getHealthyRecords S w g = (Inr h, w')"
  shows "keep_all V w w'" "\<exists>d. v_dns V w (g_namespace g, g_name g) = Some d \<and> h = healthy_records (de_endpoints d)"
  using assms readsD(1,2) [OF get_dns]
  by (auto simp: getHealthyRecords_def split: prod.splits sum.splits)

end

lemma health_rules_panic:
  "health_rules S ns rs h w = (Panic m, w') \<Longrightarrow> \<exists>r \<in> set rs. ru_http r = None"
  by (induction rs arbitrary: h w) (auto split: option.splits elim: sum_stepE)

text \<open>The records a Gslb reports: the last non-empty A record of every name that is not local.\<close>

definition reported :: "dns_record \<Rightarrow> bool" where
  "reported e \<longleftrightarrow> \<not> hasPrefix ''localtargets'' (ep_dnsName e) \<and> ep_recordType e = ''A'' \<and> ep_targets e \<noteq> []"

lemma healthy_records_fold:
  "map_of (fold (\<lambda>endpoint m. let local = hasPrefix ''localtargets'' (ep_dnsName endpoint)
        in if \<not> local \<and> ep_recordType endpoint = ''A'' \<and> length (ep_targets endpoint) > 0
           then m_set (ep_dnsName endpoint) (ep_targets endpoint) m else m) es m) =
     map_of m ++ map_of (rev (map (\<lambda>e. (ep_dnsName e, ep_targets e)) (filter reported es)))"
proof (induction es arbitrary: m)
  case (Cons e es)
  then show ?case
    by (auto simp: reported_def Let_def fun_eq_iff map_add_def split: option.splits)
qed simp

lemma healthy_records_lookup:
  "map_of (healthy_records es) = map_of (rev (map (\<lambda>e. (ep_dnsName e, ep_targets e)) (filter reported es)))"
  unfolding healthy_records_def using healthy_records_fold [of es "[]"] by simp

lemma finish_Err: "fst (finish r) = Err e \<longleftrightarrow> fst r = Some e"
  by (auto simp: finish_def split: option.splits)

context kube_api
begin

lemma updateGslbStatus_frame:
  "updateGslbStatus S r w g = (x, w') \<Longrightarrow> keep_ingress V w w' \<and> keep_dns V w w' \<and> keep_work V w w' \<and>
     (\<forall>k. map_option g_meta (v_gslb V w' k) = map_option g_meta (v_gslb V w k))"
  unfolding updateGslbStatus_def Let_def getHealthyRecords_def
  by (auto elim!: go_stepE opt_stepE sum_stepE dest!: finish_world getServiceHealthStatus_keep ingress_metric_keep
      records_metric_keep status_gslb readsD(1) [OF get_dns] simp: keep_defs)

lemma updateGslbStatus_stored:
  assumes "updateGslbStatus S r w g = (Ok (), w')"
  shows "\<exists>st d. v_dns V w (g_namespace g, g_name g) = Some d \<and>
    map_of (gst_serviceHealth st) =
      host_status V w (g_namespace g) (host_services (elems (is_rules (gs_ingress (g_spec g))))) \<and>
    gst_healthyRecords st = healthy_records (de_endpoints d) \<and>
    gst_geoTag st = co_clusterGeoTag (re_config r) \<and>
    (\<forall>x. v_gslb V w (meta_key (g_meta g)) = Some x \<longrightarrow>
       v_gslb V w' (meta_key (g_meta g)) = Some (x\<lparr>g_status := st\<rparr>))"
proof -
  from assms [unfolded updateGslbStatus_def Let_def] obtain h w1 w2 hr w3 w4 where
      h: "getServiceHealthStatus S w g = (Ok h, w1)"
    and m1: "UpdateIngressHostsPerStatusMetric S (re_metrics r) w1 (g\<lparr>g_status := (g_status g)\<lparr>gst_serviceHealth := h\<rparr>\<rparr>) h = (None, w2)"
    and hr: "getHealthyRecords S w2 (g\<lparr>g_status := (g_status g)\<lparr>gst_serviceHealth := h\<rparr>\<rparr>) = (Inr hr, w3)"
    and m2: "UpdateHealthyRecordsMetric S (re_metrics r) w3 (g\<lparr>g_status := (g_status g)\<lparr>gst_serviceHealth := h,
        gst_healthyRecords := hr, gst_geoTag := co_clusterGeoTag (re_config r)\<rparr>\<rparr>) hr = (None, w4)"
    and u: "finish (c_updateGslbStatus S w4 (g\<lparr>g_status := (g_status g)\<lparr>gst_serviceHealth := h,
        gst_healthyRecords := hr, gst_geoTag := co_clusterGeoTag (re_config r)\<rparr>\<rparr>)) = (Ok (), w')"
    by (auto elim!: go_stepE opt_stepE sum_stepE)
  let ?g = "g\<lparr>g_status := (g_status g)\<lparr>gst_serviceHealth := h, gst_healthyRecords := hr,
    gst_geoTag := co_clusterGeoTag (re_config r)\<rparr>\<rparr>"
  have k2: "keep_all V w w2"
    using getServiceHealthStatus_spec(1) [OF h] ingress_metric_keep [OF m1] by (blast intro: keep_all_trans)
  have k4: "keep_all V w w4"
    using k2 getHealthyRecords_spec(1) [OF hr] records_metric_keep [OF m2] by (blast intro: keep_all_trans)
  obtain d where d: "v_dns V w2 (g_namespace g, g_name g) = Some d" "hr = healthy_records (de_endpoints d)"
    using getHealthyRecords_spec(2) [OF hr] by (auto simp: g_namespace_def g_name_def)
  have s: "c_updateGslbStatus S w4 ?g = (None, w')" using u by (simp add: finish_Ok)
  have "v_gslb V w' (meta_key (g_meta g)) = Some (x\<lparr>g_status := g_status ?g\<rparr>)"
    if "v_gslb V w (meta_key (g_meta g)) = Some x" for x
    using status_stored [OF s, of x] that k4 by (simp add: keep_defs)
  moreover have "v_dns V w (g_namespace g, g_name g) = Some d" using d(1) k2 by (simp add: keep_defs)
  ultimately show ?thesis
    using getServiceHealthStatus_spec(3) [OF h] d(2) by (intro exI [of _ "g_status ?g"] exI [of _ d]) simp
qed

end

section \<open>Properties\<close>

text \<open>
  C12. The health map is computed from the stored Services and Endpoints and changes nothing: it has
  one entry per host of the rules, and the entry is the state of the service of the last path of
  that host: NotFound without a Service, Healthy when some subset has a ready address, and
  Unhealthy otherwise. No rule makes it panic unless it has no HTTP section.
\<close>

theorem service_health:
  assumes "kube_api S V" and "getServiceHealthStatus S w gslb = (r, w')"
  shows "keep_all V w w' \<and> (\<forall>h. r = Ok h \<longrightarrow> gomap_ok h \<and>
      map_of h = host_status V w (g_namespace gslb) (host_services (elems (is_rules (gs_ingress (g_spec gslb)))))) \<and>
    (\<forall>m. r = Panic m \<longrightarrow> (\<exists>rule \<in> set (elems (is_rules (gs_ingress (g_spec gslb)))). ru_http rule = None))"
  using kube_api.getServiceHealthStatus_keep [OF assms] kube_api.getServiceHealthStatus_spec(2,3) [OF assms(1)]
    health_rules_panic assms(2)
  by (auto simp: getServiceHealthStatus_def)

definition sample_rule :: "string \<Rightarrow> string list \<Rightarrow> IngressRule" where
  "sample_rule host svcs = \<lparr>ru_host = host, ru_http = Some (Some (map (\<lambda>s.
     \<lparr>pa_path = ''/'', pa_pathType = None, pa_backend = \<lparr>be_serviceName = s, be_servicePort = ''http''\<rparr>\<rparr>) svcs))\<rparr>"

definition web_gslb :: "IngressRule list \<Rightarrow> Gslb" where
  "web_gslb rules = sample_gslb\<lparr>g_spec := \<lparr>gs_ingress = (gs_ingress zero_spec)\<lparr>is_rules := Some rules\<rparr>,
     gs_strategy = \<lparr>st_type = ''roundRobin'', st_primaryGeoTag = [], st_dnsTtlSeconds = 30,
       st_splitBrainThresholdSeconds = 300\<rparr>\<rparr>\<rparr>"

definition web_store :: store where
  "web_store = sample_store\<lparr>s_service := [((''ns'', ''up''), \<lparr>svc_lb = []\<rparr>), ((''ns'', ''down''), \<lparr>svc_lb = []\<rparr>)],
     s_endpoints := [((''ns'', ''up''), \<lparr>eps_subsets = [[], [''10.1.0.1'']]\<rparr>), ((''ns'', ''down''), \<lparr>eps_subsets = [[]]\<rparr>)]\<rparr>"

theorem service_health_witness:
  "\<exists>h w. getServiceHealthStatus quiet_sys web_store
     (web_gslb [sample_rule ''a.example.com'' [''down'', ''up''], sample_rule ''b.example.com'' [''none'']]) = (Ok h, w) \<and>
     map_of h ''a.example.com'' = Some ''Healthy'' \<and> map_of h ''b.example.com'' = Some ''NotFound''"
proof -
  let ?g = "web_gslb [sample_rule ''a.example.com'' [''down'', ''up''], sample_rule ''b.example.com'' [''none'']]"
  obtain r w where e: "getServiceHealthStatus quiet_sys web_store ?g = (r, w)" by fastforce
  then have "\<exists>h. r = Ok h"
    by (auto simp: getServiceHealthStatus_def web_gslb_def sample_rule_def sample_gslb_def g_namespace_def
        web_store_def sample_store_def Let_def mem_eval)
  then obtain h where h: "r = Ok h" by blast
  have "map_of h = host_status mem_view web_store (g_namespace ?g) (host_services (elems (is_rules (gs_ingress (g_spec ?g)))))"
    using service_health [OF quiet_api e] h by blast
  then have "map_of h ''a.example.com'' = Some ''Healthy'' \<and> map_of h ''b.example.com'' = Some ''NotFound''"
    by (simp add: web_gslb_def sample_rule_def sample_gslb_def g_namespace_def web_store_def sample_store_def
        host_services_def host_status_def path_status_def mem_eval)
  with e h show ?thesis by blast
qed

text \<open>
  C20. When the status update succeeds, the stored Gslb keeps its metadata and specification and its
  status is the health of its hosts, the non-local A records of its DNSEndpoint that have targets,
  and the geo tag of the cluster.
\<close>

theorem status_written:
  assumes "kube_api S V" and "updateGslbStatus S r w gslb = (Ok (), w')"
    and "v_gslb V w (meta_key (g_meta gslb)) = Some x"
  shows "\<exists>st d. v_gslb V w' (meta_key (g_meta gslb)) = Some (x\<lparr>g_status := st\<rparr>) \<and>
    v_dns V w (g_namespace gslb, g_name gslb) = Some d \<and>
    map_of (gst_serviceHealth st) =
      host_status V w (g_namespace gslb) (host_services (elems (is_rules (gs_ingress (g_spec gslb))))) \<and>
    map_of (gst_healthyRecords st) =
      map_of (rev (map (\<lambda>e. (ep_dnsName e, ep_targets e)) (filter reported (de_endpoints d)))) \<and>
    gst_geoTag st = co_clusterGeoTag (re_config r)"
  using kube_api.updateGslbStatus_stored [OF assms(1,2)] assms(3) healthy_records_lookup by force

definition sample_reconciler :: GslbReconciler where
  "sample_reconciler = \<lparr>re_config = sample_config, re_metrics = NewPrometheusMetrics sample_config,
     re_provider = factory_Provider (fst (NewDNSProviderFactory (Some quiet_sys) sample_config))\<rparr>"

theorem status_written_witness:
  "\<exists>w' st. updateGslbStatus quiet_sys sample_reconciler (web_store\<lparr>s_gslb := [((''ns'', ''g''), web_gslb [])],
       s_dns := [((''ns'', ''g''), (sample_endpoint [''10.0.0.9''])\<lparr>de_meta := empty_meta\<lparr>om_name := ''g'', om_namespace := ''ns''\<rparr>\<rparr>)]\<rparr>)
       (web_gslb []) = (Ok (), w') \<and>
     v_gslb mem_view w' (''ns'', ''g'') = Some ((web_gslb [])\<lparr>g_status := st\<rparr>) \<and> gst_geoTag st = ''us'' \<and>
     map_of (gst_healthyRecords st) ''a.b'' = Some [''10.0.0.9'']"
proof -
  let ?d = "(sample_endpoint [''10.0.0.9''])\<lparr>de_meta := empty_meta\<lparr>om_name := ''g'', om_namespace := ''ns''\<rparr>\<rparr>"
  let ?w = "web_store\<lparr>s_gslb := [((''ns'', ''g''), web_gslb [])], s_dns := [((''ns'', ''g''), ?d)]\<rparr>"
  obtain r w' where e: "updateGslbStatus quiet_sys sample_reconciler ?w (web_gslb []) = (r, w')" by fastforce
  have k: "meta_key (g_meta (web_gslb [])) = (''ns'', ''g'')" "g_namespace (web_gslb []) = ''ns''" "g_name (web_gslb []) = ''g''"
    by (simp_all add: web_gslb_def sample_gslb_def meta_key_def g_namespace_def g_name_def)
  from e have "r = Ok ()"
    by (auto simp: updateGslbStatus_def getServiceHealthStatus_def getHealthyRecords_def Let_def finish_def
        UpdateIngressHostsPerStatusMetric_def UpdateHealthyRecordsMetric_def web_gslb_def zero_spec_def sample_gslb_def
        g_namespace_def g_name_def web_store_def sample_store_def mem_eval)
  from status_written [OF quiet_api e [unfolded this], of "web_gslb []", unfolded k] e this
  show ?thesis
    by (auto simp: sample_reconciler_def sample_config_def sample_endpoint_def reported_def)
qed

end
