(* ===== verification/Ingress_Sync.thy ===== *)
theory Ingress_Sync
  imports Status
begin

text \<open>
  \<^verbatim>\<open>controllers/ingress.go\<close>: the Ingress that belongs to a Gslb, and saving it. A nil annotation map
  reads as an empty one.
\<close>

section \<open>Operations\<close>

definition primaryGeoTagAnnotation :: string where "primaryGeoTagAnnotation = ''k8gb.io/primary-geotag''"
definition strategyAnnotation :: string where "strategyAnnotation = ''k8gb.io/strategy''"

text \<open>The two annotations are set on the Gslb itself, so the result has the Gslb as well.\<close>

definition annotate_gslb :: "'w sys \<Rightarrow> Gslb \<Rightarrow> Gslb" where
  "annotate_gslb S gslb =
     (let st = gs_strategy (g_spec gslb);
          m = l_setMetaDataAnnotation S (g_meta gslb) strategyAnnotation (st_type st);
          m = (if st_primaryGeoTag st \<noteq> [] then l_setMetaDataAnnotation S m primaryGeoTagAnnotation (st_primaryGeoTag st) else m)
      in gslb\<lparr>g_meta := m\<rparr>)"

definition gslbIngress :: "'w sys \<Rightarrow> Gslb \<Rightarrow> (goerr + ingress) \<times> Gslb" where
  "gslbIngress S gslb =
     (let gslb = annotate_gslb S gslb;
          ingress = \<lparr>ing_meta = empty_meta\<lparr>om_name := g_name gslb, om_namespace := g_namespace gslb,
                       om_annotations := om_annotations (g_meta gslb)\<rparr>,
                     ing_spec = ToV1Beta1IngressSpec (gs_ingress (g_spec gslb)),
                     ing_lb = []\<rparr>
      in case l_setControllerReference S (g_meta gslb) (ing_meta ingress) of
           Inl err \<Rightarrow> (Inl err, gslb)
         | Inr m \<Rightarrow> (Inr (ingress\<lparr>ing_meta := m\<rparr>), gslb))"

definition annotations :: "object_meta \<Rightarrow> string gomap" where
  "annotations m = (case om_annotations m of None \<Rightarrow> [] | Some a \<Rightarrow> a)"

definition ingressEqual :: "ingress \<Rightarrow> ingress \<Rightarrow> bool" where
  "ingressEqual ing1 ing2 =
     (list_all (\<lambda>(k, v). m_get (annotations (ing_meta ing1)) k = v) (annotations (ing_meta ing2)) \<and>
      ing_spec ing1 = ing_spec ing2)"

definition merged_ingress :: "range_order \<Rightarrow> ingress \<Rightarrow> ingress \<Rightarrow> ingress" where
  "merged_ingress ord found i =
     found\<lparr>ing_spec := ing_spec i,
       ing_meta := (ing_meta found)\<lparr>om_annotations :=
         MergeAnnotations ord (om_annotations (ing_meta found)) (om_annotations (ing_meta i))\<rparr>\<rparr>"

definition saveIngress :: "'w sys \<Rightarrow> range_order \<Rightarrow> 'w \<Rightarrow> Gslb \<Rightarrow> ingress \<Rightarrow> goerr option \<times> 'w" where
  "saveIngress S ord w inst i =
     (case c_getIngress S w (g_namespace inst, g_name inst) of
        (Inl err, w) \<Rightarrow> if isNotFound err then c_createIngress S w i else (Some err, w)
      | (Inr found, w) \<Rightarrow>
          if \<not> ingressEqual found i then
            (case c_updateIngress S w (merged_ingress ord found i) of
               (Some err, w) \<Rightarrow> if isConflict err then (None, w) else (Some err, w)
             | (None, w) \<Rightarrow> (None, w))
          else (None, w))"

section \<open>Lemmas\<close>

text \<open>What is promised of a saved Ingress.\<close>

definition ingress_saved :: "ingress \<Rightarrow> ingress \<Rightarrow> bool" where
  "ingress_saved i j \<longleftrightarrow> ing_spec j = ing_spec i \<and> meta_key (ing_meta j) = meta_key (ing_meta i) \<and>
     (\<forall>(k, v) \<in> set (annotations (ing_meta i)). m_get (annotations (ing_meta j)) k = v)"

lemma m_get_self: "gomap_ok m \<Longrightarrow> (k, v) \<in> set m \<Longrightarrow> m_get m k = v"
  by (simp add: m_get_def gomap_ok_map_of [symmetric])

lemma ingress_saved_refl: "gomap_ok (annotations (ing_meta i)) \<Longrightarrow> ingress_saved i i"
  by (auto simp: ingress_saved_def m_get_self)

lemma ingressEqual_saved:
  "ingressEqual j i \<Longrightarrow> meta_key (ing_meta j) = meta_key (ing_meta i) \<Longrightarrow> ingress_saved i j"
  by (auto simp: ingressEqual_def ingress_saved_def list_all_iff)

lemma merge_get:
  assumes "range_ok ord" "gomap_ok (case source of None \<Rightarrow> [] | Some s \<Rightarrow> s)"
    and "MergeAnnotations ord target source = Some m" and "(k, v) \<in> set (case source of None \<Rightarrow> [] | Some s \<Rightarrow> s)"
  shows "m_get m k = v"
proof -
  let ?s = "case source of None \<Rightarrow> [] | Some s \<Rightarrow> s" and ?t = "case target of None \<Rightarrow> [] | Some t \<Rightarrow> t"
  have "m = fold (\<lambda>(k, v) t. if m_get t k \<noteq> v then m_set k v t else t) (ord ?s) ?t"
    using assms(3) by (simp add: MergeAnnotations_def)
  moreover have "map_of (ord ?s) k = Some v"
    using map_of_range [OF assms(1,2)] gomap_ok_map_of [OF assms(2)] assms(4) by simp
  ultimately show ?thesis
    using merge_fold [OF range_ok_distinct [OF assms(1,2)], of ?t k] by simp
qed

lemma merged_ingress_saved:
  assumes "range_ok ord" "gomap_ok (annotations (ing_meta i))" "meta_key (ing_meta found) = meta_key (ing_meta i)"
  shows "ingress_saved i (merged_ingress ord found i)" "meta_key (ing_meta (merged_ingress ord found i)) = meta_key (ing_meta i)"
proof -
  obtain m where m: "MergeAnnotations ord (om_annotations (ing_meta found)) (om_annotations (ing_meta i)) = Some m"
    by (simp add: MergeAnnotations_def)
  show "meta_key (ing_meta (merged_ingress ord found i)) = meta_key (ing_meta i)"
    using assms(3) by (simp add: merged_ingress_def meta_key_def)
  then show "ingress_saved i (merged_ingress ord found i)"
    using merge_get [OF assms(1) assms(2) [unfolded annotations_def] m]
    by (auto simp: ingress_saved_def merged_ingress_def annotations_def m)
qed

context kube_api
begin

lemma saveIngress_frame:
  "saveIngress S ord w g i = (r, w') \<Longrightarrow> keep_gslb V w w' \<and> keep_dns V w w' \<and> keep_work V w w'"
  unfolding saveIngress_def
  by (auto elim!: sum_stepE opt_stepE split: if_splits simp: keep_defs
      dest!: readsD(1) [OF get_ingress] create_ingress_frame update_ingress_frame)

lemma saveIngress_stored:
  assumes "saveIngress S ord w g i = (None, w')" "range_ok ord" "gomap_ok (annotations (ing_meta i))"
    and "meta_key (ing_meta i) = (g_namespace g, g_name g)"
  shows "\<exists>j. ingress_saved i j \<and>
    (v_ingress V w' = (v_ingress V w)(meta_key (ing_meta i) \<mapsto> j) \<and> v_refused V w' = v_refused V w \<or>
     v_ingress V w' = v_ingress V w \<and> v_refused V w' = v_refused V w @ [j])"
proof -
  obtain gr w1 where g: "c_getIngress S w (meta_key (ing_meta i)) = (gr, w1)" by fastforce
  have k: "v_ingress V w1 = v_ingress V w" "v_refused V w1 = v_refused V w"
    using readsD(1) [OF get_ingress g] by (simp_all add: keep_defs)
  show ?thesis
  proof (cases gr)
    case (Inl e)
    with assms g have "c_createIngress S w1 i = (None, w')" by (auto simp: saveIngress_def split: if_splits)
    from create_ingress [OF this] create_ingress_frame [OF this] k ingress_saved_refl [OF assms(3)] show ?thesis by auto
  next
    case (Inr found)
    have key: "meta_key (ing_meta found) = meta_key (ing_meta i)" using get_key(2) [OF g [unfolded Inr]] .
    have f: "v_ingress V w (meta_key (ing_meta i)) = Some found" using readsD(2) [OF get_ingress g Inr] .
    show ?thesis
    proof (cases "ingressEqual found i")
      case True
      with assms g Inr have w': "w' = w1" by (simp add: saveIngress_def)
      moreover have "v_ingress V w = (v_ingress V w)(meta_key (ing_meta i) \<mapsto> found)"
        using f by (simp add: fun_upd_idem)
      ultimately have "v_ingress V w' = (v_ingress V w)(meta_key (ing_meta i) \<mapsto> found)" by (simp only: k(1))
      with ingressEqual_saved [OF True key] k(2) \<open>w' = w1\<close> show ?thesis by blast
    next
      case False
      with assms g Inr have "(case c_updateIngress S w1 (merged_ingress ord found i) of
          (Some err, w) \<Rightarrow> if isConflict err then (None, w) else (Some err, w) | (None, w) \<Rightarrow> (None, w)) = (None, w')"
        by (simp add: saveIngress_def)
      then show ?thesis
      proof (cases rule: opt_stepE)
        case (None w2)
        with update_ingress [OF None(1)] update_ingress_frame [OF None(1)] merged_ingress_saved [OF assms(2,3) key] k
        show ?thesis by auto
      next
        case (Some e w2)
        then have "isConflict e" "w' = w2" by (auto split: if_splits)
        with update_ingress_conflict [OF Some(1)] update_ingress_frame [OF Some(1)] merged_ingress_saved [OF assms(2,3) key] k
        show ?thesis by auto
      qed
    qed
  qed
qed

end

section \<open>Properties\<close>


definition annotated_ingress :: "string gomap \<Rightarrow> ingress" where
  "annotated_ingress a = sample_ingress\<lparr>ing_meta := (ing_meta sample_ingress)\<lparr>om_annotations := Some a\<rparr>\<rparr>"

text \<open>A platform that refuses the second call of a run, the update, with a conflict.\<close>

definition conflict_sys :: "store sys" where
  "conflict_sys = mem_sys (\<lambda>n. if n = 1 then Some (Conflict ''changed'') else None) (\<lambda>q t s. Inr []) (\<lambda>s q. Inr [])"

lemma conflict_api: "kube_api conflict_sys mem_view"
  unfolding conflict_sys_def by (rule mem.kube_api_axioms)

definition annotated_store :: store where
  "annotated_store = sample_store\<lparr>s_ingress := [((''ns'', ''g''), annotated_ingress [(''x'', ''1'')])]\<rparr>"


end
