(* ===== verification/Dns_Update.thy ===== *)
theory Dns_Update
  imports Status
begin

text \<open>
  \<^verbatim>\<open>controllers/dnsupdate.go\<close>: the DNSEndpoint of a Gslb, that is, which addresses every host
  resolves to under the three strategies.
\<close>

section \<open>Operations\<close>

definition geoStrategy :: string where "geoStrategy = ''geoip''"
definition roundRobinStrategy :: string where "roundRobinStrategy = ''roundRobin''"
definition failoverStrategy :: string where "failoverStrategy = ''failover''"

text \<open>Strings that compare equal are equal, so the result of the unstable sort is determined.\<close>

definition sortTargets :: "string list \<Rightarrow> string list" where
  "sortTargets targets = sort targets"

text \<open>The targets of one host: the variable \<^verbatim>\<open>finalTargets\<close> at the end of the loop body.\<close>

definition finalTargets :: "Strategy \<Rightarrow> string \<Rightarrow> string \<Rightarrow> string list \<Rightarrow> string list \<Rightarrow> string list" where
  "finalTargets st clusterGeoTag health localTargets externalTargets =
     (let own = (if health = ''Healthy'' then localTargets else [])
      in if length externalTargets > 0 then
           (if st_type st = roundRobinStrategy \<or> st_type st = geoStrategy then own @ externalTargets
            else if st_type st = failoverStrategy then
              (if st_primaryGeoTag st = clusterGeoTag
               then (if health \<noteq> ''Healthy'' then externalTargets else own)
               else externalTargets)
            else own)
         else own)"

definition a_record :: "string \<Rightarrow> int \<Rightarrow> string list \<Rightarrow> string gomap option \<Rightarrow> dns_record" where
  "a_record name ttl targets labels =
     \<lparr>ep_dnsName = name, ep_recordTTL = ttl, ep_recordType = ''A'', ep_targets = targets, ep_labels = labels\<rparr>"

text \<open>The loop over the hosts, in the order the health map is visited.\<close>

fun dns_hosts ::
    "'w sys \<Rightarrow> range_order \<Rightarrow> GslbReconciler \<Rightarrow> Gslb \<Rightarrow> string list \<Rightarrow> string gomap \<Rightarrow> dns_record list \<Rightarrow> 'w
       \<Rightarrow> dns_record list go \<times> 'w" where
  "dns_hosts S ord r gslb localTargets [] gslbHosts w = (Ok gslbHosts, w)"
| "dns_hosts S ord r gslb localTargets ((host, health) # m) gslbHosts w =
     (let st = gs_strategy (g_spec gslb); ttl = st_dnsTtlSeconds st; zone = co_edgeDNSZone (re_config r) in
      if \<not> strContains zone host
      then (Err (Errorf ''ingress host %s does not match delegated zone %s'' [host, zone]), w)
      else
        let gslbHosts = (if health = ''Healthy''
               then gslbHosts @ [a_record (sprintf ''localtargets-%s'' [host]) ttl localTargets None] else gslbHosts)
        in case pr_GetExternalTargets S ord (re_provider r) w host of
             (Ok externalTargets, w) \<Rightarrow>
               (let final = finalTargets st (co_clusterGeoTag (re_config r)) health localTargets (sortTargets externalTargets);
                    gslbHosts = (if length final > 0
                       then gslbHosts @ [a_record host ttl final (Some [(''strategy'', st_type st)])] else gslbHosts)
                in dns_hosts S ord r gslb localTargets m gslbHosts w)
           | (Err e, w) \<Rightarrow> (Err e, w)
           | (Panic p, w) \<Rightarrow> (Panic p, w))"

definition dns_endpoint_of :: "Gslb \<Rightarrow> dns_record list \<Rightarrow> dns_endpoint" where
  "dns_endpoint_of gslb gslbHosts =
     \<lparr>de_meta = empty_meta\<lparr>om_name := g_name gslb, om_namespace := g_namespace gslb,
        om_annotations := Some [(''k8gb.absa.oss/dnstype'', ''local'')],
        om_labels := Some [(''k8gb.absa.oss/dnstype'', ''local'')]\<rparr>,
      de_endpoints = gslbHosts\<rparr>"

definition gslbDNSEndpoint ::
    "'w sys \<Rightarrow> range_order \<Rightarrow> GslbReconciler \<Rightarrow> 'w \<Rightarrow> Gslb \<Rightarrow> dns_endpoint go \<times> 'w" where
  "gslbDNSEndpoint S ord r w gslb =
     (case getServiceHealthStatus S w gslb of
        (Ok serviceHealth, w) \<Rightarrow>
          (case pr_GslbIngressExposedIPs S (re_provider r) w gslb of
             (Inl err, w) \<Rightarrow> (Err err, w)
           | (Inr localTargets, w) \<Rightarrow>
               (case dns_hosts S ord r gslb localTargets (ord serviceHealth) [] w of
                  (Ok gslbHosts, w) \<Rightarrow>
                    (let d = dns_endpoint_of gslb gslbHosts
                     in case l_setControllerReference S (g_meta gslb) (de_meta d) of
                          Inl err \<Rightarrow> (Err err, w)
                        | Inr m \<Rightarrow> (Ok (d\<lparr>de_meta := m\<rparr>), w))
                | (Err e, w) \<Rightarrow> (Err e, w)
                | (Panic p, w) \<Rightarrow> (Panic p, w)))
      | (Err e, w) \<Rightarrow> (Err e, w)
      | (Panic p, w) \<Rightarrow> (Panic p, w))"

section \<open>What a host resolves to\<close>

text \<open>What the strategies promise. Round robin and geoip give the healthy local
  targets and the external ones together. Failover gives, on the primary cluster, its own targets
  while they are healthy and the external ones otherwise; on a secondary cluster the external
  targets whenever there are any, and its own healthy ones only when there are none. A strategy
  of another name gives the healthy local targets.\<close>

definition strategy_choice :: "Strategy \<Rightarrow> string \<Rightarrow> string \<Rightarrow> string list \<Rightarrow> string list \<Rightarrow> string list \<Rightarrow> bool" where
  "strategy_choice st clusterGeoTag health local external targets \<longleftrightarrow>
     (st_type st \<in> {''roundRobin'', ''geoip''} \<longrightarrow>
        targets = (if health = ''Healthy'' then local else []) @ external) \<and>
     (st_type st = ''failover'' \<and> st_primaryGeoTag st = clusterGeoTag \<longrightarrow>
        targets = (if health = ''Healthy'' then local else external)) \<and>
     (st_type st = ''failover'' \<and> st_primaryGeoTag st \<noteq> clusterGeoTag \<longrightarrow>
        targets = (if external \<noteq> [] then external else if health = ''Healthy'' then local else [])) \<and>
     (st_type st \<notin> {''roundRobin'', ''geoip'', ''failover''} \<longrightarrow>
        targets = (if health = ''Healthy'' then local else []))"

text \<open>The records of one host, given what the external clusters answer for it.\<close>

definition host_records ::
    "GslbReconciler \<Rightarrow> Gslb \<Rightarrow> string list \<Rightarrow> (string \<Rightarrow> string list) \<Rightarrow> string \<times> string \<Rightarrow> dns_record list" where
  "host_records r gslb localTargets ext = (\<lambda>(host, health).
     (let st = gs_strategy (g_spec gslb);
          final = finalTargets st (co_clusterGeoTag (re_config r)) health localTargets (sort (ext host))
      in (if health = ''Healthy'' then [a_record (local_target host) (st_dnsTtlSeconds st) localTargets None] else [])
         @ (if final \<noteq> [] then [a_record host (st_dnsTtlSeconds st) final (Some [(''strategy'', st_type st)])] else [])))"

section \<open>Lemmas\<close>

lemma finalTargets_choice: "strategy_choice st tag health lt ext (finalTargets st tag health lt ext)"
  by (auto simp: strategy_choice_def finalTargets_def roundRobinStrategy_def geoStrategy_def failoverStrategy_def Let_def)

lemma dns_hosts_spec:
  assumes "\<And>w h. fst (pr_GetExternalTargets S ord (re_provider r) w h) = Ok (ext h)"
    and "dns_hosts S ord r g lt m acc w = (x, w')"
  shows "(\<forall>hs. x = Ok hs \<longrightarrow> hs = acc @ concat (map (host_records r g lt ext) m) \<and>
       (\<forall>(host, _) \<in> set m. strContains (co_edgeDNSZone (re_config r)) host)) \<and>
    ((\<forall>(host, _) \<in> set m. strContains (co_edgeDNSZone (re_config r)) host) \<longrightarrow> (\<exists>hs. x = Ok hs))"
  using assms(2)
proof (induction m arbitrary: acc w)
  case (Cons a m)
  obtain host health where a: "a = (host, health)" by (cases a)
  obtain w1 where e: "pr_GetExternalTargets S ord (re_provider r) w host = (Ok (ext host), w1)"
    using assms(1) [of w host] by (metis prod.collapse)
  show ?case
  proof (cases "strContains (co_edgeDNSZone (re_config r)) host")
    case True
    from Cons.prems True e have "dns_hosts S ord r g lt m (acc @ host_records r g lt ext (host, health)) w1 = (x, w')"
      by (simp add: a host_records_def Let_def sprintf_targets sortTargets_def del: sprintf.simps split: if_splits)
    from Cons.IH [OF this] True show ?thesis by (auto simp: a)
  qed (use Cons.prems in \<open>auto simp: a\<close>)
qed auto

context kube_api
begin

lemma dns_hosts_keep: "dns_hosts S ord r g lt m acc w = (x, w') \<Longrightarrow> keep_all V w w'"
proof (induction m arbitrary: acc w)
  case (Cons a m)
  obtain host health where a: "a = (host, health)" by (cases a)
  from Cons.prems show ?case
    unfolding a dns_hosts.simps Let_def
    by (auto split: if_splits elim!: go_stepE simp: pr_GetExternalTargets_eq
        dest!: asst.targets_keep Cons.IH intro: keep_all_trans)
qed simp

lemma gslbDNSEndpoint_keep: "gslbDNSEndpoint S ord r w g = (x, w') \<Longrightarrow> keep_all V w w'"
  unfolding gslbDNSEndpoint_def Let_def pr_GslbIngressExposedIPs_eq
  by (auto elim!: go_stepE sum_stepE split: sum.splits
      dest!: getServiceHealthStatus_keep GslbIngressExposedIPs_keep dns_hosts_keep intro: keep_all_trans)

lemma gslbDNSEndpoint_key:
  assumes "gslbDNSEndpoint S ord r w g = (Ok d, w')"
  shows "meta_key (de_meta d) = (g_namespace g, g_name g)"
proof -
  from assms [unfolded gslbDNSEndpoint_def Let_def] obtain hs m where
      m: "l_setControllerReference S (g_meta g) (de_meta (dns_endpoint_of g hs)) = Inr m" "de_meta d = m"
    by (auto elim!: go_stepE sum_stepE split: sum.splits)
  with set_owner [OF m(1)] show ?thesis by (auto simp: dns_endpoint_of_def meta_key_def)
qed

lemma gslbDNSEndpoint_spec:
  assumes "\<And>w h. fst (pr_GetExternalTargets S ord (re_provider r) w h) = Ok (ext h)"
    and "gslbDNSEndpoint S ord r w g = (Ok d, w')"
  shows "\<exists>h w1 w2 lt. gomap_ok h \<and>
    map_of h = host_status V w (g_namespace g) (host_services (elems (is_rules (gs_ingress (g_spec g))))) \<and>
    keep_all V w w1 \<and> GslbIngressExposedIPs S (pr_assistant (re_provider r)) w1 g = (Inr lt, w2) \<and>
    de_endpoints d = concat (map (host_records r g lt ext) (ord h)) \<and>
    (\<forall>(host, _) \<in> set (ord h). strContains (co_edgeDNSZone (re_config r)) host) \<and>
    meta_key (de_meta d) = (g_namespace g, g_name g)"
proof -
  from assms(2) [unfolded gslbDNSEndpoint_def Let_def] obtain h w1 lt w2 hs m where
      h: "getServiceHealthStatus S w g = (Ok h, w1)"
    and lt: "pr_GslbIngressExposedIPs S (re_provider r) w1 g = (Inr lt, w2)"
    and hs: "dns_hosts S ord r g lt (ord h) [] w2 = (Ok hs, w')"
    and m: "l_setControllerReference S (g_meta g) (de_meta (dns_endpoint_of g hs)) = Inr m"
    and d: "d = (dns_endpoint_of g hs)\<lparr>de_meta := m\<rparr>"
    by (auto elim!: go_stepE sum_stepE split: sum.splits)
  from set_owner [OF m] d have "meta_key (de_meta d) = (g_namespace g, g_name g)" "de_endpoints d = hs"
    by (auto simp: dns_endpoint_of_def meta_key_def)
  moreover from dns_hosts_spec [OF assms(1) hs]
  have "hs = concat (map (host_records r g lt ext) (ord h))"
    "\<forall>(host, _) \<in> set (ord h). strContains (co_edgeDNSZone (re_config r)) host" by auto
  ultimately show ?thesis
    using getServiceHealthStatus_spec [OF h] lt by (force simp: pr_GslbIngressExposedIPs_eq)
qed

end

text \<open>The target lists published under a name.\<close>

definition published :: "dns_endpoint \<Rightarrow> string \<Rightarrow> string list list" where
  "published d name = map ep_targets (filter (\<lambda>e. ep_dnsName e = name) (de_endpoints d))"

lemma hasPrefix_local: "hasPrefix ''localtargets-'' (local_target h)"
  by (simp add: local_target_def)

lemma local_target_inj: "local_target a = local_target b \<longleftrightarrow> a = b"
  by (simp add: local_target_def)

lemma host_records_named:
  assumes "\<not> hasPrefix ''localtargets-'' host" "\<not> hasPrefix ''localtargets-'' k"
  shows "map ep_targets (filter (\<lambda>e. ep_dnsName e = host) (host_records r g lt ext (k, s))) =
      (let t = finalTargets (gs_strategy (g_spec g)) (co_clusterGeoTag (re_config r)) s lt (sort (ext k))
       in if k = host \<and> t \<noteq> [] then [t] else [])"
    "map ep_targets (filter (\<lambda>e. ep_dnsName e = local_target host) (host_records r g lt ext (k, s))) =
      (if k = host \<and> s = ''Healthy'' then [lt] else [])"
proof -
  have ne: "local_target k \<noteq> host" "k \<noteq> local_target host"
    using assms hasPrefix_local by metis+
  then show "map ep_targets (filter (\<lambda>e. ep_dnsName e = host) (host_records r g lt ext (k, s))) =
      (let t = finalTargets (gs_strategy (g_spec g)) (co_clusterGeoTag (re_config r)) s lt (sort (ext k))
       in if k = host \<and> t \<noteq> [] then [t] else [])"
    "map ep_targets (filter (\<lambda>e. ep_dnsName e = local_target host) (host_records r g lt ext (k, s))) =
      (if k = host \<and> s = ''Healthy'' then [lt] else [])"
    by (auto simp: host_records_def a_record_def Let_def local_target_inj)
qed

lemma concat_if_key:
  "gomap_ok m \<Longrightarrow> map_of m k = Some s \<Longrightarrow> (\<And>k' s'. (k', s') \<in> set m \<Longrightarrow> k' \<noteq> k \<Longrightarrow> f (k', s') = []) \<Longrightarrow>
     concat (map f m) = f (k, s)"
proof (induction m)
  case (Cons a m)
  obtain k' s' where a: "a = (k', s')" by (cases a)
  from Cons.prems(1) have m: "gomap_ok m" "k' \<notin> fst ` set m" by (auto simp: gomap_ok_def a)
  show ?case
  proof (cases "k' = k")
    case True
    have "f x = []" if "x \<in> set m" for x
    proof -
      obtain k2 s2 where x: "x = (k2, s2)" by (cases x)
      with that m(2) True have "k2 \<noteq> k" by (metis fst_conv imageI)
      with that x show ?thesis using Cons.prems(3) [of k2 s2] by simp
    qed
    then have "concat (map f m) = []" by simp
    with True Cons.prems(2) show ?thesis by (simp add: a)
  next
    case False
    have "concat (map f m) = f (k, s)"
      by (rule Cons.IH [OF m(1)]) (use False Cons.prems(2,3) in \<open>simp_all add: a\<close>)
    moreover have "f (k', s') = []" using Cons.prems(3) [of k' s'] False by (simp add: a)
    ultimately show ?thesis by (simp add: a)
  qed
qed simp

lemma published_concat:
  "published d name = concat (map (\<lambda>x. map ep_targets (filter (\<lambda>e. ep_dnsName e = name) (f x))) m)"
  if "de_endpoints d = concat (map f m)"
  using that by (simp add: published_def filter_concat map_concat comp_def)

context kube_api
begin

lemma published_spec:
  assumes "range_ok ord"
    and "\<And>w h. fst (pr_GetExternalTargets S ord (re_provider r) w h) = Ok (ext h)"
    and "gslbDNSEndpoint S ord r w gslb = (Ok d, w')"
    and "\<And>h. host_status V w (g_namespace gslb) (host_services (elems (is_rules (gs_ingress (g_spec gslb))))) h \<noteq> None
      \<Longrightarrow> \<not> hasPrefix ''localtargets-'' h"
    and "host_status V w (g_namespace gslb) (host_services (elems (is_rules (gs_ingress (g_spec gslb))))) host = Some health"
  shows "\<exists>lt w1 w2. keep_all V w w1 \<and> GslbIngressExposedIPs S (pr_assistant (re_provider r)) w1 gslb = (Inr lt, w2) \<and>
    strContains (co_edgeDNSZone (re_config r)) host \<and>
    published d host = (let t = finalTargets (gs_strategy (g_spec gslb)) (co_clusterGeoTag (re_config r)) health lt (sort (ext host))
      in if t = [] then [] else [t]) \<and>
    published d (local_target host) = (if health = ''Healthy'' then [lt] else [])"
proof -
  from gslbDNSEndpoint_spec [OF assms(2,3)] obtain h w1 w2 lt where h: "gomap_ok h"
      "map_of h = host_status V w (g_namespace gslb) (host_services (elems (is_rules (gs_ingress (g_spec gslb)))))"
    and lt: "keep_all V w w1" "GslbIngressExposedIPs S (pr_assistant (re_provider r)) w1 gslb = (Inr lt, w2)"
    and d: "de_endpoints d = concat (map (host_records r gslb lt ext) (ord h))"
    and z: "\<forall>(host, _) \<in> set (ord h). strContains (co_edgeDNSZone (re_config r)) host" by blast
  have o: "gomap_ok (ord h)" "map_of (ord h) = map_of h" "set (ord h) = set h"
    using range_ok_distinct [OF assms(1) h(1)] map_of_range [OF assms(1) h(1)] range_ok_set [OF assms(1)] by auto
  have host: "map_of (ord h) host = Some health" using assms(5) h(2) o(2) by simp
  have pre: "\<not> hasPrefix ''localtargets-'' k" if "(k, s) \<in> set (ord h)" for k s
    using that gomap_ok_map_of [OF o(1), of k s] o(2) h(2) assms(4) [of k] by auto
  have in_h: "(host, health) \<in> set (ord h)" using host gomap_ok_map_of [OF o(1)] by blast
  note named = host_records_named [OF pre [OF in_h] pre]
  have "published d host = map ep_targets (filter (\<lambda>e. ep_dnsName e = host) (host_records r gslb lt ext (host, health)))"
    unfolding published_concat [OF d]
    by (rule concat_if_key [OF o(1) host]) (simp add: named(1) Let_def)
  moreover have "published d (local_target host) =
      map ep_targets (filter (\<lambda>e. ep_dnsName e = local_target host) (host_records r gslb lt ext (host, health)))"
    unfolding published_concat [OF d]
    by (rule concat_if_key [OF o(1) host]) (simp add: named(2))
  moreover have "strContains (co_edgeDNSZone (re_config r)) host" using z in_h by blast
  ultimately show ?thesis
    using lt named [OF in_h] by (intro exI [of _ lt] exI [of _ w1] exI [of _ w2]) (simp add: Let_def)
qed

end

section \<open>Properties\<close>

text \<open>
  C11. Which addresses a host resolves to. When a DNSEndpoint is computed for a Gslb, every host of
  its rules lies in the configured edge zone; the addresses published for a host are those that
  \<open>strategy_choice\<close> demands of its strategy, given its health, the addresses of its Ingress and the
  sorted answers of the other clusters, or nothing when there are none; and its local targets are
  published, for the other clusters to ask for, exactly while its service is healthy.
\<close>

theorem published_targets:
  assumes "kube_api S V" and "range_ok ord"
    and "\<And>w h. fst (pr_GetExternalTargets S ord (re_provider r) w h) = Ok (ext h)"
    and "gslbDNSEndpoint S ord r w gslb = (Ok d, w')"
    and "\<And>h. host_status V w (g_namespace gslb) (host_services (elems (is_rules (gs_ingress (g_spec gslb))))) h \<noteq> None
      \<Longrightarrow> \<not> hasPrefix ''localtargets-'' h"
    and "host_status V w (g_namespace gslb) (host_services (elems (is_rules (gs_ingress (g_spec gslb))))) host = Some health"
  shows "\<exists>lt w1 w2 ts. keep_all V w w1 \<and> GslbIngressExposedIPs S (pr_assistant (re_provider r)) w1 gslb = (Inr lt, w2) \<and>
    strContains (co_edgeDNSZone (re_config r)) host \<and>
    strategy_choice (gs_strategy (g_spec gslb)) (co_clusterGeoTag (re_config r)) health lt (sort (ext host)) ts \<and>
    published d host = (if ts = [] then [] else [ts]) \<and>
    published d (local_target host) = (if health = ''Healthy'' then [lt] else [])"
  using kube_api.published_spec [OF assms] finalTargets_choice unfolding Let_def by blast

lemma quiet_targets: "pr_GetExternalTargets quiet_sys ord p w h = (Ok [], w)"
  unfolding pr_GetExternalTargets_eq GetExternalTargets_def
  by (subst external_targets_spec [where ans = "\<lambda>q s. []"])
    (simp_all add: quiet_sys_def cluster_answer_def Let_def split_beta concat_eq_Nil_conv)

lemma sample_health:
  "getServiceHealthStatus quiet_sys web_store (web_gslb [sample_rule ''a.example.com'' [''up'']]) =
     (Ok [(''a.example.com'', ''Healthy'')], tick (tick web_store))"
  by (simp add: getServiceHealthStatus_def web_gslb_def sample_rule_def sample_gslb_def g_namespace_def endpoint_health_def
      web_store_def sample_store_def m_set_def Let_def mem_eval)

lemma sample_web_exposed:
  "map_of (s_ingress w) (''ns'', ''g'') = Some sample_ingress \<Longrightarrow> pr_GslbIngressExposedIPs quiet_sys p w (web_gslb rs) = (Inr [''10.0.0.9''], tick w)"
  using sample_exposed [of w "pr_assistant p"]
  by (simp add: pr_GslbIngressExposedIPs_eq GslbIngressExposedIPs_def g_namespace_def g_name_def web_gslb_def)

lemma web_store_ingress: "map_of (s_ingress web_store) (''ns'', ''g'') = Some sample_ingress"
  by (simp add: web_store_def sample_store_def)

text \<open>A platform on which another cluster names an address for the host, and a healthy Gslb with failover for
  which this cluster, \<^verbatim>\<open>us\<close>, is a secondary one.\<close>

definition told_answers :: "string \<Rightarrow> string \<Rightarrow> dns_msg" where
  "told_answers q s = (if q = ''localtargets-a.example.com.'' then [RR_A ''10.0.0.7''] else [])"

definition told_sys :: "store sys" where
  "told_sys = mem_sys (\<lambda>_. None) (\<lambda>q t s. Inr (told_answers q s)) (\<lambda>s q. Inr [])"

definition told_targets :: "string \<Rightarrow> string list" where
  "told_targets h = concat (map (cluster_answer told_answers (pr_assistant (re_provider sample_reconciler)) h)
     (enumerate 1 (map snd (GetExternalClusterNSNames (pr_config (re_provider sample_reconciler))))))"

definition secondary_gslb :: Gslb where
  "secondary_gslb = (web_gslb [sample_rule ''a.example.com'' [''up'']])\<lparr>g_spec :=
     (g_spec (web_gslb [sample_rule ''a.example.com'' [''up'']]))\<lparr>gs_strategy :=
       \<lparr>st_type = ''failover'', st_primaryGeoTag = ''uk'', st_dnsTtlSeconds = 30, st_splitBrainThresholdSeconds = 300\<rparr>\<rparr>\<rparr>"

lemma told_external: "pr_GetExternalTargets told_sys (\<lambda>m. m) (re_provider sample_reconciler) w h = (Ok (told_targets h), w)"
  unfolding pr_GetExternalTargets_eq GetExternalTargets_def told_targets_def
  by (subst external_targets_spec [where ans = told_answers]) (auto simp: told_sys_def told_answers_def)

lemma told_evals:
  "case gslbDNSEndpoint told_sys (\<lambda>m. m) sample_reconciler web_store secondary_gslb of
     (Ok d, w) \<Rightarrow> published d (local_target ''a.example.com'') = [[''10.0.0.9'']] | _ \<Rightarrow> False"
  "told_targets ''a.example.com'' = [''10.0.0.7'']"
  "co_clusterGeoTag (re_config sample_reconciler) = ''us''"
  by code_simp+

text \<open>The healthy secondary publishes the address of the other cluster, and its own as local targets.\<close>

theorem published_targets_witness:
  "\<exists>d w. gslbDNSEndpoint told_sys (\<lambda>m. m) sample_reconciler web_store secondary_gslb = (Ok d, w) \<and>
     published d ''a.example.com'' = [[''10.0.0.7'']] \<and> published d (local_target ''a.example.com'') = [[''10.0.0.9'']]"
proof -
  let ?st = "host_status mem_view web_store (g_namespace secondary_gslb) (host_services (elems (is_rules (gs_ingress (g_spec secondary_gslb)))))"
  obtain d w where d: "gslbDNSEndpoint told_sys (\<lambda>m. m) sample_reconciler web_store secondary_gslb = (Ok d, w)"
    and l: "published d (local_target ''a.example.com'') = [[''10.0.0.9'']]"
    using told_evals(1) by (auto split: prod.splits go.splits)
  have api: "kube_api told_sys mem_view" unfolding told_sys_def by (rule mem.kube_api_axioms)
  have st: "?st = [''a.example.com'' \<mapsto> ''Healthy'']"
    by (simp add: secondary_gslb_def web_gslb_def sample_rule_def sample_gslb_def g_namespace_def web_store_def sample_store_def
        host_services_def host_status_def path_status_def mem_eval)
  have e: "fst (pr_GetExternalTargets told_sys (\<lambda>m. m) (re_provider sample_reconciler) w h) = Ok (told_targets h)" for w h
    by (simp add: told_external)
  have p: "?st h \<noteq> None \<Longrightarrow> \<not> hasPrefix ''localtargets-'' h" for h
    unfolding st by (auto split: if_splits)
  have s: "?st ''a.example.com'' = Some ''Healthy''" unfolding st by simp
  from published_targets [OF api range_ok_id e d p s] l obtain lt ts where
      "strategy_choice (gs_strategy (g_spec secondary_gslb)) ''us'' ''Healthy'' lt [''10.0.0.7''] ts"
      "published d ''a.example.com'' = (if ts = [] then [] else [ts])"
    by (auto simp: told_evals)
  then have "published d ''a.example.com'' = [[''10.0.0.7'']]" by (simp add: strategy_choice_def secondary_gslb_def)
  with d l show ?thesis by blast
qed

end
