(* ===== verification/Reconcile.thy ===== *)
theory Reconcile
  imports Dep_Spec Finalizers Ingress_Sync Dns_Update
begin

text \<open>
  \<^verbatim>\<open>controllers/gslb_controller.go\<close>: one run of the reconciliation loop for a Gslb, composed of the
  steps of the other components. The dependency resolver is the only state of the reconciler that
  a run changes besides the world. A panic of a step ends the run.
\<close>

section \<open>Operations\<close>

text \<open>The loop over the current and the legacy finalizer of a Gslb that is being deleted.\<close>

fun drop_finalizers ::
    "'w sys \<Rightarrow> GslbReconciler \<Rightarrow> string list \<Rightarrow> Gslb \<Rightarrow> 'w \<Rightarrow> Gslb go \<times> 'w" where
  "drop_finalizers S r [] gslb w = (Ok gslb, w)"
| "drop_finalizers S r (f # fs) gslb w =
     (if contains (om_finalizers (g_meta gslb)) f then
        (case finalizeGslb S (re_provider r) w gslb of
           (Some err, w) \<Rightarrow> (Err err, w)
         | (None, w) \<Rightarrow>
             (case remove_fin (om_finalizers (g_meta gslb)) f of
                Ok l \<Rightarrow>
                  (case c_updateGslb S w (set_finalizers l gslb) of
                     (Inl err, w) \<Rightarrow> (Err err, w)
                   | (Inr gslb, w) \<Rightarrow> drop_finalizers S r fs gslb w)
              | Err e \<Rightarrow> (Err e, w)
              | Panic p \<Rightarrow> (Panic p, w)))
      else drop_finalizers S r fs gslb w)"

text \<open>From the zone delegation on. An error there is logged and the Gslb is requeued.\<close>

definition reconcile_zone ::
    "'w sys \<Rightarrow> range_order \<Rightarrow> zone_sort \<Rightarrow> GslbReconciler \<Rightarrow> ReconcileResultHandler \<Rightarrow> 'w \<Rightarrow> Gslb
       \<Rightarrow> reconcile_return go \<times> 'w" where
  "reconcile_zone S ord zsort r result w gslb =
     (case pr_CreateZoneDelegationForExternalDNS S ord zsort (re_provider r) w gslb of
        (Ok _, w) \<Rightarrow>
          (case updateGslbStatus S r w gslb of
             (Ok _, w) \<Rightarrow> (Ok (Requeue result), w)
           | (Err err, w) \<Rightarrow> (Ok (RequeueError result err), w)
           | (Panic p, w) \<Rightarrow> (Panic p, w))
      | (Err err, w) \<Rightarrow> (Ok (Requeue result), w)
      | (Panic p, w) \<Rightarrow> (Panic p, w))"

text \<open>The Ingress and the DNSEndpoint of a Gslb that has its finalizer.\<close>

definition reconcile_objects ::
    "'w sys \<Rightarrow> range_order \<Rightarrow> zone_sort \<Rightarrow> GslbReconciler \<Rightarrow> ReconcileResultHandler \<Rightarrow> 'w \<Rightarrow> Gslb
       \<Rightarrow> reconcile_return go \<times> 'w" where
  "reconcile_objects S ord zsort r result w gslb =
     (case gslbIngress S gslb of
        (Inl err, gslb) \<Rightarrow> (Ok (RequeueError result err), w)
      | (Inr ingress, gslb) \<Rightarrow>
          (case saveIngress S ord w gslb ingress of
             (Some err, w) \<Rightarrow> (Ok (RequeueError result err), w)
           | (None, w) \<Rightarrow>
               (case gslbDNSEndpoint S ord r w gslb of
                  (Ok dnsEndpoint, w) \<Rightarrow>
                    (case pr_SaveDNSEndpoint S (re_provider r) w gslb dnsEndpoint of
                       (Some err, w) \<Rightarrow> (Ok (RequeueError result err), w)
                     | (None, w) \<Rightarrow> reconcile_zone S ord zsort r result w gslb)
                | (Err err, w) \<Rightarrow> (Ok (RequeueError result err), w)
                | (Panic p, w) \<Rightarrow> (Panic p, w))))"

definition reconcile_delete ::
    "'w sys \<Rightarrow> GslbReconciler \<Rightarrow> ReconcileResultHandler \<Rightarrow> 'w \<Rightarrow> Gslb \<Rightarrow> reconcile_return go \<times> 'w" where
  "reconcile_delete S r result w gslb =
     (case drop_finalizers S r [gslbFinalizer, legacyFinalizer] gslb w of
        (Ok _, w) \<Rightarrow> (Ok (Stop result), w)
      | (Err err, w) \<Rightarrow> (Ok (RequeueError result err), w)
      | (Panic p, w) \<Rightarrow> (Panic p, w))"

definition reconcile_live ::
    "'w sys \<Rightarrow> range_order \<Rightarrow> zone_sort \<Rightarrow> GslbReconciler \<Rightarrow> ReconcileResultHandler \<Rightarrow> 'w \<Rightarrow> Gslb
       \<Rightarrow> reconcile_return go \<times> 'w" where
  "reconcile_live S ord zsort r result w gslb =
     (if \<not> contains (om_finalizers (g_meta gslb)) gslbFinalizer then
        (case addFinalizer S w gslb of
           (Inl err, w) \<Rightarrow> (Ok (RequeueError result err), w)
         | (Inr gslb, w) \<Rightarrow> reconcile_objects S ord zsort r result w gslb)
      else reconcile_objects S ord zsort r result w gslb)"

definition Reconcile ::
    "'w sys \<Rightarrow> range_order \<Rightarrow> zone_sort \<Rightarrow> GslbReconciler \<Rightarrow> DependencyResolver \<Rightarrow> 'w \<Rightarrow> namespaced_name
       \<Rightarrow> reconcile_return go \<times> DependencyResolver \<times> 'w" where
  "Reconcile S ord zsort r dr w req =
     (let result = NewReconcileResultHandler (co_reconcileRequeueSeconds (re_config r)) in
      case c_getGslb S w req of
        (Inl err, w) \<Rightarrow>
          (Ok (if isNotFound err then Stop result
               else RequeueError result (Errorf ''error reading the object (%s)'' [err_text err])), dr, w)
      | (Inr gslb, w) \<Rightarrow>
          (case ResolveGslbSpec (Some S) dr w gslb of
             (Some err, gslb, dr, w) \<Rightarrow>
               (Ok (RequeueError result (Errorf ''resolving spec (%s)'' [err_text err])), dr, w)
           | (None, gslb, dr, w) \<Rightarrow>
               (let (x, w) = (if om_deletionTimestamp (g_meta gslb) \<noteq> None
                              then reconcile_delete S r result w gslb
                              else reconcile_live S ord zsort r result w gslb)
                in (x, dr, w))))"

section \<open>Deletion\<close>

text \<open>The stored object while the finalizers of a deleted Gslb are dropped: it exists as long as one
  is left.\<close>

definition deletion_inv :: "'w view \<Rightarrow> 'w \<Rightarrow> Gslb \<Rightarrow> bool" where
  "deletion_inv V w g \<longleftrightarrow> om_deletionTimestamp (g_meta g) \<noteq> None \<and>
     map_option g_meta (v_gslb V w (meta_key (g_meta g))) =
       (if om_finalizers (g_meta g) = [] then None else Some (g_meta g))"

lemma set_finalizers_sel [simp]:
  "g_meta (set_finalizers fs g) = (g_meta g)\<lparr>om_finalizers := fs\<rparr>" "g_spec (set_finalizers fs g) = g_spec g"
  by (simp_all add: set_finalizers_def)

lemma count_list_filter: "count_list (filter (\<lambda>x. x \<noteq> f) xs) y = (if y = f then 0 else count_list xs y)"
  by (induction xs) auto

lemma meta_key_finalizers [simp]: "meta_key (m\<lparr>om_finalizers := fs\<rparr>) = meta_key m"
  by (simp add: meta_key_def)

lemma remove_fin_panic: "remove_fin l s = Panic m \<Longrightarrow> count_list l s > 1"
proof (rule ccontr)
  assume p: "remove_fin l s = Panic m" and "\<not> count_list l s > 1"
  then have "remove_fin l s = Ok (filter (\<lambda>v. v \<noteq> s) l)" by (intro remove_unique) simp
  with p show False by simp
qed

context kube_api
begin

lemma resolve_store:
  assumes "ResolveGslbSpec (Some S) dr w g = (r, g1, dr1, w1)" and "v_gslb V w (meta_key (g_meta g)) = Some g0"
    and "g_meta g0 = g_meta g" and "om_deletionTimestamp (g_meta g) = None \<or> om_finalizers (g_meta g) \<noteq> []"
  shows "\<exists>g2. v_gslb V w1 (meta_key (g_meta g)) = Some g2 \<and> g_meta g2 = g_meta g"
proof -
  have st: "stored_gslb g' = Some g'" if "g_meta g' = g_meta g" for g'
    using assms(4) that by (auto simp: stored_gslb_def)
  let ?g = "g\<lparr>g_spec := (g_spec g)\<lparr>gs_strategy := set_predefined (gs_strategy (g_spec g))\<rparr>\<rparr>"
  consider "w1 = w" | x where "c_updateGslb S w ?g = (x, w1)"
    using assms(1) by (auto simp: ResolveGslbSpec_def Let_def split: if_splits option.splits elim!: sum_stepE)
  then show ?thesis
  proof cases
    case (2 x)
    show ?thesis
    proof (cases x)
      case (Inl e)
      with update_gslb_failed [OF 2 [unfolded Inl]] st assms(2,3) show ?thesis by (auto simp: fun_upd_def)
    next
      case (Inr g')
      with update_gslb [OF 2 [unfolded Inr]] st show ?thesis by auto
    qed
  qed (use assms in auto)
qed

lemma drop_finalizers_stuck:
  assumes "\<And>w g. fst (pr_Finalize S (re_provider r) w g) \<noteq> None"
    and "\<exists>f \<in> set fs. f \<in> set (om_finalizers (g_meta g))"
    and "drop_finalizers S r fs g w = (x, w')"
  shows "(\<exists>e. x = Err e) \<and> keep_gslb V w w'"
  using assms(2,3)
proof (induction fs)
  case (Cons f fs)
  show ?case
  proof (cases "f \<in> set (om_finalizers (g_meta g))")
    case True
    obtain e w1 where f: "pr_Finalize S (re_provider r) w g = (Some e, w1)"
      using assms(1) [of w g] by (metis not_None_eq prod.collapse)
    with Cons.prems(2) True have "x = Err e" "w' = w1" by (simp_all add: finalizeGslb_def)
    with pr_finalize_frame [OF f] show ?thesis by (simp add: dns_frame_def)
  next
    case False
    with Cons show ?thesis by simp
  qed
qed simp

lemma drop_finalizers_spec:
  "drop_finalizers S r fs g w = (Ok g', w') \<Longrightarrow> deletion_inv V w g \<Longrightarrow>
     (\<And>f. f \<in> set fs \<Longrightarrow> count_list (om_finalizers (g_meta g)) f \<le> 1) \<Longrightarrow>
     deletion_inv V w' g' \<and>
     g_meta g' = (g_meta g)\<lparr>om_finalizers := filter (\<lambda>f. f \<notin> set fs) (om_finalizers (g_meta g))\<rparr>"
proof (induction fs arbitrary: g w)
  case (Cons f fs)
  show ?case
  proof (cases "f \<in> set (om_finalizers (g_meta g))")
    case False
    have "filter (\<lambda>x. x \<notin> set (f # fs)) (om_finalizers (g_meta g)) = filter (\<lambda>x. x \<notin> set fs) (om_finalizers (g_meta g))"
      using False by (auto intro: filter_cong)
    with Cons.IH [of g w] Cons.prems False show ?thesis by simp
  next
    case True
    let ?l = "filter (\<lambda>x. x \<noteq> f) (om_finalizers (g_meta g))"
    have rm: "remove_fin (om_finalizers (g_meta g)) f = Ok ?l" using Cons.prems(3) by (intro remove_unique) simp
    from Cons.prems(1) True rm obtain w1 g1 w2 where fin: "pr_Finalize S (re_provider r) w g = (None, w1)"
      and u: "c_updateGslb S w1 (set_finalizers ?l g) = (Inr g1, w2)" and d: "drop_finalizers S r fs g1 w2 = (Ok g', w')"
      by (auto simp: finalizeGslb_def elim!: opt_stepE sum_stepE)
    from update_gslb [OF u] have g1: "g_meta g1 = (g_meta g)\<lparr>om_finalizers := ?l\<rparr>"
      and v: "v_gslb V w2 (meta_key (g_meta g)) = stored_gslb g1" by simp_all
    have "deletion_inv V w2 g1"
      using Cons.prems(2) v by (auto simp: deletion_inv_def g1 stored_gslb_def)
    moreover have "count_list (om_finalizers (g_meta g1)) x \<le> 1" if "x \<in> set fs" for x
      using Cons.prems(3) [of x] that by (auto simp: g1 count_list_filter)
    ultimately have "deletion_inv V w' g' \<and>
        g_meta g' = (g_meta g1)\<lparr>om_finalizers := filter (\<lambda>f. f \<notin> set fs) (om_finalizers (g_meta g1))\<rparr>"
      using Cons.IH [OF d] by blast
    then show ?thesis by (auto simp: g1 conj_commute)
  qed
qed simp

text \<open>What a run that found the Gslb does: the steps up to the decision between deletion and the live
  branch.\<close>

lemma Reconcile_found:
  assumes "Reconcile S ord zsort r dr w req = (x, dr', w')" and "v_gslb V w req = Some g"
  obtains (read) e where "x = Ok (no_result, Some e)" "keep_all V w w'" "dr' = dr"
    | (resolve) w1 e e' g1 where "keep_all V w w1" "ResolveGslbSpec (Some S) dr w1 g = (Some e', g1, dr', w')"
        "x = Ok (no_result, Some e)" "meta_key (g_meta g) = req"
    | (deleted) w1 g1 w2 where "keep_all V w w1" "ResolveGslbSpec (Some S) dr w1 g = (None, g1, dr', w2)"
        "om_deletionTimestamp (g_meta g) \<noteq> None"
        "reconcile_delete S r (NewReconcileResultHandler (co_reconcileRequeueSeconds (re_config r))) w2 g1 = (x, w')"
        "meta_key (g_meta g) = req"
    | (live) w1 g1 w2 where "keep_all V w w1" "ResolveGslbSpec (Some S) dr w1 g = (None, g1, dr', w2)"
        "om_deletionTimestamp (g_meta g) = None"
        "reconcile_live S ord zsort r (NewReconcileResultHandler (co_reconcileRequeueSeconds (re_config r))) w2 g1 = (x, w')"
        "meta_key (g_meta g) = req"
proof -
  obtain gr w1 where get: "c_getGslb S w req = (gr, w1)" by fastforce
  note k = readsD [OF get_gslb get]
  show ?thesis
  proof (cases gr)
    case (Inl e)
    with k(3) assms(2) have "\<not> isNotFound e" by auto
    with assms(1) get Inl k(1) show ?thesis by (intro read) (auto simp: Reconcile_def RequeueError_def)
  next
    case (Inr h)
    with k(2) assms(2) have h: "h = g" by simp
    have key: "meta_key (g_meta g) = req" using get_key(1) [OF get [unfolded Inr]] h by simp
    obtain y g1 dr1 w2 where res: "ResolveGslbSpec (Some S) dr w1 g = (y, g1, dr1, w2)" by (metis prod_cases4)
    note step = assms(1) [unfolded Reconcile_def Let_def get Inr h prod.case sum.case res]
    show ?thesis
    proof (cases y)
      case (Some e)
      with step res k(1) key show ?thesis by (intro resolve) (auto simp: RequeueError_def)
    next
      case None
      with step res k(1) key resolve_meta [OF res] show ?thesis
        using deleted [of w1 g1 w2] live [of w1 g1 w2] by (auto split: if_splits prod.splits)
    qed
  qed
qed

lemma keep_gslb_stored: "keep_all V w w' \<Longrightarrow> v_gslb V w' = v_gslb V w"
  by (simp add: keep_defs)

lemma Reconcile_guard:
  assumes "\<And>w g. fst (pr_Finalize S (re_provider r) w g) \<noteq> None"
    and "Reconcile S ord zsort r dr w (meta_key (g_meta g)) = (x, dr', w')" and "v_gslb V w (meta_key (g_meta g)) = Some g"
    and "om_deletionTimestamp (g_meta g) \<noteq> None"
    and "\<exists>f \<in> {gslbFinalizer, legacyFinalizer}. f \<in> set (om_finalizers (g_meta g))"
  shows "\<exists>g' e. v_gslb V w' (meta_key (g_meta g)) = Some g' \<and> g_meta g' = g_meta g \<and> x = Ok (no_result, Some e)"
proof -
  have ne: "om_finalizers (g_meta g) \<noteq> []" using assms(5) by auto
  note store = resolve_store [where g = g, simplified ne simp_thms]
  from assms(2,3) show ?thesis
  proof (cases rule: Reconcile_found)
    case (read e)
    with assms(3) show ?thesis by (simp add: keep_gslb_stored)
  next
    case (resolve w1 e e' g1)
    with store [OF resolve(2)] assms(3) show ?thesis by (auto simp: keep_gslb_stored)
  next
    case (deleted w1 g1 w2)
    obtain y w3 where d: "drop_finalizers S r [gslbFinalizer, legacyFinalizer] g1 w2 = (y, w3)" by fastforce
    have "(\<exists>e. y = Err e) \<and> keep_gslb V w2 w3"
      using drop_finalizers_stuck [OF assms(1) _ d] assms(5) resolve_meta [OF deleted(2)] by simp
    with deleted(4) d store [OF deleted(2)] assms(3) deleted(1) show ?thesis
      by (auto simp: reconcile_delete_def RequeueError_def keep_gslb_def keep_gslb_stored)
  qed (use assms(4) in simp)
qed

lemma Reconcile_deleted:
  assumes "Reconcile S ord zsort r dr w (meta_key (g_meta g)) = (Ok (res, None), dr', w')"
    and "v_gslb V w (meta_key (g_meta g)) = Some g"
    and "om_deletionTimestamp (g_meta g) \<noteq> None" and "om_finalizers (g_meta g) \<noteq> []"
    and "\<And>f. f \<in> {gslbFinalizer, legacyFinalizer} \<Longrightarrow> count_list (om_finalizers (g_meta g)) f \<le> 1"
  shows "map_option g_meta (v_gslb V w' (meta_key (g_meta g))) =
    (let rest = filter (\<lambda>f. f \<notin> {gslbFinalizer, legacyFinalizer}) (om_finalizers (g_meta g))
     in if rest = [] then None else Some ((g_meta g)\<lparr>om_finalizers := rest\<rparr>))"
  using assms(1,2)
proof (cases rule: Reconcile_found)
  case (deleted w1 g1 w2)
  obtain g2 where d: "drop_finalizers S r [gslbFinalizer, legacyFinalizer] g1 w2 = (Ok g2, w')"
    using deleted(4) by (auto simp: reconcile_delete_def RequeueError_def elim: go_stepE)
  have m: "g_meta g1 = g_meta g" using resolve_meta [OF deleted(2)] .
  have "\<exists>g3. v_gslb V w2 (meta_key (g_meta g)) = Some g3 \<and> g_meta g3 = g_meta g"
    using resolve_store [OF deleted(2)] assms(2,4) deleted(1) by (auto simp: keep_gslb_stored)
  then have "deletion_inv V w2 g1" using assms(3,4) m by (auto simp: deletion_inv_def)
  with drop_finalizers_spec [OF d] assms(5) m show ?thesis
    by (auto simp: deletion_inv_def Let_def)
qed (use assms(3) in auto)

end

end
