(* ===== verification/Live.thy ===== *)
theory Live
  imports Reconcile
begin

text \<open>
  What one successful run of \<^verbatim>\<open>Reconcile\<close> for a live Gslb leaves behind: the finalizer, the Ingress, the
  DNSEndpoint and the delay after which it runs again. The lemmas follow the Gslb through the
  steps of the run, using the frame of every step.
\<close>

section \<open>The wanted Ingress\<close>

lemma annotations_set: "annotations (m\<lparr>om_annotations := Some a\<rparr>) = a"
  by (simp add: annotations_def)

lemma g_key_meta:
  "meta_key (g_meta g') = meta_key (g_meta g) \<Longrightarrow> g_namespace g' = g_namespace g \<and> g_name g' = g_name g"
  by (simp add: meta_key_g)

text \<open>The annotations that the strategy of a Gslb asks for.\<close>

definition strategy_annotated :: "Strategy \<Rightarrow> object_meta \<Rightarrow> bool" where
  "strategy_annotated st m \<longleftrightarrow> m_get (annotations m) strategyAnnotation = st_type st \<and>
     (st_primaryGeoTag st \<noteq> [] \<longrightarrow> m_get (annotations m) primaryGeoTagAnnotation = st_primaryGeoTag st)"

context kube_api
begin

lemma annotate_gslb_spec:
  assumes "gomap_ok (annotations (g_meta g))"
  shows "g_spec (annotate_gslb S g) = g_spec g" "meta_key (g_meta (annotate_gslb S g)) = meta_key (g_meta g)"
    "gomap_ok (annotations (g_meta (annotate_gslb S g)))"
    "strategyAnnotation \<in> fst ` set (annotations (g_meta (annotate_gslb S g)))"
    "st_primaryGeoTag (gs_strategy (g_spec g)) \<noteq> [] \<longrightarrow>
       primaryGeoTagAnnotation \<in> fst ` set (annotations (g_meta (annotate_gslb S g)))"
    "strategy_annotated (gs_strategy (g_spec g)) (g_meta (annotate_gslb S g))"
  using assms
  by (auto simp: annotate_gslb_def strategy_annotated_def set_annotation annotations_def meta_key_def Let_def
      strategyAnnotation_def primaryGeoTagAnnotation_def split: option.splits)

lemma gslbIngress_spec:
  assumes "gslbIngress S g = (Inr i, ga)"
  shows "ga = annotate_gslb S g" "meta_key (ing_meta i) = meta_key (g_meta ga)"
    "annotations (ing_meta i) = annotations (g_meta ga)" "ing_spec i = ToV1Beta1IngressSpec (gs_ingress (g_spec g))"
proof -
  from assms obtain m where m: "ga = annotate_gslb S g" "ing_meta i = m" "ing_spec i = ToV1Beta1IngressSpec (gs_ingress (g_spec ga))"
    and o: "l_setControllerReference S (g_meta ga) (empty_meta\<lparr>om_name := g_name ga, om_namespace := g_namespace ga,
      om_annotations := om_annotations (g_meta ga)\<rparr>) = Inr m"
    by (auto simp: gslbIngress_def Let_def split: sum.splits)
  have "g_spec (annotate_gslb S g) = g_spec g" by (simp add: annotate_gslb_def Let_def)
  with set_owner [OF o] m show "ga = annotate_gslb S g" "meta_key (ing_meta i) = meta_key (g_meta ga)"
    "annotations (ing_meta i) = annotations (g_meta ga)" "ing_spec i = ToV1Beta1IngressSpec (gs_ingress (g_spec g))"
    by (auto simp: annotations_def meta_key_def g_name_def g_namespace_def)
qed

end

text \<open>An Ingress saved for a Gslb carries its specification and its strategy annotations.\<close>

definition ingress_for :: "Gslb \<Rightarrow> ingress \<Rightarrow> bool" where
  "ingress_for g j \<longleftrightarrow> ing_spec j = ToV1Beta1IngressSpec (gs_ingress (g_spec g)) \<and>
     strategy_annotated (gs_strategy (g_spec g)) (ing_meta j)"

lemma saved_annotation:
  assumes "ingress_saved i j" "k \<in> fst ` set (annotations (ing_meta i))" "gomap_ok (annotations (ing_meta i))"
  shows "m_get (annotations (ing_meta j)) k = m_get (annotations (ing_meta i)) k"
  using assms by (auto simp: ingress_saved_def m_get_self)

section \<open>The steps of a live run\<close>

context kube_api
begin

lemma saved_ingress_for:
  assumes "gslbIngress S g = (Inr i, ga)" "gomap_ok (annotations (g_meta g))" "ingress_saved i j"
  shows "ingress_for g j"
proof -
  note a = annotate_gslb_spec [OF assms(2)] and i = gslbIngress_spec [OF assms(1)]
  have "ing_spec j = ing_spec i" using assms(3) by (simp add: ingress_saved_def)
  moreover have "strategy_annotated (gs_strategy (g_spec g)) (ing_meta j)"
    using a(6) saved_annotation [OF assms(3)] a(3,4,5) i(1,3) by (auto simp: strategy_annotated_def)
  ultimately show ?thesis using i(4) by (simp add: ingress_for_def)
qed

lemma reconcile_zone_ok:
  assumes "reconcile_zone S ord zsort r result w g = (Ok (res, None), w')"
  shows "res = rr_delayedResult result" "keep_ingress V w w'" "keep_work V w w'"
    "map_option g_meta (v_gslb V w' k) = map_option g_meta (v_gslb V w k)"
    "keep_dns_outside V (co_k8gbNamespace (pr_config (re_provider r))) w w'"
proof -
  have "res = rr_delayedResult result \<and> keep_ingress V w w' \<and> keep_work V w w' \<and>
      map_option g_meta (v_gslb V w' k) = map_option g_meta (v_gslb V w k) \<and>
      keep_dns_outside V (co_k8gbNamespace (pr_config (re_provider r))) w w'"
    using assms [unfolded reconcile_zone_def]
  proof (cases rule: go_stepE)
    case (Ok u w1)
    note c = pr_create_frame [OF Ok(1)] pr_create_outside [OF Ok(1)]
    from Ok(2) obtain w2 where u: "updateGslbStatus S r w1 g = (go.Ok (), w2)" "w' = w2" "res = rr_delayedResult result"
      by (auto simp: RequeueError_def Requeue_def elim: go_stepE)
    with c updateGslbStatus_frame [OF u(1)] show ?thesis
      by (cases k) (simp add: dns_frame_def keep_defs keep_dns_outside_def)
  next
    case (Err e w1)
    with pr_create_frame [OF Err(1)] pr_create_outside [OF Err(1)] show ?thesis
      by (auto simp: Requeue_def dns_frame_def keep_gslb_def)
  qed auto
  then show "res = rr_delayedResult result" "keep_ingress V w w'" "keep_work V w w'"
    "map_option g_meta (v_gslb V w' k) = map_option g_meta (v_gslb V w k)"
    "keep_dns_outside V (co_k8gbNamespace (pr_config (re_provider r))) w w'" by blast+
qed

lemma reconcile_objects_ok:
  assumes "reconcile_objects S ord zsort r result w g = (Ok (res, None), w')"
  obtains i ga w1 d w2 w3 where "gslbIngress S g = (Inr i, ga)" "saveIngress S ord w ga i = (None, w1)"
    "gslbDNSEndpoint S ord r w1 ga = (Ok d, w2)"
    "SaveDNSEndpoint S (pr_assistant (re_provider r)) w2 (g_namespace ga) d = (None, w3)"
    "reconcile_zone S ord zsort r result w3 ga = (Ok (res, None), w')"
  using assms
  by (auto simp: reconcile_objects_def RequeueError_def pr_SaveDNSEndpoint_eq
      elim!: sum_stepE opt_stepE go_stepE)

lemma reconcile_live_ok:
  assumes "reconcile_live S ord zsort r result w g = (Ok (res, None), w')"
    and "map_option g_meta (v_gslb V w (meta_key (g_meta g))) = Some (g_meta g)"
    and "om_deletionTimestamp (g_meta g) = None"
  obtains w1 g1 where "reconcile_objects S ord zsort r result w1 g1 = (Ok (res, None), w')"
    "g_spec g1 = g_spec g" "g_meta g1 = (g_meta g)\<lparr>om_finalizers := om_finalizers (g_meta g1)\<rparr>"
    "gslbFinalizer \<in> set (om_finalizers (g_meta g1))"
    "map_option g_meta (v_gslb V w1 (meta_key (g_meta g))) = Some (g_meta g1)"
    "keep_ingress V w w1" "keep_dns V w w1" "keep_work V w w1"
proof (cases "gslbFinalizer \<in> set (om_finalizers (g_meta g))")
  case True
  with assms that [of w g] show ?thesis by (simp add: reconcile_live_def keep_defs)
next
  case False
  with assms(1) obtain g1 w1 where u: "addFinalizer S w g = (Inr g1, w1)"
    and o: "reconcile_objects S ord zsort r result w1 g1 = (Ok (res, None), w')"
    by (auto simp: reconcile_live_def RequeueError_def elim: sum_stepE)
  from update_gslb [OF u [unfolded addFinalizer_def]] update_gslb_frame [OF u [unfolded addFinalizer_def]] assms(3)
  show ?thesis by (intro that [OF o]) (auto simp: stored_gslb_def)
qed

text \<open>The state after a successful live run, relative to the DNSEndpoint that the run computed at a
  moment when the Services and Endpoints were those of the start.\<close>

lemma reconcile_live_stored:
  assumes "reconcile_live S ord zsort r result w g = (Ok (res, None), w')"
    and "map_option g_meta (v_gslb V w (meta_key (g_meta g))) = Some (g_meta g)"
    and "om_deletionTimestamp (g_meta g) = None" and "range_ok ord" and "gomap_ok (annotations (g_meta g))"
    and "g_namespace g \<noteq> co_k8gbNamespace (pr_config (re_provider r))"
  shows "res = rr_delayedResult result \<and>
    (\<exists>m. map_option g_meta (v_gslb V w' (meta_key (g_meta g))) = Some m \<and> gslbFinalizer \<in> set (om_finalizers m)) \<and>
    (\<exists>j. ingress_for g j \<and> meta_key (ing_meta j) = meta_key (g_meta g) \<and>
      (v_ingress V w' (meta_key (g_meta g)) = Some j \<and> v_refused V w' = v_refused V w \<or>
       v_ingress V w' = v_ingress V w \<and> v_refused V w' = v_refused V w @ [j])) \<and>
    (\<exists>ga w1 d w2 d'. g_spec ga = g_spec g \<and> meta_key (g_meta ga) = meta_key (g_meta g) \<and> keep_work V w w1 \<and>
      keep_ingress V w1 w' \<and>
      gslbDNSEndpoint S ord r w1 ga = (Ok d, w2) \<and> v_dns V w' (meta_key (g_meta g)) = Some d' \<and> same_record d d')"
proof -
  let ?key = "meta_key (g_meta g)"
  from assms(1-3) obtain w1 g1 where o: "reconcile_objects S ord zsort r result w1 g1 = (Ok (res, None), w')"
    and g1: "g_spec g1 = g_spec g" "g_meta g1 = (g_meta g)\<lparr>om_finalizers := om_finalizers (g_meta g1)\<rparr>"
    and f: "gslbFinalizer \<in> set (om_finalizers (g_meta g1))" "map_option g_meta (v_gslb V w1 ?key) = Some (g_meta g1)"
    and k1: "keep_ingress V w w1" "keep_dns V w w1" "keep_work V w w1" by (rule reconcile_live_ok)
  have a1: "gomap_ok (annotations (g_meta g1))" "meta_key (g_meta g1) = ?key"
    using assms(5) g1(2) by (metis annotations_def object_meta.ext_inject object_meta.surjective object_meta.update_convs(5),
        metis meta_key_finalizers)
  from o obtain i ga w2 d w3 w4 where i: "gslbIngress S g1 = (Inr i, ga)" and s: "saveIngress S ord w1 ga i = (None, w2)"
    and d: "gslbDNSEndpoint S ord r w2 ga = (Ok d, w3)"
    and sd: "SaveDNSEndpoint S (pr_assistant (re_provider r)) w3 (g_namespace ga) d = (None, w4)"
    and z: "reconcile_zone S ord zsort r result w4 ga = (Ok (res, None), w')" by (rule reconcile_objects_ok)
  note gi = gslbIngress_spec [OF i] and an = annotate_gslb_spec [OF a1(1)]
  have ga: "g_spec ga = g_spec g" "meta_key (g_meta ga) = ?key" "gomap_ok (annotations (g_meta ga))"
    using gi(1) an g1(1) a1(2) by simp_all
  have dk: "meta_key (de_meta d) = ?key" "om_namespace (de_meta d) = g_namespace ga"
    using gslbDNSEndpoint_key [OF d] ga(2) by (simp_all add: meta_key_def g_name_def g_namespace_def)
  note kd = keep_allD [OF gslbDNSEndpoint_keep [OF d]] and ks = saveIngress_frame [OF s]
    and kz = reconcile_zone_ok [OF z] and kw = SaveDNSEndpoint_frame [OF sd, unfolded dns_frame_def]
  have fin: "map_option g_meta (v_gslb V w' ?key) = Some (g_meta g1)"
    using kz(4) [of ?key] kw kd(1) ks f(2) by (simp add: keep_defs)
  have ing: "\<exists>j. ingress_for g j \<and> meta_key (ing_meta j) = ?key \<and>
      (v_ingress V w' ?key = Some j \<and> v_refused V w' = v_refused V w \<or>
       v_ingress V w' = v_ingress V w \<and> v_refused V w' = v_refused V w @ [j])"
  proof -
    have k: "v_ingress V w' = v_ingress V w2" "v_refused V w' = v_refused V w2" "v_ingress V w1 = v_ingress V w"
      "v_refused V w1 = v_refused V w" using kz(2) kw kd(2) k1(1) by (simp_all add: keep_defs)
    from saveIngress_stored [OF s assms(4)] gi(2,3) ga obtain j where j: "ingress_saved i j"
        "v_ingress V w2 = (v_ingress V w1)(?key \<mapsto> j) \<and> v_refused V w2 = v_refused V w1 \<or>
         v_ingress V w2 = v_ingress V w1 \<and> v_refused V w2 = v_refused V w1 @ [j]" by (auto simp: meta_key_g)
    from saved_ingress_for [OF i a1(1) j(1)] g1(1) have "ingress_for g j" by (simp add: ingress_for_def)
    moreover from j(1) gi(2) ga have "meta_key (ing_meta j) = ?key" by (simp add: ingress_saved_def)
    ultimately show ?thesis using j(2) k by auto
  qed
  have dns: "\<exists>d'. v_dns V w' ?key = Some d' \<and> same_record d d'"
    using SaveDNSEndpoint_stored [OF sd dk(2)] dk(1) kz(5) assms(6) by (auto simp: keep_dns_outside_def meta_key_g)
  have kk: "keep_work V w w2"
    "keep_ingress V w2 w'" using ks k1(3) kz(2) kw kd(2) by (simp_all add: keep_defs)
  from fin f(1) have "\<exists>m. map_option g_meta (v_gslb V w' ?key) = Some m \<and> gslbFinalizer \<in> set (om_finalizers m)" by blast
  with kz(1) ing dns kk d ga(1,2) show ?thesis by blast
qed

lemma Reconcile_live:
  assumes "Reconcile S ord zsort r dr w (meta_key (g_meta g)) = (Ok (res, None), dr', w')"
    and "v_gslb V w (meta_key (g_meta g)) = Some g" and "om_deletionTimestamp (g_meta g) = None"
    and "range_ok ord" and "gomap_ok (annotations (g_meta g))" and "dr_ok dr" and "g_spec g \<noteq> zero_spec"
    and "g_namespace g \<noteq> co_k8gbNamespace (pr_config (re_provider r))"
  shows "\<exists>st g1. st = set_predefined (gs_strategy (g_spec g)) \<and> resolved st \<and> g1 = g\<lparr>g_spec := (g_spec g)\<lparr>gs_strategy := st\<rparr>\<rparr> \<and>
    res = rr_delayedResult (NewReconcileResultHandler (co_reconcileRequeueSeconds (re_config r))) \<and>
    (\<exists>m. map_option g_meta (v_gslb V w' (meta_key (g_meta g))) = Some m \<and> gslbFinalizer \<in> set (om_finalizers m)) \<and>
    (\<exists>j. ingress_for g1 j \<and> meta_key (ing_meta j) = meta_key (g_meta g) \<and>
      (v_ingress V w' (meta_key (g_meta g)) = Some j \<and> v_refused V w' = v_refused V w \<or>
       v_ingress V w' = v_ingress V w \<and> v_refused V w' = v_refused V w @ [j])) \<and>
    (\<exists>ga w1 d w2 d'. g_spec ga = g_spec g1 \<and> meta_key (g_meta ga) = meta_key (g_meta g) \<and> keep_work V w w1 \<and>
      keep_ingress V w1 w' \<and>
      gslbDNSEndpoint S ord r w1 ga = (Ok d, w2) \<and> v_dns V w' (meta_key (g_meta g)) = Some d' \<and> same_record d d')"
  using assms(1,2)
proof (cases rule: Reconcile_found)
  case (live w1 g1 w2)
  note m = resolve_meta [OF live(2)] and f = resolve_frame [OF live(2)]
  have sp: "resolved (gs_strategy (g_spec g1)) \<and> g_spec g1 = (g_spec g)\<lparr>gs_strategy := set_predefined (gs_strategy (g_spec g))\<rparr>"
    using resolve_spec [OF live(2) assms(6,7)] .
  have st: "map_option g_meta (v_gslb V w2 (meta_key (g_meta g1))) = Some (g_meta g1)"
    using resolve_store [OF live(2)] assms(2,3) live(1) m by (auto simp: keep_gslb_stored)
  have ns: "g_namespace g1 \<noteq> co_k8gbNamespace (pr_config (re_provider r))"
    using assms(8) m by (simp add: g_namespace_def)
  note res = reconcile_live_stored [OF live(4) st _ assms(4) _ ns, unfolded m, OF assms(3,5)]
  have "keep_work V w w2" using live(1) f by (simp add: keep_defs)
  then have kw: "keep_work V w x" if "keep_work V w2 x" for x using that by (blast intro: keep_trans)
  have "ingress_for g1 = ingress_for (g\<lparr>g_spec := g_spec g1\<rparr>)" by (simp add: ingress_for_def fun_eq_iff)
  moreover have "v_ingress V w2 = v_ingress V w" "v_refused V w2 = v_refused V w"
    using live(1) f by (simp_all add: keep_defs)
  ultimately show ?thesis using res kw sp
    by (intro exI [of _ "gs_strategy (g_spec g1)"] exI [of _ "g\<lparr>g_spec := g_spec g1\<rparr>"]) fastforce
qed (use assms(3) in auto)

text \<open>The stored DNSEndpoint, host by host.\<close>

lemma Reconcile_published:
  assumes "range_ok ord" and "dr_ok dr" and "v_gslb V w (meta_key (g_meta gslb)) = Some gslb"
    and "om_deletionTimestamp (g_meta gslb) = None" and "gomap_ok (annotations (g_meta gslb))" and "g_spec gslb \<noteq> zero_spec"
    and "g_namespace gslb \<noteq> co_k8gbNamespace (pr_config (re_provider r))"
    and "Reconcile S ord zsort r dr w (meta_key (g_meta gslb)) = (Ok (res, None), dr', w')"
    and "\<And>w h. fst (pr_GetExternalTargets S ord (re_provider r) w h) = Ok (ext h)"
    and "\<And>h. host_status V w (g_namespace gslb) (host_services (elems (is_rules (gs_ingress (g_spec gslb))))) h \<noteq> None
      \<Longrightarrow> \<not> hasPrefix ''localtargets-'' h"
    and "host_status V w (g_namespace gslb) (host_services (elems (is_rules (gs_ingress (g_spec gslb))))) host = Some health"
  shows "\<exists>d lt ga w1 w2. v_dns V w' (meta_key (g_meta gslb)) = Some d \<and>
    keep_ingress V w1 w' \<and> meta_key (g_meta ga) = meta_key (g_meta gslb) \<and>
    GslbIngressExposedIPs S (pr_assistant (re_provider r)) w1 ga = (Inr lt, w2) \<and>
    strContains (co_edgeDNSZone (re_config r)) host \<and>
    published d host = (let t = finalTargets (gs_strategy (g_spec gslb)) (co_clusterGeoTag (re_config r)) health lt (sort (ext host))
      in if t = [] then [] else [t]) \<and>
    published d (local_target host) = (if health = ''Healthy'' then [lt] else [])"
proof -
  from Reconcile_live [OF assms(8,3,4,1,5,2,6,7)] obtain ga w1 d w2 d' where
      ga: "g_spec ga = (g_spec gslb)\<lparr>gs_strategy := set_predefined (gs_strategy (g_spec gslb))\<rparr>"
        "meta_key (g_meta ga) = meta_key (g_meta gslb)"
    and k: "keep_work V w w1" "keep_ingress V w1 w'"
    and d: "gslbDNSEndpoint S ord r w1 ga = (Ok d, w2)" "v_dns V w' (meta_key (g_meta gslb)) = Some d'" "same_record d d'" by auto
  have n: "g_namespace ga = g_namespace gslb" using g_key_meta [OF ga(2)] by simp
  have hs: "host_status V w1 = host_status V w" using host_status_work [OF k(1)] .
  have pub: "published d' = published d" using d(3) by (simp add: same_record_def published_def fun_eq_iff)
  have ft: "finalTargets (gs_strategy (g_spec ga)) = finalTargets (gs_strategy (g_spec gslb))"
    by (simp add: ga(1) finalTargets_def fun_eq_iff)
  have st: "host_status V w1 (g_namespace ga) (host_services (elems (is_rules (gs_ingress (g_spec ga))))) =
      host_status V w (g_namespace gslb) (host_services (elems (is_rules (gs_ingress (g_spec gslb)))))"
    by (simp add: hs n ga(1))
  from published_spec [OF assms(1,9) d(1), unfolded st, OF assms(10,11)]
  obtain lt w3 w4 where "keep_all V w1 w3" "GslbIngressExposedIPs S (pr_assistant (re_provider r)) w3 ga = (Inr lt, w4)"
      "strContains (co_edgeDNSZone (re_config r)) host"
      "published d host = (let t = finalTargets (gs_strategy (g_spec ga)) (co_clusterGeoTag (re_config r)) health lt (sort (ext host))
        in if t = [] then [] else [t])"
      "published d (local_target host) = (if health = ''Healthy'' then [lt] else [])"
    by blast
  moreover from this(1) k(2) have "keep_ingress V w3 w'" by (simp add: keep_defs)
  ultimately show ?thesis
    using d(2) ga(2) unfolding ft pub [symmetric] by blast
qed


end

end
