(* ===== verification/Panics.thy ===== *)
theory Panics
  imports Live
begin

text \<open>
  When a run of \<^verbatim>\<open>Reconcile\<close> panics. The rules \<open>returns_steps\<close> carry the absence of a panic through
  the code that threads a world; the lemmas below follow the calls from the DNS answers up to
  the run.
\<close>

section \<open>Absence of a panic\<close>

fun returns :: "'a go \<Rightarrow> bool" where
  "returns (Panic m) = False"
| "returns _ = True"

lemma returns_go:
  assumes "returns (fst m)" and "\<And>x w. m = (Ok x, w) \<Longrightarrow> returns (fst (g x w))"
    and "\<And>e w. m = (Err e, w) \<Longrightarrow> returns (fst (f e w))"
  shows "returns (fst (case m of (Ok x, w) \<Rightarrow> g x w | (Err e, w) \<Rightarrow> f e w | (Panic p, w) \<Rightarrow> h p w))"
  using assms by (auto split: prod.splits go.splits)

lemma returns_sum:
  assumes "\<And>x w. m = (Inr x, w) \<Longrightarrow> returns (fst (g x w))" and "\<And>e w. m = (Inl e, w) \<Longrightarrow> returns (fst (f e w))"
  shows "returns (fst (case m of (Inl e, w) \<Rightarrow> f e w | (Inr x, w) \<Rightarrow> g x w))"
  using assms by (auto split: prod.splits sum.splits)

lemma returns_opt:
  assumes "\<And>w. m = (None, w) \<Longrightarrow> returns (fst (g w))" and "\<And>e w. m = (Some e, w) \<Longrightarrow> returns (fst (f e w))"
  shows "returns (fst (case m of (Some e, w) \<Rightarrow> f e w | (None, w) \<Rightarrow> g w))"
  using assms by (auto split: prod.splits option.splits)

lemma returns_finish [simp]: "returns (fst (finish r))"
  by (simp add: finish_def split: option.split)

lemmas returns_steps = returns_go returns_sum returns_opt

text \<open>What keeps the DNS code from panicking: address queries are answered with A records only, and a
  TXT record prints as at least five fields.\<close>

definition dns_wellformed :: "'w sys \<Rightarrow> bool" where
  "dns_wellformed S \<longleftrightarrow>
     (\<forall>w q s ans w'. n_exchange S w q TypeA s = (Inr ans, w') \<longrightarrow> list_all is_A ans) \<and>
     (\<forall>w q s t ans w'. n_exchange S w q TypeTXT s = (Inr (RR_TXT t # ans), w') \<longrightarrow> 4 < length (split_on (CHR 0x09) t))"

text \<open>Every rule has its HTTP section.\<close>

definition http_rules :: "Gslb \<Rightarrow> bool" where
  "http_rules g \<longleftrightarrow> list_all (\<lambda>rule. ru_http rule \<noteq> None) (elems (is_rules (gs_ingress (g_spec g))))"

lemma http_rules_cong: "gs_ingress (g_spec g') = gs_ingress (g_spec g) \<Longrightarrow> http_rules g' \<longleftrightarrow> http_rules g"
  by (simp add: http_rules_def)

lemma dns_wellformedD:
  assumes "dns_wellformed S"
  shows "n_exchange S w q TypeA s = (Inr ans, w') \<Longrightarrow> getARecords ans = Ok (a_addresses ans)"
    "n_exchange S w q TypeTXT s = (Inr (RR_TXT t # ans), w') \<Longrightarrow> 4 < length (split_on (CHR 0x09) t)"
  using assms unfolding dns_wellformed_def by (blast intro: getARecords_A)+

section \<open>The calls\<close>

lemma external_targets_returns:
  assumes "dns_wellformed S"
  shows "returns (fst (external_targets S r cs host acc w))"
proof (induction cs arbitrary: host acc w)
  case (Cons c cs)
  have A: "getARecords ans = Ok (a_addresses ans)" if "dnsQuery S w h n p = (Inr ans, w')" for w h n p ans w'
    using that dns_wellformedD(1) [OF assms] by (auto simp: dnsQuery_def)
  show ?case
    unfolding external_targets.simps Let_def
    by (intro returns_steps) (auto simp: A Cons.IH intro!: returns_sum)
qed simp

lemma dns_hosts_returns: "dns_wellformed S \<Longrightarrow> returns (fst (dns_hosts S ord r g lt m acc w))"
proof (induction m arbitrary: acc w)
  case (Cons a m)
  obtain host health where a: "a = (host, health)" by (cases a)
  have "returns (fst (pr_GetExternalTargets S ord (re_provider r) w host))"
    using external_targets_returns [OF Cons.prems] by (simp add: pr_GetExternalTargets_eq GetExternalTargets_def)
  then show ?case
    unfolding a dns_hosts.simps Let_def by (auto simp: Cons intro!: returns_go)
qed simp

lemma health_returns:
  assumes "http_rules g"
  shows "returns (fst (getServiceHealthStatus S w g))"
proof (cases "getServiceHealthStatus S w g")
  case (Pair x w')
  have "False" if "x = Panic m" for m
    using health_rules_panic [OF Pair [unfolded getServiceHealthStatus_def that]] assms
    by (force simp: http_rules_def list_all_iff)
  then show ?thesis by (cases x) (simp_all add: Pair)
qed

lemma gslbDNSEndpoint_returns:
  assumes "dns_wellformed S" and "http_rules g"
  shows "returns (fst (gslbDNSEndpoint S ord r w g))"
  unfolding gslbDNSEndpoint_def Let_def
  by (intro returns_steps health_returns [OF assms(2)] dns_hosts_returns [OF assms(1)]) (auto split: sum.split)

lemma inspect_returns:
  assumes "dns_wellformed S"
  shows "returns (fst (InspectTXTThreshold S r w f t))"
  using dns_wellformedD(2) [OF assms]
  by (fastforce simp: InspectTXTThreshold_def Let_def
      split: prod.splits sum.splits list.splits rr.splits if_splits)

lemma drop_stale_returns: "dns_wellformed S \<Longrightarrow> returns (fst (drop_stale S p t hb m l w))"
proof (induction m arbitrary: l w)
  case (Cons a m)
  then show ?case by (cases a) (auto intro!: returns_go inspect_returns)
qed simp

lemma heartbeat_returns [simp]: "returns (fst (ib_heartbeat S p w om g))"
  by (simp add: ib_heartbeat_def)

lemma update_zone_returns:
  assumes "dns_wellformed S"
  shows "returns (fst (ib_update_zone S ord zsort p w om g d z))"
proof -
  have "returns (fst (if co_splitBrainCheck (ip_config p)
      then drop_stale S p t hb m l w else (Ok l, w)))" for t hb m l
    using drop_stale_returns [OF assms] by simp
  then show ?thesis
    unfolding ib_update_zone_def Let_def
    by (auto split: option.split intro!: returns_go returns_opt simp del: if_split_asm)
qed

lemma create_returns:
  assumes "dns_wellformed S"
  shows "returns (fst (pr_CreateZoneDelegationForExternalDNS S ord zsort p w g))"
proof (cases p)
  case (IBProvider q)
  then show ?thesis
    by (auto simp: ib_CreateZoneDelegationForExternalDNS_def ib_delegate_def ib_create_zone_def Let_def
        intro!: returns_sum returns_opt update_zone_returns [OF assms] split: option.split)
qed (simp_all add: em_CreateZoneDelegationForExternalDNS_def)

lemma status_returns:
  assumes "http_rules g"
  shows "returns (fst (updateGslbStatus S r w g))"
  unfolding updateGslbStatus_def Let_def
  by (intro returns_steps health_returns [OF assms]) simp_all

section \<open>A run\<close>

lemma reconcile_zone_returns:
  assumes "dns_wellformed S" and "http_rules g"
  shows "returns (fst (reconcile_zone S ord zsort r result w g))"
  unfolding reconcile_zone_def
  by (intro returns_steps create_returns status_returns assms) simp_all

lemma reconcile_objects_returns:
  assumes "dns_wellformed S" and "http_rules g"
  shows "returns (fst (reconcile_objects S ord zsort r result w g))"
proof -
  have "http_rules ga" if "gslbIngress S g = (i, ga)" for i ga
    using that assms(2) by (auto simp: gslbIngress_def annotate_gslb_def http_rules_def Let_def split: sum.splits)
  then show ?thesis
    unfolding reconcile_objects_def
    by (auto intro!: returns_steps gslbDNSEndpoint_returns reconcile_zone_returns assms(1))
qed

context kube_api
begin

lemma drop_finalizers_returns:
  "(\<And>f. f \<in> set fs \<Longrightarrow> count_list (om_finalizers (g_meta g)) f \<le> 1) \<Longrightarrow> returns (fst (drop_finalizers S r fs g w))"
proof (induction fs arbitrary: g w)
  case (Cons f fs)
  let ?l = "filter (\<lambda>x. x \<noteq> f) (om_finalizers (g_meta g))"
  have rm: "remove_fin (om_finalizers (g_meta g)) f = Ok ?l" using Cons.prems by (intro remove_unique) simp
  have "returns (fst (drop_finalizers S r fs g1 w1))" if "c_updateGslb S w0 (set_finalizers ?l g) = (Inr g1, w1)" for w0 g1 w1
    using update_gslb [OF that] Cons.prems by (intro Cons.IH) (auto simp: count_list_filter)
  then show ?case using Cons by (auto simp: rm intro!: returns_steps)
qed simp

lemma Reconcile_returns:
  assumes "dns_wellformed S"
    and "\<And>g. v_gslb V w req = Some g \<Longrightarrow>
      http_rules g \<and>
      count_list (om_finalizers (g_meta g)) gslbFinalizer \<le> 1 \<and> count_list (om_finalizers (g_meta g)) legacyFinalizer \<le> 1"
  shows "returns (fst (Reconcile S ord zsort r dr w req))"
proof (cases "v_gslb V w req")
  case None
  obtain x w1 where get: "c_getGslb S w req = (x, w1)" by fastforce
  with readsD(2) [OF get_gslb get] None show ?thesis by (cases x) (auto simp: Reconcile_def Let_def)
next
  case (Some g)
  obtain x dr' w' where e: "Reconcile S ord zsort r dr w req = (x, dr', w')" by (metis prod_cases3)
  from e Some have "returns x"
  proof (cases rule: Reconcile_found)
    case (deleted w1 g1 w2)
    have "returns (fst (drop_finalizers S r [gslbFinalizer, legacyFinalizer] g1 w2))"
      using assms(2) [OF Some] resolve_meta [OF deleted(2)] by (intro drop_finalizers_returns) auto
    then have "returns (fst (reconcile_delete S r (NewReconcileResultHandler (co_reconcileRequeueSeconds (re_config r))) w2 g1))"
      unfolding reconcile_delete_def by (intro returns_go) auto
    with deleted(4) show ?thesis by simp
  next
    case (live w1 g1 w2)
    have rules: "http_rules g1"
      using assms(2) [OF Some] http_rules_cong [OF resolve_ingress [OF live(2)]] by simp
    have added: "http_rules g2" if "addFinalizer S w2 g1 = (Inr g2, w3)" for g2 w3
      using update_gslb [OF that [unfolded addFinalizer_def]] rules by (simp add: http_rules_def)
    have "returns (fst (reconcile_live S ord zsort r (NewReconcileResultHandler (co_reconcileRequeueSeconds (re_config r))) w2 g1))"
      unfolding reconcile_live_def
      by (auto intro!: returns_sum reconcile_objects_returns assms(1) rules added)
    with live(4) show ?thesis by simp
  qed auto
  with e show ?thesis by simp
qed

end

text \<open>Errors of a step are part of the result; the run itself has no error value.\<close>

lemma Reconcile_not_Err: "fst (Reconcile S ord zsort r dr w req) \<noteq> Err e"
proof -
  have z: "fst (reconcile_zone S ord zsort r result w g) \<noteq> Err e" for result w g
    unfolding reconcile_zone_def by (auto split: prod.splits go.splits)
  have o: "fst (reconcile_objects S ord zsort r result w g) \<noteq> Err e" for result w g
    unfolding reconcile_objects_def using z by (auto split: prod.splits go.splits sum.splits option.splits)
  have l: "fst (reconcile_live S ord zsort r result w g) \<noteq> Err e" for result w g
    unfolding reconcile_live_def using o by (auto split: prod.splits sum.splits)
  have d: "fst (reconcile_delete S r result w g) \<noteq> Err e" for result w g
    unfolding reconcile_delete_def by (auto split: prod.splits go.splits)
  have "reconcile_live S ord zsort r result w g \<noteq> (Err e, w')" "reconcile_delete S r result w g \<noteq> (Err e, w')" for result w g w'
    using l d by (metis fst_conv)+
  then show ?thesis
    unfolding Reconcile_def Let_def by (auto split: prod.splits sum.splits option.splits if_splits)
qed

end
