(* ===== verification/Watches.thy ===== *)
theory Watches
  imports Panics
begin

text \<open>
  The watch handlers that \<^verbatim>\<open>SetupWithManager\<close> of \<^verbatim>\<open>controllers/gslb_controller.go\<close> registers: which Gslb
  is reconciled when an Endpoints object changes, and the Gslb that is created for an annotated
  Ingress. A handler gets the metadata of the object that changed; log output is left out.
\<close>

section \<open>Changed Endpoints\<close>

text \<open>The loops over the Gslbs of the namespace. The variable \<^verbatim>\<open>gslbName\<close> is overwritten by every
  match; \<^verbatim>\<open>rule.HTTP\<close> is dereferenced without a check.\<close>

fun match_rules :: "string \<Rightarrow> string \<Rightarrow> IngressRule list \<Rightarrow> string \<Rightarrow> string go" where
  "match_rules svc name [] gslbName = Ok gslbName"
| "match_rules svc name (rule # rules) gslbName =
     (case ru_http rule of
        None \<Rightarrow> Panic ''invalid memory address or nil pointer dereference''
      | Some paths \<Rightarrow> match_rules svc name rules
          (fold (\<lambda>path n. if be_serviceName (pa_backend path) = svc then name else n) (elems paths) gslbName))"

fun match_gslbs :: "string \<Rightarrow> Gslb list \<Rightarrow> string \<Rightarrow> string go" where
  "match_gslbs svc [] gslbName = Ok gslbName"
| "match_gslbs svc (gslb # gslbs) gslbName =
     (case match_rules svc (g_name gslb) (elems (is_rules (gs_ingress (g_spec gslb)))) gslbName of
        Ok gslbName \<Rightarrow> match_gslbs svc gslbs gslbName
      | Err e \<Rightarrow> Err e
      | Panic m \<Rightarrow> Panic m)"

definition endpointMapHandler :: "'w sys \<Rightarrow> 'w \<Rightarrow> object_meta \<Rightarrow> namespaced_name list go \<times> 'w" where
  "endpointMapHandler S w a =
     (case c_listGslb S w (om_namespace a) of
        (Inl err, w) \<Rightarrow> (Ok [], w)
      | (Inr items, w) \<Rightarrow>
          ((case match_gslbs (om_name a) items [] of
              Ok gslbName \<Rightarrow> Ok (if length gslbName > 0 then [(om_namespace a, gslbName)] else [])
            | Err e \<Rightarrow> Err e
            | Panic m \<Rightarrow> Panic m), w))"

section \<open>Annotated Ingresses\<close>

definition dnsTTLSecondsAnnotation :: string where "dnsTTLSecondsAnnotation = ''k8gb.io/dns-ttl-seconds''"
definition splitBrainThresholdSecondsAnnotation :: string where
  "splitBrainThresholdSecondsAnnotation = ''k8gb.io/splitbrain-threshold-seconds''"

text \<open>A conversion error is logged; the value of \<^verbatim>\<open>Atoi\<close> is used all the same.\<close>

definition strToInt :: "string \<Rightarrow> int" where
  "strToInt str = fst (atoi str)"

definition read_annotation :: "string \<times> string \<Rightarrow> Strategy \<Rightarrow> Strategy" where
  "read_annotation = (\<lambda>(annotationKey, annotationValue) st.
     if annotationKey = dnsTTLSecondsAnnotation then st\<lparr>st_dnsTtlSeconds := strToInt annotationValue\<rparr>
     else if annotationKey = splitBrainThresholdSecondsAnnotation
       then st\<lparr>st_splitBrainThresholdSeconds := strToInt annotationValue\<rparr>
     else st)"

definition read_primary :: "string \<times> string \<Rightarrow> Strategy \<Rightarrow> Strategy" where
  "read_primary = (\<lambda>(annotationKey, annotationValue) st.
     if annotationKey = primaryGeoTagAnnotation then st\<lparr>st_primaryGeoTag := annotationValue\<rparr> else st)"

definition zero_status :: GslbStatus where
  "zero_status = \<lparr>gst_serviceHealth = [], gst_healthyRecords = [], gst_geoTag = []\<rparr>"

definition createGslbFromIngress :: "'w sys \<Rightarrow> range_order \<Rightarrow> 'w \<Rightarrow> object_meta \<Rightarrow> string \<Rightarrow> 'w" where
  "createGslbFromIngress S ord w a strategy =
     (let key = (om_namespace a, om_name a) in
      case c_getIngress S w key of
        (Inl err, w) \<Rightarrow> w
      | (Inr ingressToReuse, w) \<Rightarrow>
          (case c_getGslb S w key of
             (Inr gslbExist, w) \<Rightarrow> w
           | (Inl err, w) \<Rightarrow>
               (let st = \<lparr>st_type = strategy, st_primaryGeoTag = [], st_dnsTtlSeconds = 0,
                      st_splitBrainThresholdSeconds = 0\<rparr>;
                    st = fold read_annotation (ord (annotations a)) st;
                    st = (if strategy = failoverStrategy then fold read_primary (ord (annotations a)) st else st);
                    m = empty_meta\<lparr>om_namespace := om_namespace a, om_name := om_name a, om_annotations := om_annotations a\<rparr>
                in if strategy = failoverStrategy \<and> st_primaryGeoTag st = [] then w
                   else let m = (case l_setControllerReference S (ing_meta ingressToReuse) m of Inl err \<Rightarrow> m | Inr m \<Rightarrow> m)
                        in snd (c_createGslb S w
                             \<lparr>g_meta = m,
                              g_spec = \<lparr>gs_ingress = FromV1Beta1IngressSpec (ing_spec ingressToReuse), gs_strategy = st\<rparr>,
                              g_status = zero_status\<rparr>))))"

text \<open>The loop over the annotations; the handler never asks for a reconciliation itself.\<close>

fun ingress_annotations :: "'w sys \<Rightarrow> range_order \<Rightarrow> object_meta \<Rightarrow> string gomap \<Rightarrow> 'w \<Rightarrow> 'w" where
  "ingress_annotations S ord a [] w = w"
| "ingress_annotations S ord a ((annotationKey, annotationValue) # m) w =
     (let w = (if annotationKey = strategyAnnotation then
                 (if annotationValue = roundRobinStrategy then createGslbFromIngress S ord w a roundRobinStrategy
                  else if annotationValue = failoverStrategy then createGslbFromIngress S ord w a failoverStrategy
                  else w)
               else w)
      in ingress_annotations S ord a m w)"

definition ingressMapHandler :: "'w sys \<Rightarrow> range_order \<Rightarrow> 'w \<Rightarrow> object_meta \<Rightarrow> namespaced_name list \<times> 'w" where
  "ingressMapHandler S ord w a = ([], ingress_annotations S ord a (ord (annotations a)) w)"

section \<open>Lemmas\<close>

text \<open>Whether a Gslb sends traffic to a Service.\<close>

definition refers_to :: "Gslb \<Rightarrow> string \<Rightarrow> bool" where
  "refers_to g svc \<longleftrightarrow> svc \<in> snd ` set (host_services (elems (is_rules (gs_ingress (g_spec g)))))"

lemma match_paths:
  "fold (\<lambda>path n. if be_serviceName (pa_backend path) = svc then name else n) ps n0 =
     (if \<exists>p \<in> set ps. be_serviceName (pa_backend p) = svc then name else n0)"
  by (induction ps arbitrary: n0) auto

lemma host_services_snd:
  "ru_http r = Some ps \<Longrightarrow> snd ` set (host_services (r # rs)) =
     (\<lambda>p. be_serviceName (pa_backend p)) ` set (elems ps) \<union> snd ` set (host_services rs)"
  by (simp add: host_services_Cons image_Un image_image)

lemma match_rules_spec:
  "list_all (\<lambda>rule. ru_http rule \<noteq> None) rs \<Longrightarrow>
     match_rules svc name rs n = Ok (if svc \<in> snd ` set (host_services rs) then name else n)"
proof (induction rs arbitrary: n)
  case (Cons r rs)
  then obtain ps where "ru_http r = Some ps" by auto
  with Cons show ?case by (auto simp: match_paths host_services_snd)
qed (simp add: host_services_def)

lemma match_gslbs_spec:
  "list_all http_rules gs \<Longrightarrow>
     match_gslbs svc gs n = Ok (last (n # map g_name (filter (\<lambda>g. refers_to g svc) gs)))"
  by (induction gs arbitrary: n) (simp_all add: match_rules_spec http_rules_def refers_to_def)

lemma read_annotation_pair [simp]:
  "read_annotation (k, v) st =
     (if k = dnsTTLSecondsAnnotation then st\<lparr>st_dnsTtlSeconds := strToInt v\<rparr>
      else if k = splitBrainThresholdSecondsAnnotation then st\<lparr>st_splitBrainThresholdSeconds := strToInt v\<rparr> else st)"
  "read_primary (k, v) st = (if k = primaryGeoTagAnnotation then st\<lparr>st_primaryGeoTag := v\<rparr> else st)"
  by (simp_all add: read_annotation_def read_primary_def)

lemma annotation_neq: "dnsTTLSecondsAnnotation \<noteq> splitBrainThresholdSecondsAnnotation"
  by (simp add: dnsTTLSecondsAnnotation_def splitBrainThresholdSecondsAnnotation_def)

lemma read_annotations:
  "gomap_ok m \<Longrightarrow> fold read_annotation m st =
     st\<lparr>st_dnsTtlSeconds := (case map_of m dnsTTLSecondsAnnotation of None \<Rightarrow> st_dnsTtlSeconds st | Some v \<Rightarrow> strToInt v),
       st_splitBrainThresholdSeconds := (case map_of m splitBrainThresholdSecondsAnnotation of
          None \<Rightarrow> st_splitBrainThresholdSeconds st | Some v \<Rightarrow> strToInt v)\<rparr>"
proof (induction m arbitrary: st)
  case (Cons a m)
  obtain k v where a: "a = (k, v)" by (cases a)
  from Cons.prems have m: "gomap_ok m" and k: "map_of m k = None" by (auto simp: gomap_ok_def a map_of_eq_None_iff)
  show ?case
    using k annotation_neq by (auto simp: a Cons.IH [OF m] split: option.splits)
qed simp

lemma read_primaries:
  "gomap_ok m \<Longrightarrow> fold read_primary m st =
     st\<lparr>st_primaryGeoTag := (case map_of m primaryGeoTagAnnotation of None \<Rightarrow> st_primaryGeoTag st | Some v \<Rightarrow> v)\<rparr>"
proof (induction m arbitrary: st)
  case (Cons a m)
  obtain k v where a: "a = (k, v)" by (cases a)
  from Cons.prems have m: "gomap_ok m" and k: "map_of m k = None" by (auto simp: gomap_ok_def a map_of_eq_None_iff)
  show ?case using k by (auto simp: a Cons.IH [OF m] split: option.splits)
qed simp

text \<open>The strategy that the annotations of an Ingress describe, if it is one a Gslb is created for.\<close>

definition int_annotation :: "string gomap \<Rightarrow> string \<Rightarrow> int" where
  "int_annotation m k = (case map_of m k of None \<Rightarrow> 0 | Some v \<Rightarrow> strToInt v)"

definition annotated_strategy :: "string gomap \<Rightarrow> Strategy option" where
  "annotated_strategy m =
     (let t = m_get m strategyAnnotation; primary = m_get m primaryGeoTagAnnotation
      in if t = ''roundRobin'' \<or> t = ''failover'' \<and> primary \<noteq> [] then
           Some \<lparr>st_type = t, st_primaryGeoTag = (if t = ''failover'' then primary else []),
             st_dnsTtlSeconds = int_annotation m dnsTTLSecondsAnnotation,
             st_splitBrainThresholdSeconds = int_annotation m splitBrainThresholdSecondsAnnotation\<rparr>
         else None)"

definition annotated_gslb :: "'w sys \<Rightarrow> object_meta \<Rightarrow> ingress \<Rightarrow> Strategy \<Rightarrow> Gslb" where
  "annotated_gslb S a ing st =
     (let m = empty_meta\<lparr>om_namespace := om_namespace a, om_name := om_name a, om_annotations := om_annotations a\<rparr>
      in \<lparr>g_meta = (case l_setControllerReference S (ing_meta ing) m of Inl err \<Rightarrow> m | Inr m \<Rightarrow> m),
          g_spec = \<lparr>gs_ingress = FromV1Beta1IngressSpec (ing_spec ing), gs_strategy = st\<rparr>,
          g_status = zero_status\<rparr>)"

lemma createGslb_eq:
  assumes "range_ok ord" "gomap_ok (annotations a)" "m_get (annotations a) strategyAnnotation = t"
    and "t = roundRobinStrategy \<or> t = failoverStrategy"
  shows "createGslbFromIngress S ord w a t =
    (case c_getIngress S w (meta_key a) of
       (Inl err, w) \<Rightarrow> w
     | (Inr ing, w) \<Rightarrow> (case c_getGslb S w (meta_key a) of
          (Inl err, w) \<Rightarrow> (case annotated_strategy (annotations a) of
             None \<Rightarrow> w | Some st \<Rightarrow> snd (c_createGslb S w (annotated_gslb S a ing st)))
        | (Inr g, w) \<Rightarrow> w))"
proof -
  have o: "gomap_ok (ord (annotations a))" "map_of (ord (annotations a)) = map_of (annotations a)"
    using range_ok_distinct [OF assms(1,2)] map_of_range [OF assms(1,2)] by auto
  have d: "roundRobinStrategy = ''roundRobin''" "failoverStrategy = ''failover''"
    by (simp_all add: roundRobinStrategy_def failoverStrategy_def)
  from assms(3,4) show ?thesis
    by (auto simp: createGslbFromIngress_def annotated_strategy_def annotated_gslb_def read_annotations [OF o(1)]
        read_primaries [OF o(1)] o(2) meta_key_def int_annotation_def m_get_def d Let_def
        split: prod.splits sum.splits option.splits)
qed

lemma ingress_annotations_eq:
  "gomap_ok m \<Longrightarrow> ingress_annotations S ord a m w =
     (case map_of m strategyAnnotation of
        Some t \<Rightarrow> if t = roundRobinStrategy \<or> t = failoverStrategy then createGslbFromIngress S ord w a t else w
      | None \<Rightarrow> w)"
proof (induction m arbitrary: w)
  case (Cons x m)
  obtain k v where x: "x = (k, v)" by (cases x)
  from Cons.prems have m: "gomap_ok m" and k: "map_of m k = None" by (auto simp: gomap_ok_def x map_of_eq_None_iff)
  show ?case using k by (auto simp: x Cons.IH [OF m] Let_def)
qed simp

lemma strategy_annotation:
  "m_get m strategyAnnotation \<noteq> [] \<Longrightarrow> map_of m strategyAnnotation = Some (m_get m strategyAnnotation)"
  by (auto simp: m_get_def split: option.splits)

lemma ingressMapHandler_eq:
  assumes "range_ok ord" "gomap_ok (annotations a)"
  shows "snd (ingressMapHandler S ord w a) =
    (let t = m_get (annotations a) strategyAnnotation
     in if t = ''roundRobin'' \<or> t = ''failover'' then
          (case c_getIngress S w (meta_key a) of
             (Inl err, w) \<Rightarrow> w
           | (Inr ing, w) \<Rightarrow> (case c_getGslb S w (meta_key a) of
                (Inl err, w) \<Rightarrow> (case annotated_strategy (annotations a) of
                   None \<Rightarrow> w | Some st \<Rightarrow> snd (c_createGslb S w (annotated_gslb S a ing st)))
              | (Inr g, w) \<Rightarrow> w))
        else w)"
proof -
  have o: "gomap_ok (ord (annotations a))" "map_of (ord (annotations a)) = map_of (annotations a)"
    using range_ok_distinct [OF assms] map_of_range [OF assms] by auto
  have d: "roundRobinStrategy = ''roundRobin''" "failoverStrategy = ''failover''"
    by (simp_all add: roundRobinStrategy_def failoverStrategy_def)
  let ?t = "m_get (annotations a) strategyAnnotation"
  show ?thesis
  proof (cases "?t = ''roundRobin'' \<or> ?t = ''failover''")
    case True
    then have "map_of (annotations a) strategyAnnotation = Some ?t" by (intro strategy_annotation) auto
    with True show ?thesis
      by (simp add: ingressMapHandler_def ingress_annotations_eq [OF o(1)] o(2) d createGslb_eq [OF assms refl])
  next
    case False
    then have "map_of (annotations a) strategyAnnotation \<noteq> Some ''roundRobin''"
      "map_of (annotations a) strategyAnnotation \<noteq> Some ''failover''" by (auto simp: m_get_def)
    with False show ?thesis
      by (auto simp: ingressMapHandler_def ingress_annotations_eq [OF o(1)] o(2) d split: option.split)
  qed
qed

lemma annotated_gslb_key: "kube_api S V \<Longrightarrow> meta_key (g_meta (annotated_gslb S a ing st)) = meta_key a"
  by (auto simp: annotated_gslb_def meta_key_def Let_def dest: kube_api.set_owner split: sum.splits)

context kube_api
begin

lemma ingressMapHandler_frame:
  assumes "ingressMapHandler S ord w a = (reqs, w')" "range_ok ord" "gomap_ok (annotations a)"
  shows "keep_ingress V w w' \<and> keep_dns V w w' \<and> keep_work V w w' \<and>
    (v_gslb V w' = v_gslb V w \<or>
     (\<exists>st ing. annotated_strategy (annotations a) = Some st \<and> v_ingress V w (meta_key a) = Some ing \<and>
        v_gslb V w (meta_key a) = None \<and>
        v_gslb V w' = (v_gslb V w)(meta_key a \<mapsto> annotated_gslb S a ing st)))"
proof -
  have w': "w' = snd (ingressMapHandler S ord w a)" using assms(1) by simp
  obtain ri w1 where i: "c_getIngress S w (meta_key a) = (ri, w1)" by fastforce
  obtain rg w2 where g: "c_getGslb S w1 (meta_key a) = (rg, w2)" by fastforce
  have k1: "keep_all V w w1" using readsD(1) [OF get_ingress i] .
  have k2: "keep_all V w w2" using k1 readsD(1) [OF get_gslb g] by (rule keep_all_trans)
  consider "w' = w" | "w' = w1" | "w' = w2"
    | ing st where "ri = Inr ing" "annotated_strategy (annotations a) = Some st"
        "w' = snd (c_createGslb S w2 (annotated_gslb S a ing st))"
    using w' i g by (auto simp: ingressMapHandler_eq [OF assms(2,3)] Let_def split: if_splits sum.splits option.splits)
  then show ?thesis
  proof cases
    case (4 ing st)
    obtain rn where c: "c_createGslb S w2 (annotated_gslb S a ing st) = (rn, w')" using 4(3) by (metis prod.collapse)
    with create_gslb [OF c] annotated_gslb_key [OF kube_api_axioms] readsD(2) [OF get_ingress i 4(1)] k2 4(2) show ?thesis
      by (auto simp: keep_defs)
  qed (use k1 k2 in \<open>simp_all add: keep_defs\<close>)
qed

lemma ingressMapHandler_creates:
  assumes "range_ok ord" "gomap_ok (annotations a)" "annotated_strategy (annotations a) = Some st"
    and "fst (c_getIngress S w (meta_key a)) = Inr ing" and "v_gslb V w (meta_key a) = None"
    and "\<And>w g. v_gslb V w (meta_key (g_meta g)) = None \<Longrightarrow> fst (c_createGslb S w g) = None"
  shows "v_gslb V (snd (ingressMapHandler S ord w a)) (meta_key a) = Some (annotated_gslb S a ing st)"
proof -
  obtain w1 where i: "c_getIngress S w (meta_key a) = (Inr ing, w1)" using assms(4) by (metis prod.collapse)
  obtain rg w2 where g: "c_getGslb S w1 (meta_key a) = (rg, w2)" by fastforce
  have k1: "keep_all V w w1" using readsD(1) [OF get_ingress i] .
  have k2: "keep_all V w w2" using k1 readsD(1) [OF get_gslb g] by (rule keep_all_trans)
  have no: "v_gslb V w1 (meta_key a) = None" "v_gslb V w2 (meta_key a) = None" using assms(5) k1 k2 by (simp_all add: keep_defs)
  then obtain e where e: "rg = Inl e" using readsD(2) [OF get_gslb g] by (cases rg) auto
  let ?g = "annotated_gslb S a ing st"
  obtain w3 where c: "c_createGslb S w2 ?g = (None, w3)"
    using assms(6) [of w2 ?g] no(2) annotated_gslb_key [OF kube_api_axioms] by (metis prod.collapse)
  have t: "m_get (annotations a) strategyAnnotation = ''roundRobin'' \<or> m_get (annotations a) strategyAnnotation = ''failover''"
    using assms(3) by (auto simp: annotated_strategy_def Let_def split: if_splits)
  show ?thesis
    using create_gslb [OF c] annotated_gslb_key [OF kube_api_axioms] t
    by (simp add: ingressMapHandler_eq [OF assms(1,2)] i g e c assms(3) Let_def)
qed

end

section \<open>Properties\<close>

text \<open>
  C40. When the Endpoints of a Service change, at most one Gslb of the same namespace is reconciled,
  and it exists and sends traffic to that Service; there is one whenever the Gslbs can be listed
  and one of them uses the Service. (Of several such Gslbs only the last one listed is reconciled.)
\<close>

theorem endpoint_requests:
  assumes "kube_api S V" and "endpointMapHandler S w a = (x, w')"
    and "\<And>g. v_gslb V w (meta_key (g_meta g)) = Some g \<Longrightarrow> http_rules g \<and> g_name g \<noteq> []"
  shows "keep_all V w w' \<and> (\<exists>reqs. x = Ok reqs \<and> length reqs \<le> 1 \<and>
    (\<forall>k \<in> set reqs. fst k = om_namespace a \<and> (\<exists>g. v_gslb V w k = Some g \<and> refers_to g (om_name a))) \<and>
    (reqs = [] \<longrightarrow> (\<exists>e. fst (c_listGslb S w (om_namespace a)) = Inl e) \<or>
      (\<forall>g. v_gslb V w (meta_key (g_meta g)) = Some g \<and> g_namespace g = om_namespace a \<longrightarrow> \<not> refers_to g (om_name a))))"
proof -
  obtain rl w1 where l: "c_listGslb S w (om_namespace a) = (rl, w1)" by fastforce
  note law = kube_api.list_gslb [OF assms(1) l]
  have w': "w' = w1" using assms(2) l by (auto simp: endpointMapHandler_def split: sum.splits)
  show ?thesis
  proof (cases rl)
    case (Inl e)
    with assms(2) l law w' show ?thesis by (auto simp: endpointMapHandler_def)
  next
    case (Inr gs)
    let ?hits = "filter (\<lambda>g. refers_to g (om_name a)) gs"
    have gs: "set gs = {g. v_gslb V w (meta_key (g_meta g)) = Some g \<and> g_namespace g = om_namespace a}" using law Inr by blast
    then have "list_all http_rules gs" using assms(3) by (auto simp: list_all_iff)
    then have x: "x = Ok (let n = last ([] # map g_name ?hits) in if n \<noteq> [] then [(om_namespace a, n)] else [])"
      using assms(2) l Inr by (simp add: endpointMapHandler_def match_gslbs_spec Let_def)
    show ?thesis
    proof (cases "?hits = []")
      case True
      with gs x law w' show ?thesis by (auto simp: filter_empty_conv)
    next
      case False
      let ?g = "last ?hits"
      have "?g \<in> set ?hits" using False by (rule last_in_set)
      then have g: "v_gslb V w (om_namespace a, g_name ?g) = Some ?g" "refers_to ?g (om_name a)" "g_name ?g \<noteq> []"
        using gs assms(3) by (auto simp: meta_key_g)
      have "x = Ok [(om_namespace a, g_name ?g)]" using x False g(3) by (simp add: last_map Let_def)
      with g law w' show ?thesis by auto
    qed
  qed
qed

theorem endpoint_requests_witness:
  "\<exists>w. endpointMapHandler quiet_sys (web_store\<lparr>s_gslb := [((''ns'', ''g''), web_gslb [sample_rule ''a.example.com'' [''up'']])]\<rparr>)
     (empty_meta\<lparr>om_name := ''up'', om_namespace := ''ns''\<rparr>) = (Ok [(''ns'', ''g'')], w)"
proof -
  let ?g = "web_gslb [sample_rule ''a.example.com'' [''up'']]" and ?a = "empty_meta\<lparr>om_name := ''up'', om_namespace := ''ns''\<rparr>"
  let ?w = "web_store\<lparr>s_gslb := [((''ns'', ''g''), ?g)]\<rparr>"
  obtain x w where e: "endpointMapHandler quiet_sys ?w ?a = (x, w)" by fastforce
  have k: "meta_key (g_meta ?g) = (''ns'', ''g'')" "g_namespace ?g = ''ns''" "refers_to ?g ''up''"
    by (simp_all add: web_gslb_def sample_gslb_def meta_key_def g_namespace_def refers_to_def host_services_def sample_rule_def)
  have h: "v_gslb mem_view ?w (meta_key (g_meta g)) = Some g \<Longrightarrow> http_rules g \<and> g_name g \<noteq> []" for g
    by (auto simp: web_gslb_def sample_gslb_def http_rules_def sample_rule_def g_name_def split: if_splits)
  have a: "om_name ?a = ''up''" "om_namespace ?a = ''ns''" by simp_all
  have l: "\<exists>gs. fst (c_listGslb quiet_sys ?w ''ns'') = Inr gs" by (simp add: mem_listGslb_def mem_eval web_store_def sample_store_def)
  from endpoint_requests [OF quiet_api e h, unfolded a] obtain reqs where r: "x = Ok reqs" "length reqs \<le> 1"
      "\<forall>p \<in> set reqs. fst p = ''ns'' \<and> (\<exists>g. v_gslb mem_view ?w p = Some g)"
    and ne: "reqs \<noteq> []" using l k by fastforce
  from r(2) ne obtain p where "reqs = [p]" by (cases reqs) auto
  with r(1,3) e show ?thesis by (auto split: if_splits)
qed

text \<open>
  C15. An annotated Ingress. The handler requests no reconciliation and changes no Ingress, DNSEndpoint
  or workload. It never touches a Gslb that exists; at most it creates one under the name of the
  Ingress, whose specification is that of the stored Ingress with the strategy, TTL and threshold
  of the annotations, and it does so when the Ingress can be read, the annotations describe a
  round robin strategy or a failover strategy with a primary geo tag, and the API server accepts it.
\<close>

theorem ingress_creates_gslb:
  assumes "kube_api S V" and "range_ok ord" and "gomap_ok (annotations a)"
    and "ingressMapHandler S ord w a = (reqs, w')"
  shows "reqs = [] \<and> keep_ingress V w w' \<and> keep_dns V w w' \<and> keep_work V w w' \<and>
    (v_gslb V w' = v_gslb V w \<or>
     (\<exists>st ing. annotated_strategy (annotations a) = Some st \<and> v_ingress V w (meta_key a) = Some ing \<and>
        v_gslb V w (meta_key a) = None \<and>
        v_gslb V w' = (v_gslb V w)(meta_key a \<mapsto> annotated_gslb S a ing st))) \<and>
    (\<forall>st ing. annotated_strategy (annotations a) = Some st \<and> fst (c_getIngress S w (meta_key a)) = Inr ing \<and>
       v_gslb V w (meta_key a) = None \<and>
       (\<forall>w g. v_gslb V w (meta_key (g_meta g)) = None \<longrightarrow> fst (c_createGslb S w g) = None) \<longrightarrow>
       v_gslb V w' (meta_key a) = Some (annotated_gslb S a ing st))"
  using kube_api.ingressMapHandler_frame [OF assms(1,4,2,3)] kube_api.ingressMapHandler_creates [OF assms(1-3), where w = w]
    assms(4)
  by (auto simp: ingressMapHandler_def)

definition failover_annotations :: "string gomap" where
  "failover_annotations = [(''k8gb.io/strategy'', ''failover''), (''k8gb.io/primary-geotag'', ''eu''),
     (''k8gb.io/dns-ttl-seconds'', ''60'')]"

lemma failover_annotated:
  "annotated_strategy failover_annotations =
     Some \<lparr>st_type = ''failover'', st_primaryGeoTag = ''eu'', st_dnsTtlSeconds = 60, st_splitBrainThresholdSeconds = 0\<rparr>"
  by code_simp

theorem ingress_creates_gslb_witness:
  "\<exists>reqs w g. ingressMapHandler quiet_sys rev (sample_store\<lparr>s_ingress := [((''ns'', ''g''), annotated_ingress failover_annotations)]\<rparr>)
       (ing_meta (annotated_ingress failover_annotations)) = (reqs, w) \<and>
     v_gslb mem_view w (''ns'', ''g'') = Some g \<and> st_primaryGeoTag (gs_strategy (g_spec g)) = ''eu'' \<and>
     st_dnsTtlSeconds (gs_strategy (g_spec g)) = 60"
proof -
  let ?a = "ing_meta (annotated_ingress failover_annotations)"
  let ?w = "sample_store\<lparr>s_ingress := [((''ns'', ''g''), annotated_ingress failover_annotations)]\<rparr>"
  obtain reqs w where e: "ingressMapHandler quiet_sys rev ?w ?a = (reqs, w)" by fastforce
  have a: "annotations ?a = failover_annotations" "meta_key ?a = (''ns'', ''g'')"
    by (simp_all add: annotated_ingress_def annotations_def sample_ingress_def meta_key_def)
  have o: "range_ok rev" "gomap_ok (annotations ?a)"
    unfolding a by (simp_all add: range_ok_def gomap_ok_def failover_annotations_def)
  have r: "fst (c_getIngress quiet_sys ?w (''ns'', ''g'')) = Inr (annotated_ingress failover_annotations)"
    using a(2) by (simp add: mem_eval sample_store_def)
  have n: "v_gslb mem_view ?w (''ns'', ''g'') = None" by (simp add: sample_store_def empty_store_def)
  have c: "\<forall>w g. v_gslb mem_view w (meta_key (g_meta g)) = None \<longrightarrow> fst (c_createGslb quiet_sys w g) = None"
    by (simp add: quiet_sys_def mem_createGslb_def mem_write_def fault_at_def)
  from ingress_creates_gslb [OF quiet_api o e, unfolded a failover_annotated] r n c
  have "v_gslb mem_view w (''ns'', ''g'') = Some (annotated_gslb quiet_sys ?a (annotated_ingress failover_annotations)
      \<lparr>st_type = ''failover'', st_primaryGeoTag = ''eu'', st_dnsTtlSeconds = 60, st_splitBrainThresholdSeconds = 0\<rparr>)" by blast
  with e show ?thesis by (auto simp: annotated_gslb_def Let_def)
qed

end
