(* ===== verification/Controller.thy ===== *)
theory Controller
  imports Watches
begin

text \<open>
  The controller as a state machine. \<open>lifecycle\<close> is the abstract view of one Gslb: absent, fresh,
  guarded by the finalizer, terminating. Every run of \<^verbatim>\<open>Reconcile\<close>, whatever its result, makes a
  step of it for the requested Gslb and leaves every other Gslb where it is. \<open>run\<close> is the
  relation of the states the whole process reaches: runs of \<^verbatim>\<open>Reconcile\<close> and of the watch handlers
  in any order, restarts, and steps of the environment in between.
\<close>

section \<open>The life of a Gslb\<close>

datatype phase = Absent | Fresh | Guarded | Terminating

definition meta_phase :: "object_meta option \<Rightarrow> phase" where
  "meta_phase x = (case x of None \<Rightarrow> Absent
     | Some m \<Rightarrow> if om_deletionTimestamp m \<noteq> None then Terminating
         else if gslbFinalizer \<in> set (om_finalizers m) then Guarded else Fresh)"

definition metas :: "'w view \<Rightarrow> 'w \<Rightarrow> namespaced_name \<Rightarrow> object_meta option" where
  "metas V w k = map_option g_meta (v_gslb V w k)"

definition gslb_phase :: "'w view \<Rightarrow> 'w \<Rightarrow> namespaced_name \<Rightarrow> phase" where
  "gslb_phase V w k = meta_phase (metas V w k)"

inductive lifecycle :: "phase \<Rightarrow> phase \<Rightarrow> bool" where
  stay: "lifecycle p p"
| guard: "lifecycle Fresh Guarded"
| gone: "lifecycle Terminating Absent"

inductive_simps lifecycle_from:
  "lifecycle Absent q" "lifecycle Fresh q" "lifecycle Guarded q" "lifecycle Terminating q"

text \<open>The phases in the order in which a Gslb passes them; absence counts as the end. A step never leads
  back.\<close>

instantiation phase :: linorder
begin

primrec phase_rank :: "phase \<Rightarrow> nat" where
  "phase_rank Fresh = 0"
| "phase_rank Guarded = 1"
| "phase_rank Terminating = 2"
| "phase_rank Absent = 3"

definition less_eq_phase :: "phase \<Rightarrow> phase \<Rightarrow> bool" where
  "p \<le> q \<longleftrightarrow> phase_rank p \<le> phase_rank q"

definition less_phase :: "phase \<Rightarrow> phase \<Rightarrow> bool" where
  "p < q \<longleftrightarrow> phase_rank p < phase_rank q"

instance
proof
  fix p q :: phase
  assume "p \<le> q" "q \<le> p"
  then show "p = q" by (cases p; cases q) (simp_all add: less_eq_phase_def)
qed (auto simp: less_eq_phase_def less_phase_def)

end

lemma lifecycle_mono: "lifecycle p q \<Longrightarrow> p \<le> q"
  by (induction rule: lifecycle.induct) (simp_all add: less_eq_phase_def)

lemma lifecycles_mono: "lifecycle\<^sup>*\<^sup>* p q \<Longrightarrow> p \<le> q"
  by (induction rule: rtranclp_induct) (auto dest: lifecycle_mono)

section \<open>Frames of the steps\<close>

lemma metas_keep: "keep_gslb V w w' \<Longrightarrow> metas V w' = metas V w"
  by (simp add: metas_def fun_eq_iff keep_gslb_def)

lemma metas_keep_all: "keep_all V w w' \<Longrightarrow> metas V w' = metas V w"
  by (simp add: metas_keep keep_all_def)

lemma metas_Some: "v_gslb V w k = Some g \<Longrightarrow> metas V w k = Some (g_meta g)"
  by (simp add: metas_def)

lemma metas_upd:
  "v_gslb V w' = (v_gslb V w)(k := x) \<Longrightarrow> metas V w' = (metas V w)(k := map_option g_meta x)"
  by (auto simp: metas_def fun_eq_iff)

text \<open>What an update of the main resource can do to the metadata of the stored objects.\<close>

definition meta_step :: "'w view \<Rightarrow> object_meta \<Rightarrow> 'w \<Rightarrow> 'w \<Rightarrow> bool" where
  "meta_step V m w w' \<longleftrightarrow> metas V w' = metas V w \<or>
     metas V w' = (metas V w)(meta_key m :=
       (if om_deletionTimestamp m \<noteq> None \<and> om_finalizers m = [] then None else Some m))"

lemma meta_step_other: "meta_step V m w w' \<Longrightarrow> k \<noteq> meta_key m \<Longrightarrow> metas V w' k = metas V w k"
  by (auto simp: meta_step_def)

lemma meta_step_same: "meta_step V m w w' \<Longrightarrow> metas V w (meta_key m) = Some m \<Longrightarrow>
    om_deletionTimestamp m = None \<Longrightarrow> metas V w' = metas V w"
  by (auto simp: meta_step_def)

lemma meta_step_deleted:
  "meta_step V m w w' \<Longrightarrow> om_deletionTimestamp m \<noteq> None \<Longrightarrow>
     meta_phase (metas V w (meta_key m)) \<in> {Terminating, Absent} \<Longrightarrow>
     meta_phase (metas V w' (meta_key m)) \<in> {Terminating, Absent}"
  by (auto simp: meta_step_def meta_phase_def)

text \<open>A stored Gslb with the finalizer, deleted or not.\<close>

definition guarded :: "'w view \<Rightarrow> namespaced_name \<Rightarrow> 'w \<Rightarrow> bool" where
  "guarded V k w \<longleftrightarrow> (\<exists>m. metas V w k = Some m \<and> meta_key m = k \<and> gslbFinalizer \<in> set (om_finalizers m))"

lemma guarded_cong: "metas V w' k = metas V w k \<Longrightarrow> guarded V k w \<Longrightarrow> guarded V k w'"
  by (simp add: guarded_def)

context kube_api
begin

lemma update_meta_step:
  assumes "c_updateGslb S w g = (x, w')"
  shows "meta_step V (g_meta g) w w'"
proof -
  have "v_gslb V w' = v_gslb V w \<or> (\<exists>g'. g_meta g' = g_meta g \<and>
      v_gslb V w' = (v_gslb V w)(meta_key (g_meta g) := stored_gslb g'))"
    using assms update_gslb update_gslb_failed by (cases x) blast+
  then show ?thesis
  proof
    assume "v_gslb V w' = v_gslb V w"
    then show ?thesis by (simp add: meta_step_def metas_def fun_eq_iff)
  next
    assume "\<exists>g'. g_meta g' = g_meta g \<and> v_gslb V w' = (v_gslb V w)(meta_key (g_meta g) := stored_gslb g')"
    then show ?thesis by (auto simp: meta_step_def stored_gslb_def dest!: metas_upd)
  qed
qed

lemma resolve_meta_step:
  assumes "ResolveGslbSpec (Some S) dr w g = (y, g1, dr1, w1)"
  shows "meta_step V (g_meta g) w w1"
proof -
  let ?g = "g\<lparr>g_spec := (g_spec g)\<lparr>gs_strategy := set_predefined (gs_strategy (g_spec g))\<rparr>\<rparr>"
  consider "w1 = w" | x where "c_updateGslb S w ?g = (x, w1)"
    using assms by (auto simp: ResolveGslbSpec_def Let_def split: if_splits option.splits elim!: sum_stepE)
  then show ?thesis using update_meta_step [of w ?g] by cases (auto simp: meta_step_def)
qed

lemma reconcile_zone_metas:
  assumes "reconcile_zone S ord zsort r result w g = (x, w')"
  shows "metas V w' = metas V w"
proof -
  have st: "updateGslbStatus S r w1 g = (y, w2) \<Longrightarrow> metas V w2 = metas V w1" for w1 y w2
    using updateGslbStatus_frame by (auto simp: metas_def fun_eq_iff)
  have cr: "pr_CreateZoneDelegationForExternalDNS S ord zsort (re_provider r) w g = (y, w1) \<Longrightarrow> metas V w1 = metas V w" for y w1
    using pr_create_frame by (auto simp: dns_frame_def intro: metas_keep)
  show ?thesis
    using assms unfolding reconcile_zone_def by (auto elim!: go_stepE dest!: st cr)
qed

lemma reconcile_objects_metas:
  assumes "reconcile_objects S ord zsort r result w g = (x, w')"
  shows "metas V w' = metas V w"
proof -
  have si: "saveIngress S ord w1 ga i = (y, w2) \<Longrightarrow> metas V w2 = metas V w1" for w1 ga i y w2
    using saveIngress_frame by (blast intro: metas_keep)
  have de: "gslbDNSEndpoint S ord r w1 ga = (y, w2) \<Longrightarrow> metas V w2 = metas V w1" for w1 ga y w2
    using gslbDNSEndpoint_keep by (blast intro: metas_keep_all)
  have sd: "SaveDNSEndpoint S p w1 n i = (y, w2) \<Longrightarrow> metas V w2 = metas V w1" for p w1 n i y w2
    using SaveDNSEndpoint_frame by (auto simp: dns_frame_def intro: metas_keep)
  show ?thesis
    using assms unfolding reconcile_objects_def pr_SaveDNSEndpoint_eq
    by (auto elim!: sum_stepE opt_stepE go_stepE dest!: si de sd reconcile_zone_metas)
qed

lemma reconcile_live_metas:
  assumes "reconcile_live S ord zsort r result w g = (x, w')"
  shows "metas V w' = metas V w \<or>
    meta_step V ((g_meta g)\<lparr>om_finalizers := om_finalizers (g_meta g) @ [gslbFinalizer]\<rparr>) w w'"
proof -
  have "meta_step V ((g_meta g)\<lparr>om_finalizers := om_finalizers (g_meta g) @ [gslbFinalizer]\<rparr>) w w1"
    if "addFinalizer S w g = (y, w1)" for y w1
    using update_meta_step [OF that [unfolded addFinalizer_def]] by simp
  with assms show ?thesis
    unfolding reconcile_live_def
    by (auto split: if_splits elim!: sum_stepE dest!: reconcile_objects_metas simp: meta_step_def)
qed

lemma drop_finalizers_metas:
  "drop_finalizers S r fs g w = (x, w') \<Longrightarrow> om_deletionTimestamp (g_meta g) \<noteq> None \<Longrightarrow>
     meta_phase (metas V w (meta_key (g_meta g))) \<in> {Terminating, Absent} \<Longrightarrow>
     meta_phase (metas V w' (meta_key (g_meta g))) \<in> {Terminating, Absent} \<and>
     (\<forall>k. k \<noteq> meta_key (g_meta g) \<longrightarrow> metas V w' k = metas V w k)"
proof (induction fs arbitrary: g w)
  case (Cons f fs)
  show ?case
  proof (cases "f \<in> set (om_finalizers (g_meta g))")
    case True
    obtain y w1 where fin: "pr_Finalize S (re_provider r) w g = (y, w1)" by fastforce
    have m1: "metas V w1 = metas V w" using pr_finalize_frame [OF fin] by (auto simp: dns_frame_def intro: metas_keep)
    from Cons.prems(1) True fin consider "w' = w1"
      | l x2 w2 where "c_updateGslb S w1 (set_finalizers l g) = (x2, w2)" "w' = w2"
      | l g2 w2 where "c_updateGslb S w1 (set_finalizers l g) = (Inr g2, w2)" "drop_finalizers S r fs g2 w2 = (x, w')"
      by (auto simp: finalizeGslb_def split: go.splits option.splits elim!: sum_stepE)
    then show ?thesis
    proof cases
      case (2 l x2 w2)
      with update_meta_step [OF 2(1)] Cons.prems(2,3) m1 meta_step_deleted [OF update_meta_step [OF 2(1)]] meta_step_other
      show ?thesis by fastforce
    next
      case (3 l g2 w2)
      have g2: "om_deletionTimestamp (g_meta g2) \<noteq> None" "meta_key (g_meta g2) = meta_key (g_meta g)"
        using update_gslb [OF 3(1)] Cons.prems(2) by auto
      note st = update_meta_step [OF 3(1)]
      have "meta_phase (metas V w2 (meta_key (g_meta g))) \<in> {Terminating, Absent}"
        using meta_step_deleted [OF st] Cons.prems(2,3) m1 by simp
      with Cons.IH [OF 3(2) g2(1)] meta_step_other [OF st] g2(2) m1 show ?thesis by auto
    qed (use Cons.prems m1 in simp)
  qed (use Cons in simp)
qed simp

lemma reconcile_delete_metas:
  assumes "reconcile_delete S r result w g = (x, w')" "om_deletionTimestamp (g_meta g) \<noteq> None"
    and "meta_phase (metas V w (meta_key (g_meta g))) \<in> {Terminating, Absent}"
  shows "meta_phase (metas V w' (meta_key (g_meta g))) \<in> {Terminating, Absent} \<and>
    (\<forall>k. k \<noteq> meta_key (g_meta g) \<longrightarrow> metas V w' k = metas V w k)"
proof -
  obtain y where "drop_finalizers S r [gslbFinalizer, legacyFinalizer] g w = (y, w')"
    using assms(1) by (auto simp: reconcile_delete_def elim!: go_stepE)
  from drop_finalizers_metas [OF this assms(2,3)] show ?thesis .
qed

lemma Reconcile_absent:
  assumes "Reconcile S ord zsort r dr w req = (x, dr', w')" and "v_gslb V w req = None"
  shows "keep_all V w w' \<and> dr' = dr"
proof -
  obtain y w1 where get: "c_getGslb S w req = (y, w1)" by fastforce
  note k = readsD [OF get_gslb get]
  show ?thesis using assms get k(1,2) by (cases y) (auto simp: Reconcile_def Let_def)
qed

text \<open>The effect of a run on the metadata: a live Gslb keeps its own or gets the finalizer appended,
  a deleted one stays deleted or disappears, and no other Gslb changes.\<close>

lemma Reconcile_metas:
  assumes "Reconcile S ord zsort r dr w req = (x, dr', w')"
  shows "(\<forall>k. k \<noteq> req \<longrightarrow> metas V w' k = metas V w k) \<and>
    (case metas V w req of
       None \<Rightarrow> metas V w' req = None
     | Some m \<Rightarrow> if om_deletionTimestamp m \<noteq> None then meta_phase (metas V w' req) \<in> {Terminating, Absent}
         else metas V w' req \<in> {Some m, Some (m\<lparr>om_finalizers := om_finalizers m @ [gslbFinalizer]\<rparr>)})"
proof (cases "v_gslb V w req")
  case None
  with Reconcile_absent [OF assms None] have "metas V w' = metas V w" "metas V w req = None"
    by (auto simp: metas_keep_all metas_def)
  then show ?thesis by simp
next
  case (Some g)
  have m: "metas V w req = Some (g_meta g)" using Some by (rule metas_Some)
  from assms Some show ?thesis
  proof (cases rule: Reconcile_found)
    case (read e)
    with m show ?thesis by (auto simp: metas_keep_all meta_phase_def)
  next
    case (resolve w1 e e' g1)
    note st = resolve_meta_step [OF resolve(2)] and k = metas_keep_all [OF resolve(1)]
    show ?thesis
    proof (cases "om_deletionTimestamp (g_meta g) = None")
      case True
      with meta_step_same [OF st] m k resolve(4) show ?thesis by simp
    next
      case False
      with meta_step_deleted [OF st] m k resolve(4) meta_step_other [OF st] show ?thesis by (simp add: meta_phase_def)
    qed
  next
    case (deleted w1 g1 w2)
    note st = resolve_meta_step [OF deleted(2)] and k = metas_keep_all [OF deleted(1)] and g1 = resolve_meta [OF deleted(2)]
    have "meta_phase (metas V w2 req) \<in> {Terminating, Absent}"
      using meta_step_deleted [OF st deleted(3)] m k deleted(3,5) by (simp add: meta_phase_def)
    with reconcile_delete_metas [OF deleted(4)] g1 deleted(3,5) meta_step_other [OF st] m k show ?thesis by auto
  next
    case (live w1 g1 w2)
    note k = metas_keep_all [OF live(1)] and g1 = resolve_meta [OF live(2)]
    have "metas V w2 = metas V w" using meta_step_same [OF resolve_meta_step [OF live(2)]] m k live(3,5) by simp
    with reconcile_live_metas [OF live(4)] g1 m live(3,5) show ?thesis
      by (auto simp: meta_step_def split: if_splits)
  qed
qed

lemma Reconcile_lifecycle:
  assumes "Reconcile S ord zsort r dr w req = (x, dr', w')"
  shows "lifecycle (gslb_phase V w k) (gslb_phase V w' k)"
proof (cases "k = req")
  case True
  with Reconcile_metas [OF assms] show ?thesis
    by (cases "metas V w req") (auto simp: gslb_phase_def meta_phase_def lifecycle_from split: if_splits)
next
  case False
  with Reconcile_metas [OF assms] have "metas V w' k = metas V w k" by blast
  then show ?thesis by (simp add: gslb_phase_def stay)
qed

lemma Reconcile_dr_ok:
  assumes "Reconcile S ord zsort r dr w req = (x, dr', w')" and "dr_ok dr"
  shows "dr_ok dr'"
proof (cases "v_gslb V w req")
  case None
  with Reconcile_absent [OF assms(1) None] assms(2) show ?thesis by simp
next
  case (Some g)
  from assms(1) Some show ?thesis
    by (cases rule: Reconcile_found) (use assms(2) in \<open>auto intro: resolve_dr_ok\<close>)
qed

lemma Reconcile_guarded:
  assumes "\<And>w g. fst (pr_Finalize S (re_provider r) w g) \<noteq> None"
    and "Reconcile S ord zsort r dr w req = (x, dr', w')" and "guarded V k w"
  shows "guarded V k w'"
proof (cases "k = req")
  case True
  from assms(3) True obtain g where g: "v_gslb V w req = Some g" "meta_key (g_meta g) = req" "gslbFinalizer \<in> set (om_finalizers (g_meta g))"
    by (auto simp: guarded_def metas_def)
  show ?thesis
  proof (cases "om_deletionTimestamp (g_meta g) = None")
    case True
    with Reconcile_metas [OF assms(2)] metas_Some [OF g(1)] g(2,3) \<open>k = req\<close> show ?thesis
      by (auto simp: guarded_def meta_key_def)
  next
    case False
    with Reconcile_guard [OF assms(1), where g = g, unfolded g(2), OF assms(2) g(1)] g(2,3) \<open>k = req\<close> show ?thesis
      by (auto simp: guarded_def metas_def)
  qed
next
  case False
  with Reconcile_metas [OF assms(2)] assms(3) show ?thesis by (blast intro: guarded_cong)
qed

lemma endpointMapHandler_keep: "endpointMapHandler S w a = (x, w') \<Longrightarrow> keep_all V w w'"
  by (auto simp: endpointMapHandler_def dest: list_gslb elim!: sum_stepE)

lemma ingressMapHandler_guarded:
  assumes "ingressMapHandler S ord w a = (x, w')" "range_ok ord" "gomap_ok (annotations a)" "guarded V k w"
  shows "guarded V k w'"
  using ingressMapHandler_frame [OF assms(1-3)] assms(4) by (auto simp: guarded_def metas_def)

end

section \<open>Deletion on a reliable platform\<close>

text \<open>No update of a Gslb and no finalization fails.\<close>

definition deletion_reliable :: "'w sys \<Rightarrow> GslbReconciler \<Rightarrow> bool" where
  "deletion_reliable S r \<longleftrightarrow> (\<forall>w g. fst (pr_Finalize S (re_provider r) w g) = None) \<and>
     (\<forall>w g. \<exists>g'. fst (c_updateGslb S w g) = Inr g')"

lemma deletion_reliableD:
  assumes "deletion_reliable S r"
  obtains w1 where "pr_Finalize S (re_provider r) w g = (None, w1)"
  using assms unfolding deletion_reliable_def by (metis prod.collapse)

lemma reliable_updateD:
  assumes "deletion_reliable S r"
  obtains g' w1 where "c_updateGslb S w g = (Inr g', w1)"
  using assms unfolding deletion_reliable_def by (metis prod.collapse)

text \<open>The resolver accepts the specification: it is new and has no negative number, or it is cached
  without an error.\<close>

definition resolvable :: "DependencyResolver \<Rightarrow> Gslb \<Rightarrow> bool" where
  "resolvable dr g \<longleftrightarrow> (if g_spec g = dr_spec dr then dr_errorSpec dr = None
     else 0 \<le> st_dnsTtlSeconds (gs_strategy (g_spec g)) \<and> 0 \<le> st_splitBrainThresholdSeconds (gs_strategy (g_spec g)))"

lemma resolve_reliable:
  assumes "deletion_reliable S r" "resolvable dr g"
  obtains g1 dr1 w1 where "ResolveGslbSpec (Some S) dr w g = (None, g1, dr1, w1)"
proof (cases "g_spec g = dr_spec dr")
  case True
  with assms(2) that show ?thesis by (simp add: resolve_cached resolvable_def)
next
  case False
  let ?g = "g\<lparr>g_spec := (g_spec g)\<lparr>gs_strategy := set_predefined (gs_strategy (g_spec g))\<rparr>\<rparr>"
  obtain g' w1 where u: "c_updateGslb S w ?g = (Inr g', w1)" using assms(1) by (rule reliable_updateD)
  have "validateSpec (set_predefined (gs_strategy (g_spec g))) = None"
    using False assms(2) by (simp add: validateSpec_iff resolvable_def)
  with False u that show ?thesis by (simp add: ResolveGslbSpec_def Let_def)
qed

context kube_api
begin

lemma drop_finalizers_reliable:
  assumes "deletion_reliable S r"
  shows "(\<And>f. f \<in> set fs \<Longrightarrow> count_list (om_finalizers (g_meta g)) f \<le> 1) \<Longrightarrow> \<exists>g' w'. drop_finalizers S r fs g w = (Ok g', w')"
proof (induction fs arbitrary: g w)
  case (Cons f fs)
  let ?l = "filter (\<lambda>x. x \<noteq> f) (om_finalizers (g_meta g))"
  have rm: "remove_fin (om_finalizers (g_meta g)) f = Ok ?l" using Cons.prems by (intro remove_unique) simp
  obtain w1 where fin: "pr_Finalize S (re_provider r) w g = (None, w1)" using assms by (rule deletion_reliableD)
  obtain g1 w2 where u: "c_updateGslb S w1 (set_finalizers ?l g) = (Inr g1, w2)" using assms by (rule reliable_updateD)
  have "\<exists>g' w'. drop_finalizers S r fs g1 w2 = (Ok g', w')"
    using update_gslb [OF u] Cons.prems by (intro Cons.IH) (auto simp: count_list_filter)
  moreover have "\<exists>g' w'. drop_finalizers S r fs g w = (Ok g', w')" using Cons by simp
  ultimately show ?case by (simp add: finalizeGslb_def rm fin u)
qed simp

lemma Reconcile_reliable:
  assumes "deletion_reliable S r" and "resolvable dr g" and "fst (c_getGslb S w (meta_key (g_meta g))) = Inr g"
    and "om_deletionTimestamp (g_meta g) \<noteq> None"
    and "\<And>f. f \<in> {gslbFinalizer, legacyFinalizer} \<Longrightarrow> count_list (om_finalizers (g_meta g)) f \<le> 1"
  shows "\<exists>dr' w'. Reconcile S ord zsort r dr w (meta_key (g_meta g)) = (Ok (no_result, None), dr', w')"
proof -
  obtain w1 where get: "c_getGslb S w (meta_key (g_meta g)) = (Inr g, w1)" using assms(3) by (metis prod.collapse)
  obtain g1 dr1 w2 where res: "ResolveGslbSpec (Some S) dr w1 g = (None, g1, dr1, w2)"
    using assms(1,2) by (rule resolve_reliable)
  obtain g2 w3 where d: "drop_finalizers S r [gslbFinalizer, legacyFinalizer] g1 w2 = (Ok g2, w3)"
    using drop_finalizers_reliable [OF assms(1), of "[gslbFinalizer, legacyFinalizer]" g1 w2] assms(5) resolve_meta [OF res] by auto
  have "om_deletionTimestamp (g_meta g1) \<noteq> None" using assms(4) resolve_meta [OF res] by simp
  with get res d show ?thesis by (simp add: Reconcile_def reconcile_delete_def Stop_def Let_def)
qed

text \<open>A negative TTL or threshold is an error before anything else is looked at.\<close>

lemma Reconcile_invalid:
  assumes "Reconcile S ord zsort r dr w req = (x, dr', w')" and "dr_ok dr" and "v_gslb V w req = Some g"
    and "st_dnsTtlSeconds (gs_strategy (g_spec g)) < 0 \<or> st_splitBrainThresholdSeconds (gs_strategy (g_spec g)) < 0"
  shows "keep_all V w w' \<and> (\<exists>e. x = Ok (no_result, Some e))"
proof -
  obtain e where e: "validateSpec (set_predefined (gs_strategy (g_spec g))) = Some e"
    using assms(4) validateSpec_iff [of "set_predefined (gs_strategy (g_spec g))"] by (cases "validateSpec (set_predefined (gs_strategy (g_spec g)))") auto
  have c: "g_spec g = dr_spec dr \<Longrightarrow> dr_errorSpec dr \<noteq> None"
    using assms(2,4) by (auto simp: dr_ok_def resolved_def zero_spec_def)
  have ne: "ResolveGslbSpec (Some S) dr w1 g = (y, g1, dr1, w2) \<Longrightarrow> y \<noteq> None \<and> w2 = w1" for w1 y g1 dr1 w2
    using c by (cases "g_spec g = dr_spec dr") (auto simp: ResolveGslbSpec_def e Let_def)
  from assms(1,3) show ?thesis by (cases rule: Reconcile_found) (auto dest!: ne)
qed

end

section \<open>Runs of the process\<close>

text \<open>A resolver that has not seen a specification yet, as at the start of the process.\<close>

definition fresh_cache :: "DependencyResolver \<Rightarrow> bool" where
  "fresh_cache dr \<longleftrightarrow> dr_spec dr = zero_spec \<and> dr_errorSpec dr = None"

lemma fresh_cache_ok: "fresh_cache dr \<Longrightarrow> dr_ok dr"
  by (simp add: fresh_cache_def dr_ok_def)

lemma fresh_cache_New: "fresh_cache NewDependencyResolver"
  by (simp add: fresh_cache_def NewDependencyResolver_def)

text \<open>The parameters are the platform, the visiting and sorting orders, the reconciler, the steps the
  environment makes between two calls of the process (\<open>env\<close>) and the world at the start. A run
  that panicked goes on with the world it left, as after a restart.\<close>

inductive run ::
    "'w sys \<Rightarrow> range_order \<Rightarrow> zone_sort \<Rightarrow> GslbReconciler \<Rightarrow> ('w \<Rightarrow> 'w \<Rightarrow> bool) \<Rightarrow> 'w
       \<Rightarrow> DependencyResolver \<Rightarrow> 'w \<Rightarrow> bool"
  for S ord zsort r env w0 where
  start: "fresh_cache dr \<Longrightarrow> run S ord zsort r env w0 dr w0"
| reconcile: "run S ord zsort r env w0 dr w \<Longrightarrow> Reconcile S ord zsort r dr w req = (x, dr', w') \<Longrightarrow>
    run S ord zsort r env w0 dr' w'"
| endpoints: "run S ord zsort r env w0 dr w \<Longrightarrow> endpointMapHandler S w a = (y, w') \<Longrightarrow> run S ord zsort r env w0 dr w'"
| ingress: "run S ord zsort r env w0 dr w \<Longrightarrow> gomap_ok (annotations a) \<Longrightarrow> ingressMapHandler S ord w a = (z, w') \<Longrightarrow>
    run S ord zsort r env w0 dr w'"
| restart: "run S ord zsort r env w0 dr w \<Longrightarrow> fresh_cache dr' \<Longrightarrow> run S ord zsort r env w0 dr' w"
| environment: "run S ord zsort r env w0 dr w \<Longrightarrow> env w w' \<Longrightarrow> run S ord zsort r env w0 dr w'"

context kube_api
begin

lemma run_dr_ok: "run S ord zsort r env w0 dr w \<Longrightarrow> dr_ok dr"
  by (induction rule: run.induct) (auto intro: fresh_cache_ok Reconcile_dr_ok)

lemma run_guarded:
  assumes "run S ord zsort r env w0 dr w" and "guarded V k w0" and "range_ok ord"
    and "\<And>w g. fst (pr_Finalize S (re_provider r) w g) \<noteq> None"
    and "\<And>w w'. env w w' \<Longrightarrow> guarded V k w \<Longrightarrow> guarded V k w'"
  shows "guarded V k w"
  using assms(1)
proof (induction rule: run.induct)
  case (reconcile dr w req x dr' w')
  then show ?case using Reconcile_guarded [OF assms(4)] by blast
next
  case (endpoints dr w a y w')
  then show ?case by (blast intro: guarded_cong dest: endpointMapHandler_keep fun_cong [OF metas_keep_all])
next
  case (ingress dr w a z w')
  then show ?case using ingressMapHandler_guarded [OF _ assms(3)] by blast
qed (use assms in auto)

end

end
