(* ===== verification/Samples.thy ===== *)
theory Samples
  imports Controller
begin

text \<open>
  A worked example: one live Gslb on the in-memory platform without faults, followed through all the
  steps of a run of \<^verbatim>\<open>Reconcile\<close>. The witnesses of the properties about live Gslbs rest on it.
\<close>

section \<open>The objects\<close>

definition store_of :: "Gslb \<Rightarrow> store" where
  "store_of g = web_store\<lparr>s_gslb := [((''ns'', ''g''), g)]\<rparr>"

definition live_gslb :: Gslb where
  "live_gslb = web_gslb [sample_rule ''a.example.com'' [''up'']]"

text \<open>Worlds in which the Ingress of the sample has its address, the workload is that of the sample
  the DNSEndpoints are stored under their names, and no update was refused.\<close>

definition live_world :: "store \<Rightarrow> bool" where
  "live_world w \<longleftrightarrow>
     (\<exists>j. map_of (s_ingress w) (''ns'', ''g'') = Some j \<and> ing_lb j = ing_lb sample_ingress \<and> meta_key (ing_meta j) = (''ns'', ''g'')) \<and>
     map_of (s_service w) = map_of (s_service web_store) \<and> map_of (s_endpoints w) = map_of (s_endpoints web_store) \<and>
     (\<forall>k d. map_of (s_dns w) k = Some d \<longrightarrow> meta_key (de_meta d) = k) \<and> s_refused w = []"

definition live_named :: "Gslb \<Rightarrow> bool" where
  "live_named g \<longleftrightarrow> g_namespace g = ''ns'' \<and> g_name g = ''g'' \<and> gs_ingress (g_spec g) = gs_ingress (g_spec live_gslb) \<and>
     gomap_ok (annotations (g_meta g))"

section \<open>The steps\<close>

lemma quiet_owner: "l_setControllerReference quiet_sys = (\<lambda>owner m. Inr (m\<lparr>om_ownerReferences := [om_name owner]\<rparr>))"
  by (simp add: quiet_sys_def)

lemma quiet_get:
  "c_getIngress quiet_sys w k = (case map_of (s_ingress w) k of None \<Rightarrow> Inl (NotFound (snd k))
     | Some x \<Rightarrow> if meta_key (ing_meta x) = k then Inr x else Inl (ExtError ''bad key''), tick w)"
  "c_getDNSEndpoint quiet_sys w k = (case map_of (s_dns w) k of None \<Rightarrow> Inl (NotFound (snd k))
     | Some x \<Rightarrow> if meta_key (de_meta x) = k then Inr x else Inl (ExtError ''bad key''), tick w)"
  "c_getService quiet_sys w k = (case map_of (s_service w) k of None \<Rightarrow> Inl (NotFound (snd k)) | Some x \<Rightarrow> Inr x, tick w)"
  "c_getEndpoints quiet_sys w k = (case map_of (s_endpoints w) k of None \<Rightarrow> Inl (NotFound (snd k)) | Some x \<Rightarrow> Inr x, tick w)"
  by (simp_all add: quiet_sys_def mem_get_def fault_at_def named_defs split: option.split)

lemma quiet_put:
  "c_updateIngress quiet_sys w i = (None, (tick w)\<lparr>s_ingress := AList.update (meta_key (ing_meta i)) i (s_ingress w)\<rparr>)"
  "c_createDNSEndpoint quiet_sys w d = (None, (tick w)\<lparr>s_dns := AList.update (meta_key (de_meta d)) d (s_dns w)\<rparr>)"
  "c_updateDNSEndpoint quiet_sys w d = (None, (tick w)\<lparr>s_dns := AList.update (meta_key (de_meta d)) d (s_dns w)\<rparr>)"
  "c_updateGslbStatus quiet_sys w g = (None, put_status g (tick w))"
  by (simp_all add: quiet_sys_def mem_write_def mem_updateIngress_def fault_at_def)

lemma live_world_keep:
  assumes "keep_all mem_view w w'" "live_world w"
  shows "live_world w'"
  using assms by (simp add: live_world_def keep_defs)

lemma live_exposed:
  assumes "live_world w" "live_named g"
  shows "GslbIngressExposedIPs quiet_sys r w g = (Inr [''10.0.0.9''], tick w)"
  using assms by (auto simp: live_world_def live_named_def GslbIngressExposedIPs_def quiet_get sample_ingress_def)

lemma live_health:
  assumes "live_world w" "live_named g"
  shows "getServiceHealthStatus quiet_sys w g = (Ok [(''a.example.com'', ''Healthy'')], tick (tick w))"
  using assms
  by (simp add: live_world_def live_named_def getServiceHealthStatus_def live_gslb_def web_gslb_def sample_rule_def
      endpoint_health_def quiet_get web_store_def m_set_def Let_def)

lemma live_save_dns:
  assumes "live_world w" "om_namespace (de_meta d) = n"
  shows "\<exists>w'. SaveDNSEndpoint quiet_sys r w n d = (None, w') \<and> live_world w' \<and>
    (\<forall>k. map_of (s_dns w') k \<noteq> None \<longleftrightarrow> k = meta_key (de_meta d) \<or> map_of (s_dns w) k \<noteq> None)"
  using assms
  by (cases "map_of (s_dns w) (n, om_name (de_meta d))")
    (auto simp: SaveDNSEndpoint_def quiet_get quiet_put live_world_def update_conv' meta_key_def)

lemma live_save_ingress:
  assumes "live_world w" "live_named g" "meta_key (ing_meta i) = (''ns'', ''g'')"
  shows "\<exists>w'. saveIngress quiet_sys ord w g i = (None, w') \<and> live_world w'"
proof -
  from assms(1) obtain j where "map_of (s_ingress w) (''ns'', ''g'') = Some j" "ing_lb j = ing_lb sample_ingress"
    "meta_key (ing_meta j) = (''ns'', ''g'')" by (auto simp: live_world_def)
  with assms show ?thesis
    by (auto simp: saveIngress_def live_named_def quiet_get quiet_put live_world_def merged_ingress_def update_conv' meta_key_def)
qed

lemma live_endpoint:
  assumes "live_world w" "live_named g"
  shows "\<exists>d w'. gslbDNSEndpoint quiet_sys (\<lambda>m. m) sample_reconciler w g = (Ok d, w') \<and> live_world w' \<and>
    om_namespace (de_meta d) = ''ns'' \<and> meta_key (de_meta d) = (''ns'', ''g'')"
proof -
  have "live_world (tick w')" if "live_world w'" for w' using that by (simp add: live_world_def)
  then have w: "live_world (tick (tick w))" using assms(1) by blast
  have z: "co_edgeDNSZone (re_config sample_reconciler) = ''example.com''"
    by (simp add: sample_reconciler_def sample_config_def)
  obtain d w' where d: "gslbDNSEndpoint quiet_sys (\<lambda>m. m) sample_reconciler w g = (Ok d, w')"
    by (simp add: gslbDNSEndpoint_def live_health [OF assms] pr_GslbIngressExposedIPs_eq live_exposed [OF w assms(2)]
        quiet_targets z quiet_owner Let_def)
  from kube_api.gslbDNSEndpoint_key [OF quiet_api d] assms(2) have "meta_key (de_meta d) = (''ns'', ''g'')"
    by (simp add: live_named_def)
  with d live_world_keep [OF kube_api.gslbDNSEndpoint_keep [OF quiet_api d] assms(1)] show ?thesis
    by (auto simp: meta_key_def)
qed

lemma live_delegate:
  assumes "live_world w" "live_named g" "map_of (s_dns w) (''ns'', ''g'') \<noteq> None"
  shows "\<exists>w'. pr_CreateZoneDelegationForExternalDNS quiet_sys ord zsort (re_provider sample_reconciler) w g = (Ok (), w') \<and>
    live_world w' \<and> map_of (s_dns w') (''ns'', ''g'') \<noteq> None"
proof -
  obtain p where p: "re_provider sample_reconciler = ExternalProvider p" "xd_config p = sample_config"
    by (simp add: sample_reconciler_def factory_Provider_def NewDNSProviderFactory_def sample_config_def NewExternalDNS_def)
  have c: "\<not> co_coreDNSExposed sample_config" "co_k8gbNamespace sample_config = ''k8gb''" by (simp_all add: sample_config_def)
  let ?d = "xd_NSRecord ord p g [''10.0.0.9'']"
  have t: "live_world (tick w)" using assms(1) by (simp add: live_world_def)
  have "om_namespace (de_meta ?d) = ''k8gb''" by (simp add: xd_NSRecord_def p c Let_def)
  from live_save_dns [OF t this] obtain w' where "SaveDNSEndpoint quiet_sys (xd_assistant p) (tick w) ''k8gb'' ?d = (None, w')"
      "live_world w'" "map_of (s_dns w') (''ns'', ''g'') \<noteq> None" using assms(3) by (metis tick_fields(3))
  then show ?thesis
    by (simp add: p c xd_CreateZoneDelegationForExternalDNS_def live_exposed [OF assms(1,2)] finish_def)
qed

lemma metrics_None:
  "fst (UpdateIngressHostsPerStatusMetric S m w g h) = None" "fst (UpdateHealthyRecordsMetric S m w g hr) = None"
  by (simp_all add: UpdateIngressHostsPerStatusMetric_def UpdateHealthyRecordsMetric_def Let_def split: prod.split)

lemma live_status:
  assumes "live_world w" "live_named g" "map_of (s_dns w) (''ns'', ''g'') \<noteq> None"
  shows "\<exists>w'. updateGslbStatus quiet_sys r w g = (Ok (), w')"
proof -
  let ?h = "[(''a.example.com'', ''Healthy'')]"
  let ?g1 = "g\<lparr>g_status := (g_status g)\<lparr>gst_serviceHealth := ?h\<rparr>\<rparr>"
  obtain w1 where m1: "UpdateIngressHostsPerStatusMetric quiet_sys (re_metrics r) (tick (tick w)) ?g1 ?h = (None, w1)"
    using metrics_None(1) by (metis prod.collapse)
  have k: "keep_all mem_view (tick (tick w)) w1" using kube_api.ingress_metric_keep [OF quiet_api m1] by blast
  have "live_world (tick (tick w))" using assms(1) by (simp add: live_world_def)
  from live_world_keep [OF k this] k assms(3) obtain d where d: "map_of (s_dns w1) (''ns'', ''g'') = Some d"
      "meta_key (de_meta d) = (''ns'', ''g'')" by (auto simp: live_world_def keep_defs)
  have n: "g_namespace ?g1 = ''ns''" "g_name ?g1 = ''g''" using assms(2) by (simp_all add: live_named_def g_namespace_def g_name_def)
  let ?hr = "healthy_records (de_endpoints d)"
  have r: "getHealthyRecords quiet_sys w1 ?g1 = (Inr ?hr, tick w1)" by (simp add: getHealthyRecords_def quiet_get d n)
  let ?g2 = "g\<lparr>g_status := (g_status g)\<lparr>gst_serviceHealth := ?h, gst_healthyRecords := ?hr, gst_geoTag := co_clusterGeoTag (re_config r)\<rparr>\<rparr>"
  obtain w2 where m2: "UpdateHealthyRecordsMetric quiet_sys (re_metrics r) (tick w1) ?g2 ?hr = (None, w2)"
    using metrics_None(2) by (metis prod.collapse)
  show ?thesis
    by (simp add: updateGslbStatus_def live_health [OF assms(1,2)] m1 r m2 quiet_put finish_def Let_def)
qed

section \<open>The run\<close>

lemma live_objects:
  assumes "live_world w" "live_named g"
  shows "\<exists>w'. reconcile_objects quiet_sys (\<lambda>m. m) zsort sample_reconciler result w g =
    (Ok (rr_delayedResult result, None), w') \<and> live_world w'"
proof -
  obtain i ga where i: "gslbIngress quiet_sys g = (Inr i, ga)" by (auto simp: gslbIngress_def quiet_owner Let_def)
  note gi = kube_api.gslbIngress_spec [OF quiet_api i]
  note an = kube_api.annotate_gslb_spec [OF quiet_api, of g]
  have ga: "live_named ga" "meta_key (ing_meta i) = (''ns'', ''g'')"
    using assms(2) gi(1,2) an(1-3) by (auto simp: live_named_def meta_key_g)
  from live_save_ingress [OF assms(1) ga] obtain w1 where s: "saveIngress quiet_sys (\<lambda>m. m) w ga i = (None, w1)" "live_world w1" by blast
  from live_endpoint [OF s(2) ga(1)] obtain d w2 where d: "gslbDNSEndpoint quiet_sys (\<lambda>m. m) sample_reconciler w1 ga = (Ok d, w2)"
    "live_world w2" "om_namespace (de_meta d) = ''ns''" "meta_key (de_meta d) = (''ns'', ''g'')" by blast
  from live_save_dns [OF d(2,3), of "pr_assistant (re_provider sample_reconciler)"] d(4) obtain w3 where
      sd: "SaveDNSEndpoint quiet_sys (pr_assistant (re_provider sample_reconciler)) w2 ''ns'' d = (None, w3)" "live_world w3"
        "map_of (s_dns w3) (''ns'', ''g'') \<noteq> None" by metis
  have n: "g_namespace ga = ''ns''" using ga(1) by (simp add: live_named_def)
  from live_delegate [OF sd(2) ga(1) sd(3)] obtain w4 where
      c: "pr_CreateZoneDelegationForExternalDNS quiet_sys (\<lambda>m. m) zsort (re_provider sample_reconciler) w3 ga = (Ok (), w4)"
        "live_world w4" "map_of (s_dns w4) (''ns'', ''g'') \<noteq> None" by blast
  from live_status [OF c(2) ga(1) c(3)] obtain w5 where u: "updateGslbStatus quiet_sys sample_reconciler w4 ga = (Ok (), w5)" by blast
  have "live_world w5" using kube_api.updateGslbStatus_frame [OF quiet_api u] c(2) by (simp add: live_world_def keep_defs)
  then show ?thesis
    by (simp add: reconcile_objects_def reconcile_zone_def i s(1) d(1) pr_SaveDNSEndpoint_eq n sd(1) c(1) u Requeue_def)
qed

lemma live_gslb_sel [simp]:
  "meta_key (g_meta live_gslb) = (''ns'', ''g'')" "om_finalizers (g_meta live_gslb) = []"
  "om_deletionTimestamp (g_meta live_gslb) = None" "g_namespace live_gslb = ''ns''" "annotations (g_meta live_gslb) = []"
  by (simp_all add: live_gslb_def web_gslb_def sample_gslb_def meta_key_def g_namespace_def annotations_def empty_meta_def)

lemma live_hyps:
  "v_gslb mem_view (store_of live_gslb) (meta_key (g_meta live_gslb)) = Some live_gslb"
  "om_deletionTimestamp (g_meta live_gslb) = None" "gomap_ok (annotations (g_meta live_gslb))" "g_spec live_gslb \<noteq> zero_spec"
  "g_namespace live_gslb \<noteq> co_k8gbNamespace (pr_config (re_provider sample_reconciler))"
  by (simp_all add: store_of_def) (simp_all add: live_gslb_def web_gslb_def zero_spec_def sample_reconciler_def NewDNSProviderFactory_def sample_config_def)

lemma live_reconciled_ok:
  "\<exists>dr w. Reconcile quiet_sys (\<lambda>m. m) zsort sample_reconciler NewDependencyResolver (store_of live_gslb)
     (meta_key (g_meta live_gslb)) = (Ok (no_result\<lparr>cr_requeueAfter := 30000000000\<rparr>, None), dr, w) \<and> s_refused w = []"
proof -
  let ?result = "NewReconcileResultHandler (co_reconcileRequeueSeconds (re_config sample_reconciler))"
  let ?w = "tick (tick (store_of live_gslb))"
  have get: "c_getGslb quiet_sys (store_of live_gslb) (''ns'', ''g'') = (Inr live_gslb, tick (store_of live_gslb))"
    using live_gslb_sel(1) by (simp add: quiet_sys_def mem_get_def fault_at_def named_gslb_def store_of_def)
  obtain dr where res: "ResolveGslbSpec (Some quiet_sys) NewDependencyResolver (tick (store_of live_gslb)) live_gslb = (None, live_gslb, dr, ?w)"
    by (simp add: ResolveGslbSpec_def NewDependencyResolver_def zero_spec_def live_gslb_def web_gslb_def set_predefined_def
        predefinedStrategy_def validateSpec_ok Let_def mem_updateGslb_def mem_eval store_of_def stored_gslb_def sample_gslb_def
        web_store_def sample_store_def)
  let ?g = "set_finalizers [gslbFinalizer] live_gslb"
  obtain w1 where add: "addFinalizer quiet_sys ?w live_gslb = (Inr ?g, w1)"
    by (simp add: addFinalizer_def quiet_sys_def mem_updateGslb_def fault_at_def)
  have "live_world ?w"
    by (auto simp: live_world_def store_of_def web_store_def sample_store_def empty_store_def sample_ingress_def meta_key_def)
  then have w1: "live_world w1"
    using kube_api.update_gslb_frame [OF quiet_api add [unfolded addFinalizer_def]] by (simp add: live_world_def keep_defs)
  have "live_named ?g"
    using live_gslb_sel by (simp add: live_named_def g_namespace_def g_name_def meta_key_def annotations_def)
  from live_objects [OF w1 this, of zsort ?result] obtain w2 where
      o: "reconcile_objects quiet_sys (\<lambda>m. m) zsort sample_reconciler ?result w1 ?g = (Ok (rr_delayedResult ?result, None), w2)" "live_world w2" by blast
  have "rr_delayedResult ?result = no_result\<lparr>cr_requeueAfter := 30000000000\<rparr>"
    by (simp add: NewReconcileResultHandler_def sample_reconciler_def sample_config_def second_def int64_id min_int64_def max_int64_def)
  with get res add o show ?thesis by (simp add: Reconcile_def reconcile_live_def live_world_def Let_def)
qed

text \<open>The sample once it has the finalizer, in any world of this kind.\<close>

definition kept_gslb :: Gslb where
  "kept_gslb = set_finalizers [gslbFinalizer] live_gslb"

lemma kept_gslb_sel [simp]:
  "meta_key (g_meta kept_gslb) = (''ns'', ''g'')" "om_finalizers (g_meta kept_gslb) = [gslbFinalizer]"
  "om_deletionTimestamp (g_meta kept_gslb) = None" "g_namespace kept_gslb = ''ns''" "annotations (g_meta kept_gslb) = []"
  "g_spec kept_gslb = g_spec live_gslb"
  using live_gslb_sel by (simp_all add: kept_gslb_def meta_key_def g_namespace_def annotations_def)

lemma kept_hyps:
  "g_spec kept_gslb \<noteq> zero_spec" "g_namespace kept_gslb \<noteq> co_k8gbNamespace (pr_config (re_provider sample_reconciler))"
  using live_hyps by simp_all

lemma kept_reconciled_ok:
  assumes "live_world w" and "map_of (s_gslb w) (''ns'', ''g'') = Some kept_gslb"
  shows "\<exists>res dr w'. Reconcile quiet_sys (\<lambda>m. m) zsort sample_reconciler NewDependencyResolver w
     (meta_key (g_meta kept_gslb)) = (Ok (res, None), dr, w') \<and> live_world w'"
proof -
  let ?result = "NewReconcileResultHandler (co_reconcileRequeueSeconds (re_config sample_reconciler))"
  have get: "c_getGslb quiet_sys w (''ns'', ''g'') = (Inr kept_gslb, tick w)"
    using assms(2) by (simp add: quiet_sys_def mem_get_def fault_at_def named_gslb_def)
  have spec: "kept_gslb\<lparr>g_spec := (g_spec live_gslb)\<lparr>gs_strategy := set_predefined (gs_strategy (g_spec live_gslb))\<rparr>\<rparr> = kept_gslb"
    "validateSpec (gs_strategy (g_spec live_gslb)) = None"
    by (simp_all add: kept_gslb_def set_finalizers_def live_gslb_def web_gslb_def set_predefined_def predefinedStrategy_def
        validateSpec_ok sample_gslb_def Let_def)
  obtain w1 where u: "c_updateGslb quiet_sys (tick w) kept_gslb = (Inr kept_gslb, w1)"
    by (simp add: quiet_sys_def mem_updateGslb_def fault_at_def)
  obtain dr where res: "ResolveGslbSpec (Some quiet_sys) NewDependencyResolver (tick w) kept_gslb = (None, kept_gslb, dr, w1)"
    using live_hyps(4) by (simp add: ResolveGslbSpec_def NewDependencyResolver_def spec u)
  have w1: "live_world w1"
    using kube_api.update_gslb_frame [OF quiet_api u] assms(1) by (simp add: live_world_def keep_defs)
  have "live_named kept_gslb"
    using kept_gslb_sel by (simp add: live_named_def g_namespace_def g_name_def meta_key_def)
  from live_objects [OF w1 this, of zsort ?result] obtain w2 where
      o: "reconcile_objects quiet_sys (\<lambda>m. m) zsort sample_reconciler ?result w1 kept_gslb = (Ok (rr_delayedResult ?result, None), w2)"
        "live_world w2" by blast
  with get res show ?thesis by (simp add: Reconcile_def reconcile_live_def Let_def)
qed

end
