(* ===== verification/Events.thy ===== *)
theory Events
  imports Samples
begin

text \<open>
  Which Gslbs are reconciled after a change: the watches that \<^verbatim>\<open>SetupWithManager\<close> of
  \<^verbatim>\<open>controllers/gslb_controller.go\<close> registers. A changed Gslb requests itself, a changed Ingress or
  DNSEndpoint the Gslb that controls it, and Ingresses and Endpoints go to the two handlers of
  \<open>Watches\<close> as well. How the library reads the controlling Gslb out of the owner references is the
  argument \<open>owner\<close>; the locale \<open>owner_api\<close> states that it undoes \<^verbatim>\<open>SetControllerReference\<close>.
\<close>

section \<open>The registered watches\<close>

text \<open>A changed object of one of the watched kinds, with its metadata.\<close>

datatype event = GslbEvent object_meta | IngressEvent object_meta | DNSEndpointEvent object_meta
  | EndpointsEvent object_meta

type_synonym owner_lookup = "string \<Rightarrow> string list \<Rightarrow> namespaced_name list"

definition controlled :: "owner_lookup \<Rightarrow> object_meta \<Rightarrow> namespaced_name list" where
  "controlled owner a = owner (om_namespace a) (om_ownerReferences a)"

definition SetupWithManager ::
    "'w sys \<Rightarrow> owner_lookup \<Rightarrow> range_order \<Rightarrow> event \<Rightarrow> 'w \<Rightarrow> namespaced_name list go \<times> 'w" where
  "SetupWithManager S owner ord ev w =
     (case ev of
        GslbEvent a \<Rightarrow> (Ok [meta_key a], w)
      | IngressEvent a \<Rightarrow> (case ingressMapHandler S ord w a of (reqs, w) \<Rightarrow> (Ok (controlled owner a @ reqs), w))
      | DNSEndpointEvent a \<Rightarrow> (Ok (controlled owner a), w)
      | EndpointsEvent a \<Rightarrow> endpointMapHandler S w a)"

lemma event_requests:
  "fst (SetupWithManager S owner ord (GslbEvent a) w) = Ok [meta_key a]"
  "fst (SetupWithManager S owner ord (IngressEvent a) w) = Ok (controlled owner a)"
  "fst (SetupWithManager S owner ord (DNSEndpointEvent a) w) = Ok (controlled owner a)"
  by (simp_all add: SetupWithManager_def ingressMapHandler_def)

section \<open>Owner references\<close>

text \<open>A Gslb set as the controller of an object is the one that changes of the object request.\<close>

locale owner_api = kube_api S V for S :: "'w sys" and V :: "'w view" +
  fixes owner :: owner_lookup
  assumes owner_found: "l_setControllerReference S (g_meta g) m = Inr m' \<Longrightarrow>
    owner (om_namespace m') (om_ownerReferences m') = [(om_namespace m', g_name g)]"

definition mem_owner :: owner_lookup where
  "mem_owner = (\<lambda>ns refs. map (\<lambda>r. (ns, r)) refs)"

interpretation mem_owned: owner_api "mem_sys f net dig" mem_view mem_owner
  by unfold_locales (auto simp: mem_sys_def mem_owner_def g_name_def split: if_splits)

text \<open>An update keeps the owner references of the object it found.\<close>

lemma merged_ingress_owner:
  "controlled owner (ing_meta (merged_ingress ord f i)) = controlled owner (ing_meta f)"
  by (simp add: merged_ingress_def controlled_def)

context kube_api
begin

lemma saveIngress_fresh:
  assumes "saveIngress S ord w g i = (None, w')" and "v_ingress V w (g_namespace g, g_name g) = None"
    and "meta_key (ing_meta i) = (g_namespace g, g_name g)"
  shows "v_ingress V w' (g_namespace g, g_name g) = Some i"
proof -
  obtain x w1 where get: "c_getIngress S w (g_namespace g, g_name g) = (x, w1)" by fastforce
  with readsD(2) [OF get_ingress get] assms(2) obtain e where "x = Inl e" by (cases x) auto
  with assms(1) get have "c_createIngress S w1 i = (None, w')" by (auto simp: saveIngress_def split: if_splits)
  from create_ingress [OF this] assms(3) show ?thesis by simp
qed

lemma saveIngress_found:
  assumes "saveIngress S ord w g i = (None, w')" and "v_ingress V w (g_namespace g, g_name g) = Some f"
  shows "\<exists>j. v_ingress V w' (g_namespace g, g_name g) = Some j \<and>
    controlled owner (ing_meta j) = controlled owner (ing_meta f)"
proof -
  obtain x w1 where get: "c_getIngress S w (g_namespace g, g_name g) = (x, w1)" by fastforce
  note rd = readsD [OF get_ingress get]
  have f: "x = Inr f"
    using assms rd(2) rd(3) get by (cases x) (auto simp: saveIngress_def split: if_splits)
  show ?thesis
  proof (cases "ingressEqual f i")
    case True
    with assms(1,2) get f rd(1) show ?thesis by (auto simp: saveIngress_def keep_defs)
  next
    case False
    let ?j = "merged_ingress ord f i"
    have key: "meta_key (ing_meta ?j) = (g_namespace g, g_name g)"
      using get_key(2) [OF get [unfolded f]] by (simp add: merged_ingress_def meta_key_def)
    from False assms(1) get f have "(case c_updateIngress S w1 ?j of
        (Some err, w) \<Rightarrow> if isConflict err then (None, w) else (Some err, w) | (None, w) \<Rightarrow> (None, w)) = (None, w')"
      by (simp add: saveIngress_def)
    then show ?thesis
    proof (cases rule: opt_stepE)
      case (None w2)
      with update_ingress [OF None(1)] key merged_ingress_owner [of owner ord f i] show ?thesis by auto
    next
      case (Some e w2)
      then have "isConflict e" "w' = w2" by (auto split: if_splits)
      with update_ingress_conflict [OF Some(1)] rd(1) assms(2) show ?thesis by (simp add: keep_defs)
    qed
  qed
qed

lemma SaveDNSEndpoint_fresh:
  assumes "SaveDNSEndpoint S r w n d = (None, w')" and "v_dns V w (meta_key (de_meta d)) = None"
    and "om_namespace (de_meta d) = n"
  shows "v_dns V w' (meta_key (de_meta d)) = Some d"
proof -
  obtain x w1 where get: "c_getDNSEndpoint S w (meta_key (de_meta d)) = (x, w1)" by fastforce
  with readsD(2) [OF get_dns get] assms(2) obtain e where "x = Inl e" by (cases x) auto
  with assms get have "c_createDNSEndpoint S w1 d = (None, w')"
    by (auto simp: SaveDNSEndpoint_def meta_key_def split: if_splits)
  from create_dns [OF this] show ?thesis by simp
qed

lemma SaveDNSEndpoint_found:
  assumes "SaveDNSEndpoint S r w n d = (None, w')" and "v_dns V w (meta_key (de_meta d)) = Some f"
    and "om_namespace (de_meta d) = n"
  shows "\<exists>j. v_dns V w' (meta_key (de_meta d)) = Some j \<and> controlled owner (de_meta j) = controlled owner (de_meta f)"
proof -
  obtain x w1 where get: "c_getDNSEndpoint S w (meta_key (de_meta d)) = (x, w1)" by fastforce
  note rd = readsD [OF get_dns get]
  have f: "x = Inr f"
    using assms rd(2) rd(3) get by (cases x) (auto simp: SaveDNSEndpoint_def meta_key_def split: if_splits)
  let ?d = "f\<lparr>de_endpoints := de_endpoints d, de_meta := (de_meta f)\<lparr>om_annotations := om_annotations (de_meta d),
                 om_labels := om_labels (de_meta d)\<rparr>\<rparr>"
  from f assms get have u: "c_updateDNSEndpoint S w1 ?d = (None, w')"
    by (auto simp: SaveDNSEndpoint_def meta_key_def)
  have "meta_key (de_meta ?d) = meta_key (de_meta d)"
    using get_key(3) [OF get [unfolded f]] by (simp add: meta_key_def)
  with update_dns [OF u] show ?thesis by (auto simp: controlled_def)
qed

lemma gslbIngress_names:
  assumes "gslbIngress S g = (x, ga)"
  shows "g_namespace ga = g_namespace g" "g_name ga = g_name g"
  using assms
  by (auto simp: gslbIngress_def annotate_gslb_def set_annotation g_namespace_def g_name_def Let_def split: sum.splits)

text \<open>The two saves of a successful live run, each with the objects stored before it and at the end.\<close>

lemma Reconcile_saves:
  assumes "Reconcile S ord zsort r dr w (meta_key (g_meta g)) = (Ok (res, None), dr', w')"
    and "v_gslb V w (meta_key (g_meta g)) = Some g" and "om_deletionTimestamp (g_meta g) = None"
    and "g_namespace g \<noteq> co_k8gbNamespace (pr_config (re_provider r))"
  obtains ga i u u1 d v v1 where "gslbIngress S ga = (Inr i, annotate_gslb S ga)"
    "g_namespace ga = g_namespace g" "g_name ga = g_name g"
    "saveIngress S ord u (annotate_gslb S ga) i = (None, u1)" "gslbDNSEndpoint S ord r u1 (annotate_gslb S ga) = (Ok d, v)"
    "SaveDNSEndpoint S (pr_assistant (re_provider r)) v (g_namespace g) d = (None, v1)"
    "v_ingress V u = v_ingress V w" "v_ingress V w' = v_ingress V u1" "v_dns V v = v_dns V w"
    "v_refused V u = v_refused V w" "v_refused V w' = v_refused V u1"
    "v_dns V w' (meta_key (g_meta g)) = v_dns V v1 (meta_key (g_meta g))"
    "om_annotations (g_meta ga) = om_annotations (g_meta g)"
    "dr_ok dr \<and> g_spec g \<noteq> zero_spec \<longrightarrow> g_spec ga = (g_spec g)\<lparr>gs_strategy := set_predefined (gs_strategy (g_spec g))\<rparr>"
proof -
  let ?key = "meta_key (g_meta g)"
  from assms(1,2) show ?thesis
  proof (cases rule: Reconcile_found)
    case (live w1 g1 w2)
    note m = resolve_meta [OF live(2)] and f = resolve_frame [OF live(2)]
    have st: "map_option g_meta (v_gslb V w2 (meta_key (g_meta g1))) = Some (g_meta g1)"
      using resolve_store [OF live(2)] assms(2,3) live(1) m by (auto simp: keep_gslb_stored)
    have del: "om_deletionTimestamp (g_meta g1) = None" using assms(3) m by simp
    from live(4) st del obtain u g2 where
        o: "reconcile_objects S ord zsort r (NewReconcileResultHandler (co_reconcileRequeueSeconds (re_config r))) u g2
          = (Ok (res, None), w')"
      and g2: "g_meta g2 = (g_meta g1)\<lparr>om_finalizers := om_finalizers (g_meta g2)\<rparr>"
      and k: "keep_ingress V w2 u" "keep_dns V w2 u" and sp: "g_spec g2 = g_spec g1" by (rule reconcile_live_ok)
    have an: "om_annotations (g_meta g2) = om_annotations (g_meta g)"
      using g2 m by (metis object_meta.select_convs(3) object_meta.surjective object_meta.update_convs(5))
    have rs: "dr_ok dr \<and> g_spec g \<noteq> zero_spec \<longrightarrow> g_spec g2 = (g_spec g)\<lparr>gs_strategy := set_predefined (gs_strategy (g_spec g))\<rparr>"
      using resolve_spec [OF live(2)] sp by simp
    have key: "meta_key (g_meta g2) = ?key" using g2 m by (metis meta_key_finalizers)
    from o obtain i ga u1 d v v1 where i: "gslbIngress S g2 = (Inr i, ga)" and s: "saveIngress S ord u ga i = (None, u1)"
      and d: "gslbDNSEndpoint S ord r u1 ga = (Ok d, v)"
      and sd: "SaveDNSEndpoint S (pr_assistant (re_provider r)) v (g_namespace ga) d = (None, v1)"
      and z: "reconcile_zone S ord zsort r (NewReconcileResultHandler (co_reconcileRequeueSeconds (re_config r))) v1 ga
        = (Ok (res, None), w')" by (rule reconcile_objects_ok)
    have ga: "ga = annotate_gslb S g2" using gslbIngress_spec(1) [OF i] .
    have n: "g_namespace ga = g_namespace g2" "g_name ga = g_name g2" "g_namespace g2 = g_namespace g" "g_name g2 = g_name g"
      using gslbIngress_names [OF i] g_key_meta [OF key] by auto
    note kd = keep_allD [OF gslbDNSEndpoint_keep [OF d]] and ks = saveIngress_frame [OF s]
      and kz = reconcile_zone_ok [OF z] and kw = SaveDNSEndpoint_frame [OF sd, unfolded dns_frame_def]
    show ?thesis
      by (rule that [of g2 i u u1 d v v1])
        (use i s d sd ga n kd ks kz kw k key an rs live(1) f assms(4) in \<open>auto simp: keep_defs keep_dns_outside_def meta_key_g\<close>)
  qed (use assms(3) in auto)
qed

end

context owner_api
begin

lemma gslbIngress_controlled:
  assumes "gslbIngress S g = (Inr i, ga)"
  shows "controlled owner (ing_meta i) = [(g_namespace g, g_name g)]" "meta_key (ing_meta i) = (g_namespace g, g_name g)"
proof -
  from assms obtain m where m: "ing_meta i = m"
    and o: "l_setControllerReference S (g_meta ga) (empty_meta\<lparr>om_name := g_name ga, om_namespace := g_namespace ga,
      om_annotations := om_annotations (g_meta ga)\<rparr>) = Inr m"
    by (auto simp: gslbIngress_def Let_def split: sum.splits)
  from owner_found [OF o] set_owner [OF o] m gslbIngress_names [OF assms]
  show "controlled owner (ing_meta i) = [(g_namespace g, g_name g)]" "meta_key (ing_meta i) = (g_namespace g, g_name g)"
    by (auto simp: controlled_def meta_key_def)
qed

lemma gslbDNSEndpoint_controlled:
  assumes "gslbDNSEndpoint S ord r w g = (Ok d, w')"
  shows "controlled owner (de_meta d) = [(g_namespace g, g_name g)]"
proof -
  from assms [unfolded gslbDNSEndpoint_def Let_def] obtain hs m where
      m: "l_setControllerReference S (g_meta g) (de_meta (dns_endpoint_of g hs)) = Inr m" "de_meta d = m"
    by (auto elim!: go_stepE sum_stepE split: sum.splits)
  from owner_found [OF m(1)] set_owner [OF m(1)] m(2) show ?thesis
    by (auto simp: controlled_def dns_endpoint_of_def)
qed

lemma Reconcile_requested:
  assumes "Reconcile S ord zsort r dr w (meta_key (g_meta g)) = (Ok (res, None), dr', w')"
    and "v_gslb V w (meta_key (g_meta g)) = Some g" and "om_deletionTimestamp (g_meta g) = None"
    and "g_namespace g \<noteq> co_k8gbNamespace (pr_config (re_provider r))"
  shows "\<exists>j. v_ingress V w' (meta_key (g_meta g)) = Some j \<and> controlled owner (ing_meta j) =
         (case v_ingress V w (meta_key (g_meta g)) of None \<Rightarrow> [meta_key (g_meta g)] | Some i \<Rightarrow> controlled owner (ing_meta i))"
    (is ?ingress)
    and "\<exists>d. v_dns V w' (meta_key (g_meta g)) = Some d \<and> controlled owner (de_meta d) =
         (case v_dns V w (meta_key (g_meta g)) of None \<Rightarrow> [meta_key (g_meta g)] | Some e \<Rightarrow> controlled owner (de_meta e))"
      (is ?endpoint)
proof -
  from Reconcile_saves [OF assms] obtain ga i u u1 d v v1 where gi: "gslbIngress S ga = (Inr i, annotate_gslb S ga)"
      and n: "g_namespace ga = g_namespace g" "g_name ga = g_name g"
      and s: "saveIngress S ord u (annotate_gslb S ga) i = (None, u1)"
      and d: "gslbDNSEndpoint S ord r u1 (annotate_gslb S ga) = (Ok d, v)"
      and sd: "SaveDNSEndpoint S (pr_assistant (re_provider r)) v (g_namespace g) d = (None, v1)"
      and k: "v_ingress V u = v_ingress V w" "v_ingress V w' = v_ingress V u1" "v_dns V v = v_dns V w"
        "v_dns V w' (meta_key (g_meta g)) = v_dns V v1 (meta_key (g_meta g))" .
  have a: "g_namespace (annotate_gslb S ga) = g_namespace g" "g_name (annotate_gslb S ga) = g_name g"
    using gslbIngress_names [OF gi] n by simp_all
  have dk: "meta_key (de_meta d) = meta_key (g_meta g)" "om_namespace (de_meta d) = g_namespace g"
    using gslbDNSEndpoint_key [OF d] a by (simp_all add: meta_key_g) (simp add: meta_key_def)
  show ?ingress
  proof (cases "v_ingress V w (meta_key (g_meta g))")
    case None
    then have "v_ingress V u1 (g_namespace g, g_name g) = Some i"
      using saveIngress_fresh [OF s] gslbIngress_controlled(2) [OF gi] a n k(1) by (simp add: meta_key_g)
    with None gslbIngress_controlled(1) [OF gi] n k(2) show ?thesis by (simp add: meta_key_g)
  next
    case (Some f)
    with saveIngress_found [OF s, of f owner] a k(1,2) show ?thesis by (simp add: meta_key_g)
  qed
  show ?endpoint
  proof (cases "v_dns V w (meta_key (g_meta g))")
    case None
    with SaveDNSEndpoint_fresh [OF sd _ dk(2)] gslbDNSEndpoint_controlled [OF d] a dk(1) k show ?thesis
      by (simp add: meta_key_g)
  next
    case (Some f)
    with SaveDNSEndpoint_found [OF sd _ dk(2), of f owner] dk(1) k show ?thesis by simp
  qed
qed

end

section \<open>Properties\<close>

text \<open>
  C10. Changes of the objects that a Gslb controls. After a successful run for a live Gslb, a change of
  its stored DNSEndpoint or Ingress requests exactly this Gslb when the run created the object; an
  object that was there before still requests what it requested, since updates keep its owner
  references (so nothing for the Ingress a Gslb was made from, which no Gslb controls).
  This holds as well when the update of an existing Ingress was refused with a conflict.
\<close>

theorem owned_requests:
  assumes "owner_api S V owner"
    and "Reconcile S ord zsort r dr w (meta_key (g_meta g)) = (Ok (res, None), dr', w')"
    and "v_gslb V w (meta_key (g_meta g)) = Some g" and "om_deletionTimestamp (g_meta g) = None"
    and "g_namespace g \<noteq> co_k8gbNamespace (pr_config (re_provider r))"
  shows "(\<exists>j. v_ingress V w' (meta_key (g_meta g)) = Some j \<and>
      (\<forall>u. fst (SetupWithManager S owner ord (IngressEvent (ing_meta j)) u) = Ok
         (case v_ingress V w (meta_key (g_meta g)) of None \<Rightarrow> [meta_key (g_meta g)] | Some i \<Rightarrow> controlled owner (ing_meta i)))) \<and>
    (\<exists>d. v_dns V w' (meta_key (g_meta g)) = Some d \<and>
      (\<forall>u. fst (SetupWithManager S owner ord (DNSEndpointEvent (de_meta d)) u) = Ok
         (case v_dns V w (meta_key (g_meta g)) of None \<Rightarrow> [meta_key (g_meta g)] | Some e \<Rightarrow> controlled owner (de_meta e))))"
  using owner_api.Reconcile_requested [OF assms] unfolding event_requests by blast

theorem owned_requests_witness:
  "\<exists>dr w i d. Reconcile quiet_sys (\<lambda>m. m) (sort_key nsv_address) sample_reconciler NewDependencyResolver (store_of live_gslb)
       (''ns'', ''g'') = (Ok (no_result\<lparr>cr_requeueAfter := 30000000000\<rparr>, None), dr, w) \<and>
     v_dns mem_view w (''ns'', ''g'') = Some d \<and>
     fst (SetupWithManager quiet_sys mem_owner (\<lambda>m. m) (DNSEndpointEvent (de_meta d)) w) = Ok [(''ns'', ''g'')] \<and>
     v_ingress mem_view w (''ns'', ''g'') = Some i \<and>
     fst (SetupWithManager quiet_sys mem_owner (\<lambda>m. m) (IngressEvent (ing_meta i)) w) = Ok []"
proof -
  obtain dr w where e: "Reconcile quiet_sys (\<lambda>m. m) (sort_key nsv_address) sample_reconciler NewDependencyResolver (store_of live_gslb)
      (meta_key (g_meta live_gslb)) = (Ok (no_result\<lparr>cr_requeueAfter := 30000000000\<rparr>, None), dr, w)" using live_reconciled_ok by blast
  have api: "owner_api quiet_sys mem_view mem_owner" unfolding quiet_sys_def by (rule mem_owned.owner_api_axioms)
  have b: "v_dns mem_view (store_of live_gslb) (''ns'', ''g'') = None"
    "v_ingress mem_view (store_of live_gslb) (''ns'', ''g'') = Some sample_ingress"
    "controlled mem_owner (ing_meta sample_ingress) = []"
    by (simp_all add: store_of_def web_store_def sample_store_def empty_store_def sample_ingress_def empty_meta_def
        controlled_def mem_owner_def)
  from owned_requests [OF api e live_hyps(1,2,5)] e b show ?thesis by (auto simp: quiet_put)
qed

end
