(* ===== verification/Steady.thy ===== *)
theory Steady
  imports Events
begin

text \<open>
  Runs that follow each other. A change of the Ingress makes the controller run again, so a run whose
  wishes are met already must leave the Ingress alone. The lemmas compare the Ingresses that two runs
  compute, and the DNSEndpoints they publish.
\<close>

section \<open>The Ingress of a second run\<close>

lemma ingress_saved_cong:
  "annotations (ing_meta i') = annotations (ing_meta i) \<Longrightarrow> ing_spec i' = ing_spec i \<Longrightarrow>
     ingress_saved i j \<Longrightarrow> ingressEqual j i'"
  by (auto simp: ingress_saved_def ingressEqual_def list_all_iff)

text \<open>What the Ingress is computed from.\<close>

definition same_wishes :: "Gslb \<Rightarrow> Gslb \<Rightarrow> bool" where
  "same_wishes g g' \<longleftrightarrow> om_annotations (g_meta g') = om_annotations (g_meta g) \<and>
     gs_ingress (g_spec g') = gs_ingress (g_spec g) \<and>
     set_predefined (gs_strategy (g_spec g')) = set_predefined (gs_strategy (g_spec g))"

lemma same_wishes_sym: "same_wishes g g' \<Longrightarrow> same_wishes g' g"
  by (simp add: same_wishes_def)

context kube_api
begin

lemma annotate_gslb_annotations:
  assumes "om_annotations (g_meta g') = om_annotations (g_meta g)"
    and "gs_strategy (g_spec g') = gs_strategy (g_spec g)"
  shows "om_annotations (g_meta (annotate_gslb S g')) = om_annotations (g_meta (annotate_gslb S g))"
  using assms by (simp add: annotate_gslb_def set_annotation Let_def)

lemma gslbIngress_cong:
  assumes "gslbIngress S g = (Inr i, a)" and "gslbIngress S g' = (Inr i', a')"
    and "om_annotations (g_meta g') = om_annotations (g_meta g)" and "g_spec g' = g_spec g"
  shows "annotations (ing_meta i') = annotations (ing_meta i)" "ing_spec i' = ing_spec i"
  using gslbIngress_spec [OF assms(1)] gslbIngress_spec [OF assms(2)] annotate_gslb_annotations [OF assms(3)] assms(4)
  by (simp_all add: annotations_def)

lemma saveIngress_idle:
  assumes "saveIngress S ord w g i = (None, w')" and "v_ingress V w (g_namespace g, g_name g) = Some j"
    and "ingressEqual j i"
  shows "keep_ingress V w w'"
proof -
  obtain x w1 where get: "c_getIngress S w (g_namespace g, g_name g) = (x, w1)" by fastforce
  note rd = readsD [OF get_ingress get]
  have f: "x = Inr j"
    using assms(1,2) rd(2) rd(3) get by (cases x) (auto simp: saveIngress_def split: if_splits)
  with assms(1,3) get rd(1) show ?thesis by (simp add: saveIngress_def keep_defs)
qed

lemma Reconcile_same_ingress:
  assumes "Reconcile S ord zsort r dr w (meta_key (g_meta g)) = (Ok (res, None), dr1, w')"
    and "v_gslb V w (meta_key (g_meta g)) = Some g" and "om_deletionTimestamp (g_meta g) = None"
    and "g_namespace g \<noteq> co_k8gbNamespace (pr_config (re_provider r))" and "dr_ok dr" and "g_spec g \<noteq> zero_spec"
    and "gomap_ok (annotations (g_meta g))" and "range_ok ord"
    and "Reconcile S ord zsort r dr2 u (meta_key (g_meta g2)) = (Ok (res2, None), dr3, u')"
    and "v_gslb V u (meta_key (g_meta g2)) = Some g2" and "om_deletionTimestamp (g_meta g2) = None"
    and "dr_ok dr2" and "g_spec g2 \<noteq> zero_spec" and "meta_key (g_meta g2) = meta_key (g_meta g)" and "same_wishes g g2"
    and "v_ingress V u (meta_key (g_meta g)) = v_ingress V w' (meta_key (g_meta g))" and "v_refused V w' = v_refused V w"
  shows "keep_ingress V u u'"
proof -
  have ns2: "g_namespace g2 \<noteq> co_k8gbNamespace (pr_config (re_provider r))"
    using assms(4) g_key_meta [OF assms(14)] by simp
  from Reconcile_saves [OF assms(1-4)] assms(5,6) obtain ga i x x1 where
      i: "gslbIngress S ga = (Inr i, annotate_gslb S ga)" "g_namespace ga = g_namespace g" "g_name ga = g_name g"
      "saveIngress S ord x (annotate_gslb S ga) i = (None, x1)" "v_ingress V w' = v_ingress V x1"
      "om_annotations (g_meta ga) = om_annotations (g_meta g)"
      "g_spec ga = (g_spec g)\<lparr>gs_strategy := set_predefined (gs_strategy (g_spec g))\<rparr>"
      "v_refused V x = v_refused V w" "v_refused V w' = v_refused V x1" by metis
  from Reconcile_saves [OF assms(9,10,11) ns2] assms(12,13) obtain gb i2 y y1 where
      i2: "gslbIngress S gb = (Inr i2, annotate_gslb S gb)" "g_namespace gb = g_namespace g2" "g_name gb = g_name g2"
      "saveIngress S ord y (annotate_gslb S gb) i2 = (None, y1)" "keep_ingress V u y" "keep_ingress V y1 u'"
      "om_annotations (g_meta gb) = om_annotations (g_meta g2)"
      "g_spec gb = (g_spec g2)\<lparr>gs_strategy := set_predefined (gs_strategy (g_spec g2))\<rparr>"
    unfolding keep_ingress_def by metis
  have ga: "gomap_ok (annotations (g_meta ga))" using assms(7) i(6) by (simp add: annotations_def)
  note gi = gslbIngress_spec [OF i(1)]
  have key: "meta_key (ing_meta i) = (g_namespace (annotate_gslb S ga), g_name (annotate_gslb S ga))"
    "(g_namespace (annotate_gslb S ga), g_name (annotate_gslb S ga)) = meta_key (g_meta g)"
    "(g_namespace (annotate_gslb S gb), g_name (annotate_gslb S gb)) = meta_key (g_meta g)"
    using gi(2) gslbIngress_names [OF i(1)] gslbIngress_names [OF i2(1)] i(2,3) i2(2,3) assms(14) by (simp_all add: meta_key_g)
  have "om_annotations (g_meta gb) = om_annotations (g_meta ga)" "g_spec gb = g_spec ga"
    using i(6,7) i2(7,8) assms(15) by (simp_all add: same_wishes_def)
  note eq = gslbIngress_cong [OF i(1) i2(1) this]
  have an: "gomap_ok (annotations (ing_meta i))" using annotate_gslb_spec(3) [OF ga] gi(3) by simp
  from saveIngress_stored [OF i(4) assms(8) an key(1)] i(8,9) assms(17) obtain j where
      j: "v_ingress V x1 (meta_key (ing_meta i)) = Some j" "ingress_saved i j" by auto
  have "v_ingress V y (g_namespace (annotate_gslb S gb), g_name (annotate_gslb S gb)) = Some j"
    using j(1) key i(5) i2(5) assms(16) by (simp add: keep_ingress_def)
  from saveIngress_idle [OF i2(4) this ingress_saved_cong [OF eq j(2)]] i2(5,6) show ?thesis by (blast intro: keep_trans(2))
qed

text \<open>A live Gslb that has the finalizer keeps its metadata.\<close>

lemma Reconcile_idle_metas:
  assumes "Reconcile S ord zsort r dr w req = (x, dr', w')"
    and "metas V w req = Some m" and "om_deletionTimestamp m = None" and "gslbFinalizer \<in> set (om_finalizers m)"
  shows "metas V w' = metas V w"
proof -
  from assms(2) obtain g where g: "v_gslb V w req = Some g" "g_meta g = m" by (auto simp: metas_def)
  note same = meta_step_same [OF resolve_meta_step]
  from assms(1) g(1) show ?thesis
  proof (cases rule: Reconcile_found)
    case (read e)
    then show ?thesis by (simp add: metas_keep_all)
  next
    case (resolve w1 e e' g1)
    with same [OF resolve(2)] metas_keep_all [OF resolve(1)] assms(2,3) g(2) show ?thesis by simp
  next
    case (deleted w1 g1 w2)
    with g(2) assms(3) show ?thesis by simp
  next
    case (live w1 g1 w2)
    have "metas V w2 = metas V w" using same [OF live(2)] metas_keep_all [OF live(1)] assms(2,3) g(2) live(5) by simp
    moreover have "gslbFinalizer \<in> set (om_finalizers (g_meta g1))" using resolve_meta [OF live(2)] g(2) assms(4) by simp
    ultimately show ?thesis using live(4) reconcile_objects_metas by (auto simp: reconcile_live_def)
  qed
qed

end

section \<open>The addresses a second run publishes\<close>

text \<open>The other clusters answer the same at any time, and the addresses read for a Gslb depend only on its
  stored Ingress, which is the given one.\<close>

definition fixed_answers :: "'w sys \<Rightarrow> 'w view \<Rightarrow> range_order \<Rightarrow> Provider \<Rightarrow> namespaced_name \<Rightarrow> ingress option \<Rightarrow> bool" where
  "fixed_answers S V ord p key ing \<longleftrightarrow>
     (\<exists>ext. \<forall>w h. fst (pr_GetExternalTargets S ord p w h) = Ok (ext h)) \<and>
     (\<exists>local. \<forall>w w' g l. v_ingress V w key = ing \<and> meta_key (g_meta g) = key \<and>
        GslbIngressExposedIPs S (pr_assistant p) w g = (Inr l, w') \<longrightarrow> l = local)"

lemma finalTargets_predefined:
  "set_predefined st' = set_predefined st \<Longrightarrow> finalTargets st' = finalTargets st"
proof -
  assume "set_predefined st' = set_predefined st"
  then have "st_type (set_predefined st') = st_type (set_predefined st)"
    "st_primaryGeoTag (set_predefined st') = st_primaryGeoTag (set_predefined st)" by simp_all
  then show ?thesis by (simp add: finalTargets_def fun_eq_iff)
qed

text \<open>The conditions on a Gslb and on a run for it that succeeds.\<close>

definition live_run ::
    "'w sys \<Rightarrow> 'w view \<Rightarrow> range_order \<Rightarrow> zone_sort \<Rightarrow> GslbReconciler \<Rightarrow> DependencyResolver \<Rightarrow> 'w \<Rightarrow> Gslb \<Rightarrow> 'w \<Rightarrow> bool" where
  "live_run S V ord zsort r dr w g w' \<longleftrightarrow> dr_ok dr \<and> v_gslb V w (meta_key (g_meta g)) = Some g \<and>
     om_deletionTimestamp (g_meta g) = None \<and> gomap_ok (annotations (g_meta g)) \<and> g_spec g \<noteq> zero_spec \<and>
     g_namespace g \<noteq> co_k8gbNamespace (pr_config (re_provider r)) \<and>
     (\<exists>res dr'. Reconcile S ord zsort r dr w (meta_key (g_meta g)) = (Ok (res, None), dr', w'))"

definition gslb_health :: "'w view \<Rightarrow> 'w \<Rightarrow> Gslb \<Rightarrow> string \<Rightarrow> string option" where
  "gslb_health V w g = host_status V w (g_namespace g) (host_services (elems (is_rules (gs_ingress (g_spec g)))))"

context kube_api
begin

lemma live_run_published:
  assumes "range_ok ord" and "live_run S V ord zsort r dr w g w'"
    and "\<And>w h. fst (pr_GetExternalTargets S ord (re_provider r) w h) = Ok (ext h)"
    and "\<forall>x y ga l. v_ingress V x (meta_key (g_meta g)) = v_ingress V w' (meta_key (g_meta g)) \<and>
      meta_key (g_meta ga) = meta_key (g_meta g) \<and>
      GslbIngressExposedIPs S (pr_assistant (re_provider r)) x ga = (Inr l, y) \<longrightarrow> l = local"
    and "\<And>h. gslb_health V w g h \<noteq> None \<Longrightarrow> \<not> hasPrefix ''localtargets-'' h"
    and "gslb_health V w g host = Some health"
  shows "\<exists>d. v_dns V w' (meta_key (g_meta g)) = Some d \<and>
    published d host = (let t = finalTargets (gs_strategy (g_spec g)) (co_clusterGeoTag (re_config r)) health local (sort (ext host))
      in if t = [] then [] else [t]) \<and>
    published d (local_target host) = (if health = ''Healthy'' then [local] else [])"
proof -
  from assms(2) obtain res dr' where dr: "dr_ok dr" and g: "v_gslb V w (meta_key (g_meta g)) = Some g"
      "om_deletionTimestamp (g_meta g) = None" "gomap_ok (annotations (g_meta g))" "g_spec g \<noteq> zero_spec"
      "g_namespace g \<noteq> co_k8gbNamespace (pr_config (re_provider r))"
    and e: "Reconcile S ord zsort r dr w (meta_key (g_meta g)) = (Ok (res, None), dr', w')" by (auto simp: live_run_def)
  from Reconcile_published [OF assms(1) dr g e assms(3) assms(5,6) [unfolded gslb_health_def]]
  obtain d lt ga w1 w2 where d: "v_dns V w' (meta_key (g_meta g)) = Some d"
    and k: "keep_ingress V w1 w'" "meta_key (g_meta ga) = meta_key (g_meta g)"
      "GslbIngressExposedIPs S (pr_assistant (re_provider r)) w1 ga = (Inr lt, w2)"
    and p: "published d host = (let t = finalTargets (gs_strategy (g_spec g)) (co_clusterGeoTag (re_config r)) health lt (sort (ext host))
        in if t = [] then [] else [t])" "published d (local_target host) = (if health = ''Healthy'' then [lt] else [])" by blast
  have "lt = local" using assms(4) k by (auto simp: keep_ingress_def)
  with d p show ?thesis by blast
qed

lemma live_runs_publish:
  assumes "range_ok ord" and "live_run S V ord zsort r dr w g w'" and "live_run S V ord zsort r dr2 u g2 u'"
    and "meta_key (g_meta g2) = meta_key (g_meta g)" and "gs_ingress (g_spec g2) = gs_ingress (g_spec g)"
    and "set_predefined (gs_strategy (g_spec g2)) = set_predefined (gs_strategy (g_spec g))"
    and "keep_work V w u" and "v_ingress V u' (meta_key (g_meta g)) = v_ingress V w' (meta_key (g_meta g))"
    and "fixed_answers S V ord (re_provider r) (meta_key (g_meta g)) (v_ingress V w' (meta_key (g_meta g)))"
    and "\<And>h. gslb_health V w g h \<noteq> None \<Longrightarrow> \<not> hasPrefix ''localtargets-'' h" and "gslb_health V w g host \<noteq> None"
  shows "\<exists>d d2. v_dns V w' (meta_key (g_meta g)) = Some d \<and> v_dns V u' (meta_key (g_meta g)) = Some d2 \<and>
    published d2 host = published d host \<and> published d2 (local_target host) = published d (local_target host)"
proof -
  from assms(9) obtain ext local where e: "\<And>w h. fst (pr_GetExternalTargets S ord (re_provider r) w h) = Ok (ext h)"
    and l: "\<forall>x y ga l. v_ingress V x (meta_key (g_meta g)) = v_ingress V w' (meta_key (g_meta g)) \<and>
      meta_key (g_meta ga) = meta_key (g_meta g) \<and>
      GslbIngressExposedIPs S (pr_assistant (re_provider r)) x ga = (Inr l, y) \<longrightarrow> l = local"
    unfolding fixed_answers_def by blast
  have h: "gslb_health V u g2 = gslb_health V w g"
    using host_status_work [OF assms(7)] g_key_meta [OF assms(4)] assms(5) by (simp add: gslb_health_def)
  obtain health where s: "gslb_health V w g host = Some health" using assms(11) by auto
  have l2: "\<forall>x y ga l. v_ingress V x (meta_key (g_meta g2)) = v_ingress V u' (meta_key (g_meta g2)) \<and>
      meta_key (g_meta ga) = meta_key (g_meta g2) \<and>
      GslbIngressExposedIPs S (pr_assistant (re_provider r)) x ga = (Inr l, y) \<longrightarrow> l = local"
    unfolding assms(4,8) by (rule l)
  from live_run_published [OF assms(1,2) e l assms(10) s]
    live_run_published [OF assms(1,3) e l2 assms(10) [folded h] s [folded h]]
  show ?thesis by (auto simp: assms(4) finalTargets_predefined [OF assms(6)])
qed

end

section \<open>Properties\<close>

text \<open>
  C9. Steady state. After a successful run for a live Gslb, let a further one succeed while the Gslb still
  asks for the same: its metadata and rules are the same, and its strategy after defaults. The further
  run changes the metadata of no Gslb. If its Ingress is still the one that was stored and the
  first run was not refused the update of it, it changes no Ingress either, so it does not trigger
  another run through the watch on Ingresses. And if the Services and Endpoints are the same, and
  the answers of DNS are, it publishes the same addresses for every host as the first. (It does write the
  DNSEndpoint and the status again, as every run does; that is not the subject here.)
\<close>

theorem steady_state:
  assumes "kube_api S V" and "range_ok ord" and "live_run S V ord zsort r dr w g w'"
    and "live_run S V ord zsort r dr2 u g2 u'"
    and "meta_key (g_meta g2) = meta_key (g_meta g)" and "metas V u (meta_key (g_meta g)) = metas V w' (meta_key (g_meta g))"
    and "gs_ingress (g_spec g2) = gs_ingress (g_spec g)"
    and "set_predefined (gs_strategy (g_spec g2)) = set_predefined (gs_strategy (g_spec g))"
  shows "metas V u' = metas V u \<and>
    (v_ingress V u (meta_key (g_meta g)) = v_ingress V w' (meta_key (g_meta g)) \<and> v_refused V w' = v_refused V w \<longrightarrow>
      v_ingress V u' = v_ingress V u \<and> v_refused V u' = v_refused V u \<and>
      (keep_work V w u \<and>
       fixed_answers S V ord (re_provider r) (meta_key (g_meta g)) (v_ingress V w' (meta_key (g_meta g))) \<and>
       (\<forall>h. gslb_health V w g h \<noteq> None \<longrightarrow> \<not> hasPrefix ''localtargets-'' h) \<longrightarrow>
       (\<forall>host. gslb_health V w g host \<noteq> None \<longrightarrow>
         (\<exists>d d2. v_dns V w' (meta_key (g_meta g)) = Some d \<and> v_dns V u' (meta_key (g_meta g)) = Some d2 \<and>
           published d2 host = published d host \<and> published d2 (local_target host) = published d (local_target host)))))"
proof -
  from assms(3) obtain res dr1 where dr: "dr_ok dr" and g: "v_gslb V w (meta_key (g_meta g)) = Some g"
      "om_deletionTimestamp (g_meta g) = None" "gomap_ok (annotations (g_meta g))" "g_spec g \<noteq> zero_spec"
      "g_namespace g \<noteq> co_k8gbNamespace (pr_config (re_provider r))"
    and e: "Reconcile S ord zsort r dr w (meta_key (g_meta g)) = (Ok (res, None), dr1, w')" by (auto simp: live_run_def)
  from assms(4) obtain res2 dr3 where dr2: "dr_ok dr2" and g2: "v_gslb V u (meta_key (g_meta g2)) = Some g2"
      "om_deletionTimestamp (g_meta g2) = None" "g_spec g2 \<noteq> zero_spec"
    and e2: "Reconcile S ord zsort r dr2 u (meta_key (g_meta g2)) = (Ok (res2, None), dr3, u')" by (auto simp: live_run_def)
  have m: "metas V u (meta_key (g_meta g2)) = Some (g_meta g2)" using g2(1) by (rule metas_Some)
  then have "g_meta g2 = g_meta g \<or> g_meta g2 = (g_meta g)\<lparr>om_finalizers := om_finalizers (g_meta g) @ [gslbFinalizer]\<rparr>"
    using kube_api.Reconcile_metas [OF assms(1) e] metas_Some [OF g(1)] g(2) assms(5,6) by auto
  then have same: "same_wishes g g2" using assms(7,8) by (auto simp: same_wishes_def)
  have "gslbFinalizer \<in> set (om_finalizers (g_meta g2))"
    using kube_api.Reconcile_live [OF assms(1) e g(1,2) assms(2) g(3) dr g(4,5)] m assms(5,6) by (auto simp: metas_def)
  note idle = kube_api.Reconcile_idle_metas [OF assms(1) e2 m g2(2) this]
  have "keep_ingress V u u'"
    if "v_ingress V u (meta_key (g_meta g)) = v_ingress V w' (meta_key (g_meta g))" "v_refused V w' = v_refused V w"
    by (rule kube_api.Reconcile_same_ingress [OF assms(1) e g(1,2,5) dr g(4,3) assms(2) e2 g2(1,2) dr2 g2(3) assms(5) same that])
  with idle kube_api.live_runs_publish [OF assms(1-5,7,8)] show ?thesis by (simp add: keep_ingress_def)
qed

lemma quiet_fixed:
  assumes "ing_lb j = ing_lb sample_ingress"
  shows "fixed_answers quiet_sys mem_view ord (re_provider r) (''ns'', ''g'') (Some j)"
proof -
  have "l = [''10.0.0.9'']" if "v_ingress mem_view w (''ns'', ''g'') = Some j" "meta_key (g_meta g) = (''ns'', ''g'')"
      "GslbIngressExposedIPs quiet_sys a w g = (Inr l, w')" for w w' a g l
    using that assms by (auto simp: GslbIngressExposedIPs_def quiet_get sample_ingress_def meta_key_g split: if_splits)
  then have "\<exists>local. \<forall>w w' g l. v_ingress mem_view w (''ns'', ''g'') = Some j \<and> meta_key (g_meta g) = (''ns'', ''g'') \<and>
      GslbIngressExposedIPs quiet_sys (pr_assistant (re_provider r)) w g = (Inr l, w') \<longrightarrow> l = local" by blast
  moreover have "\<exists>ext. \<forall>w h. fst (pr_GetExternalTargets quiet_sys ord (re_provider r) w h) = Ok (ext h)"
    by (rule exI [of _ "\<lambda>h. []"]) (simp add: quiet_targets)
  ultimately show ?thesis by (simp add: fixed_answers_def)
qed

text \<open>A run, and another one after somebody has set the Gslb back to what it was.\<close>

theorem steady_state_witness:
  "\<exists>w u d d2. live_run quiet_sys mem_view (\<lambda>m. m) (sort_key nsv_address) sample_reconciler NewDependencyResolver
       (store_of kept_gslb) kept_gslb w \<and>
     live_run quiet_sys mem_view (\<lambda>m. m) (sort_key nsv_address) sample_reconciler NewDependencyResolver
       (w\<lparr>s_gslb := [((''ns'', ''g''), kept_gslb)]\<rparr>) kept_gslb u \<and>
     v_ingress mem_view u = v_ingress mem_view w \<and> v_dns mem_view w (''ns'', ''g'') = Some d \<and>
     v_dns mem_view u (''ns'', ''g'') = Some d2 \<and> published d2 ''a.example.com'' = published d ''a.example.com''"
proof -
  have w0: "live_world (store_of kept_gslb)" "map_of (s_gslb (store_of kept_gslb)) (''ns'', ''g'') = Some kept_gslb"
    by (auto simp: live_world_def store_of_def web_store_def sample_store_def empty_store_def sample_ingress_def meta_key_def)
  from kept_reconciled_ok [OF w0, of "sort_key nsv_address"] obtain res dr w where
      e: "Reconcile quiet_sys (\<lambda>m. m) (sort_key nsv_address) sample_reconciler NewDependencyResolver (store_of kept_gslb)
        (meta_key (g_meta kept_gslb)) = (Ok (res, None), dr, w)" "live_world w" by blast
  let ?u = "w\<lparr>s_gslb := [((''ns'', ''g''), kept_gslb)]\<rparr>"
  have u: "live_world ?u" "map_of (s_gslb ?u) (''ns'', ''g'') = Some kept_gslb" using e(2) by (simp_all add: live_world_def)
  from kept_reconciled_ok [OF u, of "sort_key nsv_address"] obtain res' dr' u' where
      e2: "Reconcile quiet_sys (\<lambda>m. m) (sort_key nsv_address) sample_reconciler NewDependencyResolver ?u
        (meta_key (g_meta kept_gslb)) = (Ok (res', None), dr', u')" by blast
  have v: "v_gslb mem_view (store_of kept_gslb) (meta_key (g_meta kept_gslb)) = Some kept_gslb"
    "v_gslb mem_view ?u (meta_key (g_meta kept_gslb)) = Some kept_gslb"
    "v_ingress mem_view ?u = v_ingress mem_view w"
    using w0(2) by (simp_all add: fun_eq_iff)
  note m0 = metas_Some [OF v(1)]
  have m: "metas mem_view ?u (meta_key (g_meta kept_gslb)) = metas mem_view w (meta_key (g_meta kept_gslb))"
    using kube_api.Reconcile_idle_metas [OF quiet_api e(1) m0] metas_Some [OF v(2)] m0 by simp
  have r: "live_run quiet_sys mem_view (\<lambda>m. m) (sort_key nsv_address) sample_reconciler NewDependencyResolver (store_of kept_gslb) kept_gslb w"
    "live_run quiet_sys mem_view (\<lambda>m. m) (sort_key nsv_address) sample_reconciler NewDependencyResolver ?u kept_gslb u'"
    using e(1) e2 v(1,2) kept_hyps by (auto simp: live_run_def fresh_dr_ok gomap_ok_def)
  from e(2) obtain j where j: "map_of (s_ingress w) (''ns'', ''g'') = Some j" "ing_lb j = ing_lb sample_ingress"
    by (auto simp: live_world_def)
  have c: "v_refused mem_view w = v_refused mem_view (store_of kept_gslb)" "keep_work mem_view (store_of kept_gslb) ?u"
    using e(2) w0(1) by (simp_all add: live_world_def keep_work_def)
  have h: "gslb_health mem_view (store_of kept_gslb) kept_gslb = [''a.example.com'' \<mapsto> ''Healthy'']"
    by (simp add: gslb_health_def live_gslb_def web_gslb_def sample_rule_def store_of_def web_store_def
        sample_store_def host_services_def host_status_def path_status_def mem_eval)
  from steady_state [OF quiet_api range_ok_id r refl m refl refl] v(3) c quiet_fixed [OF j(2)] j(1) h
  have "v_ingress mem_view u' = v_ingress mem_view w \<and> (\<exists>d d2. v_dns mem_view w (''ns'', ''g'') = Some d \<and>
      v_dns mem_view u' (''ns'', ''g'') = Some d2 \<and> published d2 ''a.example.com'' = published d ''a.example.com'')"
    by (auto split: if_splits)
  with r show ?thesis by blast
qed

end
