(* ===== verification/Two_Clusters.thy ===== *)
theory Two_Clusters
  imports Live
begin

text \<open>
  Two clusters that balance the same host. Each runs its own controller on its own platform; all they
  share is DNS: a cluster learns the addresses of the other by asking the other's name server for
  the local targets of the host (\<^verbatim>\<open>GetExternalTargets\<close>), which the other publishes in its DNSEndpoint
  (\<^verbatim>\<open>gslbDNSEndpoint\<close>). The lemmas put the two ends together for whole runs of \<^verbatim>\<open>Reconcile\<close>.
\<close>

section \<open>A cluster\<close>

record 'w cluster =
  cl_sys :: "'w sys"
  cl_view :: "'w view"
  cl_order :: range_order
  cl_answers :: "string \<Rightarrow> string \<Rightarrow> dns_msg"
  cl_reconciler :: GslbReconciler
  cl_gslb :: Gslb
  cl_world :: 'w

text \<open>The health of a host, from the Services and Endpoints of the cluster.\<close>

definition cl_health :: "'w cluster \<Rightarrow> string \<Rightarrow> string option" where
  "cl_health c = host_status (cl_view c) (cl_world c) (g_namespace (cl_gslb c))
     (host_services (elems (is_rules (gs_ingress (g_spec (cl_gslb c))))))"

text \<open>The platform keeps its promises, DNS answers every query for addresses, the Gslb is stored and live
  in a namespace other than that of k8gb, and no host is itself called like a list of local targets.\<close>

definition cluster_ok :: "'w cluster \<Rightarrow> bool" where
  "cluster_ok c \<longleftrightarrow> kube_api (cl_sys c) (cl_view c) \<and> range_ok (cl_order c) \<and>
     (\<forall>w q s. fst (n_exchange (cl_sys c) w q TypeA s) = Inr (cl_answers c q s) \<and> list_all is_A (cl_answers c q s)) \<and>
     v_gslb (cl_view c) (cl_world c) (meta_key (g_meta (cl_gslb c))) = Some (cl_gslb c) \<and>
     om_deletionTimestamp (g_meta (cl_gslb c)) = None \<and> gomap_ok (annotations (g_meta (cl_gslb c))) \<and>
     g_spec (cl_gslb c) \<noteq> zero_spec \<and>
     g_namespace (cl_gslb c) \<noteq> co_k8gbNamespace (pr_config (re_provider (cl_reconciler c))) \<and>
     (\<forall>h. cl_health c h \<noteq> None \<longrightarrow> \<not> hasPrefix ''localtargets-'' h)"

text \<open>The DNSEndpoint that is stored after a successful run, and the addresses it gives a name.\<close>

definition publishes :: "'w cluster \<Rightarrow> dns_endpoint \<Rightarrow> bool" where
  "publishes c d \<longleftrightarrow> (\<exists>zsort dr res dr' w'. dr_ok dr \<and>
     Reconcile (cl_sys c) (cl_order c) zsort (cl_reconciler c) dr (cl_world c) (meta_key (g_meta (cl_gslb c))) =
       (Ok (res, None), dr', w') \<and>
     v_dns (cl_view c) w' (meta_key (g_meta (cl_gslb c))) = Some d)"

definition resolves_to :: "dns_endpoint \<Rightarrow> string \<Rightarrow> string list" where
  "resolves_to d name = concat (published d name)"

text \<open>What a cluster with one external cluster is told about the local targets of a host.\<close>

definition peer_answer :: "'w cluster \<Rightarrow> string \<Rightarrow> string \<Rightarrow> string list" where
  "peer_answer c tag host =
     (let config = pr_config (re_provider (cl_reconciler c))
      in cluster_answer (cl_answers c) (pr_assistant (re_provider (cl_reconciler c))) host
           (1, getNsName tag (co_dnsZone config) (co_edgeDNSZone config) (co_edgeDNSServer config)))"

text \<open>The cluster's only external cluster is the one that publishes \<open>d\<close>, and DNS delivers what it
  publishes.\<close>

definition linked :: "'w cluster \<Rightarrow> dns_endpoint \<Rightarrow> string \<Rightarrow> bool" where
  "linked c d host \<longleftrightarrow> (\<exists>tag. co_extClustersGeoTags (pr_config (re_provider (cl_reconciler c))) = [tag] \<and>
     peer_answer c tag host = resolves_to d (local_target host))"

section \<open>What a cluster is told\<close>

lemma external_targets_fst:
  assumes net: "\<And>w q s. fst (n_exchange S w q TypeA s) = Inr (ans q s)" and A: "\<And>q s. list_all is_A (ans q s)"
  shows "fst (external_targets S r cs host acc w) =
    Ok (acc @ concat (map (cluster_answer ans r host) (enumerate (Suc 0) cs)))"
proof (induction cs arbitrary: host acc w)
  case (Cons c cs)
  obtain w1 where q1: "dnsQuery S w c (as_edgeDNSServer r) (as_edgeDNSServerPort r) =
      (Inr (ans (c @ ''.'') (server_addr (as_edgeDNSServer r) (as_edgeDNSServerPort r))), w1)"
    using net [of w] unfolding dnsQuery_def sprintf_dot by (metis prod.collapse)
  let ?s = "case a_addresses (ans (c @ ''.'') (server_addr (as_edgeDNSServer r) (as_edgeDNSServerPort r))) of [] \<Rightarrow> c | a # _ \<Rightarrow> a"
  obtain w2 where q2: "dnsQuery S w1 (local_target host) ?s (as_edgeDNSServerPort r) =
      (Inr (ans (local_target host @ ''.'') (server_addr ?s (as_edgeDNSServerPort r))), w2)"
    using net [of w1] unfolding dnsQuery_def sprintf_dot by (metis prod.collapse)
  have "fst (external_targets S r (c # cs) host acc w) =
      fst (external_targets S r cs (local_target host)
        (acc @ a_addresses (ans (local_target host @ ''.'') (server_addr ?s (as_edgeDNSServerPort r)))) w2)"
    by (simp add: q1 q2 getARecords_A [OF A] sprintf_targets Let_def del: sprintf.simps)
  then show ?case
    unfolding Cons.IH cluster_answers_shift by (simp add: cluster_answer_def Let_def)
qed simp

lemma single_order: "range_ok ord \<Longrightarrow> ord [x] = [x]"
  using range_okD [of ord "[x]"] by simp

lemma peer_targets:
  assumes "cluster_ok c" and "co_extClustersGeoTags (pr_config (re_provider (cl_reconciler c))) = [tag]"
  shows "fst (pr_GetExternalTargets (cl_sys c) (cl_order c) (re_provider (cl_reconciler c)) w host) = Ok (peer_answer c tag host)"
proof -
  let ?p = "re_provider (cl_reconciler c)"
  have "GetExternalClusterNSNames (pr_config ?p) =
      [(tag, getNsName tag (co_dnsZone (pr_config ?p)) (co_edgeDNSZone (pr_config ?p)) (co_edgeDNSServer (pr_config ?p)))]"
    by (simp add: GetExternalClusterNSNames_def assms(2) m_set_def)
  moreover have "range_ok (cl_order c)" "\<And>w q s. fst (n_exchange (cl_sys c) w q TypeA s) = Inr (cl_answers c q s)"
    "\<And>q s. list_all is_A (cl_answers c q s)" using assms(1) by (auto simp: cluster_ok_def)
  ultimately show ?thesis
    unfolding pr_GetExternalTargets_eq GetExternalTargets_def peer_answer_def
    by (subst external_targets_fst [where ans = "cl_answers c"]) (simp_all add: single_order Let_def)
qed

text \<open>What a host resolves to in one of the two clusters, given what the other publishes.\<close>

lemma cluster_targets:
  assumes "cluster_ok c" and "publishes c d" and "linked c d' host" and "cl_health c host = Some health"
  shows "\<exists>lt. resolves_to d (local_target host) = (if health = ''Healthy'' then lt else []) \<and>
    resolves_to d host = finalTargets (gs_strategy (g_spec (cl_gslb c))) (co_clusterGeoTag (re_config (cl_reconciler c)))
      health lt (sort (resolves_to d' (local_target host)))"
proof -
  let ?key = "meta_key (g_meta (cl_gslb c))"
  from assms(3) obtain tag where tag: "co_extClustersGeoTags (pr_config (re_provider (cl_reconciler c))) = [tag]"
    and ext: "peer_answer c tag host = resolves_to d' (local_target host)" by (auto simp: linked_def)
  from assms(2) obtain zsort dr res dr' w' where dr: "dr_ok dr" and v: "v_dns (cl_view c) w' ?key = Some d"
    and e: "Reconcile (cl_sys c) (cl_order c) zsort (cl_reconciler c) dr (cl_world c) ?key = (Ok (res, None), dr', w')"
    by (auto simp: publishes_def)
  from assms(1) have api: "kube_api (cl_sys c) (cl_view c)" and ord: "range_ok (cl_order c)"
    and g: "v_gslb (cl_view c) (cl_world c) ?key = Some (cl_gslb c)" "om_deletionTimestamp (g_meta (cl_gslb c)) = None"
      "gomap_ok (annotations (g_meta (cl_gslb c)))" "g_spec (cl_gslb c) \<noteq> zero_spec"
      "g_namespace (cl_gslb c) \<noteq> co_k8gbNamespace (pr_config (re_provider (cl_reconciler c)))"
    and pre: "\<And>h. cl_health c h \<noteq> None \<Longrightarrow> \<not> hasPrefix ''localtargets-'' h" by (auto simp: cluster_ok_def)
  from kube_api.Reconcile_published [OF api ord dr g e peer_targets [OF assms(1) tag] pre [unfolded cl_health_def]
      assms(4) [unfolded cl_health_def]] v ext
  show ?thesis by (auto simp: resolves_to_def Let_def)
qed

section \<open>Properties\<close>

text \<open>
  C8. Two clusters agree. Clusters A and B balance a host under the same strategy, each is the only
  external cluster of the other, DNS delivers what they publish, and each has completed a run of
  \<^verbatim>\<open>Reconcile\<close>. Then clients get the same addresses from both, whatever the health of the service
  in either: under round robin and geoip
  the local targets of every healthy cluster; under failover with A as the primary those of A while
  it is healthy and has addresses, and otherwise those of B if B is healthy. (A healthy primary
  without an address publishes nothing, while B falls back to its own addresses.)
\<close>

theorem clusters_agree:
  assumes "cluster_ok A" and "cluster_ok B" and "publishes A dA" and "publishes B dB"
    and "linked A dB host" and "linked B dA host"
    and "cl_health A host = Some healthA" and "cl_health B host = Some healthB"
    and "gs_strategy (g_spec (cl_gslb A)) = st" and "gs_strategy (g_spec (cl_gslb B)) = st"
  shows "(st_type st \<in> {''roundRobin'', ''geoip''} \<longrightarrow>
      mset (resolves_to dA host) = mset (resolves_to dA (local_target host)) + mset (resolves_to dB (local_target host)) \<and>
      mset (resolves_to dB host) = mset (resolves_to dA host)) \<and>
    (st_type st = ''failover'' \<and> st_primaryGeoTag st = co_clusterGeoTag (re_config (cl_reconciler A)) \<and>
       st_primaryGeoTag st \<noteq> co_clusterGeoTag (re_config (cl_reconciler B)) \<longrightarrow>
      mset (resolves_to dB host) = mset (if resolves_to dA (local_target host) \<noteq> [] then resolves_to dA (local_target host)
        else resolves_to dB (local_target host)) \<and>
      ((healthA = ''Healthy'' \<longrightarrow> resolves_to dA (local_target host) \<noteq> []) \<longrightarrow>
        mset (resolves_to dA host) = mset (resolves_to dB host))) \<and>
    (healthA \<noteq> ''Healthy'' \<longrightarrow> resolves_to dA (local_target host) = []) \<and>
    (healthB \<noteq> ''Healthy'' \<longrightarrow> resolves_to dB (local_target host) = [])"
proof -
  note A = cluster_targets [OF assms(1,3,5,7)] and B = cluster_targets [OF assms(2,4,6,8)]
  have d: "roundRobinStrategy = ''roundRobin''" "geoStrategy = ''geoip''" "failoverStrategy = ''failover''"
    by (simp_all add: roundRobinStrategy_def geoStrategy_def failoverStrategy_def)
  from A B show ?thesis
    unfolding assms(9,10) finalTargets_def d Let_def
    by (elim exE conjE) (simp split: if_splits)
qed

text \<open>A failover pair: the primary \<^verbatim>\<open>us\<close> has lost its service, the secondary \<^verbatim>\<open>eu\<close> is healthy.\<close>

definition pair_answers :: "string list \<Rightarrow> string \<Rightarrow> string \<Rightarrow> dns_msg" where
  "pair_answers peer q s = (if q = ''localtargets-a.example.com.'' then map RR_A peer else [])"

definition pair_cluster :: "string \<Rightarrow> string \<Rightarrow> string \<Rightarrow> string \<Rightarrow> string list \<Rightarrow> store cluster" where
  "pair_cluster tag peer svc ip answers =
     (let c = sample_config\<lparr>co_clusterGeoTag := tag, co_extClustersGeoTags := [peer]\<rparr>;
          g = (web_gslb [sample_rule ''a.example.com'' [svc]])\<lparr>g_spec :=
            (g_spec (web_gslb [sample_rule ''a.example.com'' [svc]]))\<lparr>gs_strategy :=
              \<lparr>st_type = ''failover'', st_primaryGeoTag = ''us'', st_dnsTtlSeconds = 0, st_splitBrainThresholdSeconds = 300\<rparr>\<rparr>\<rparr>
      in \<lparr>cl_sys = mem_sys (\<lambda>_. None) (\<lambda>q t s. Inr (pair_answers answers q s)) (\<lambda>s q. Inr []),
          cl_view = mem_view, cl_order = rev, cl_answers = pair_answers answers,
          cl_reconciler = \<lparr>re_config = c, re_metrics = NewPrometheusMetrics c,
            re_provider = EmptyProvider (NewEmptyDNS c sample_assistant)\<rparr>,
          cl_gslb = g,
          cl_world = web_store\<lparr>s_gslb := [((''ns'', ''g''), g)], s_ingress := [((''ns'', ''g''), sample_ingress\<lparr>ing_lb := [\<lparr>lb_ip = ip, lb_hostname = []\<rparr>]\<rparr>)]\<rparr>\<rparr>)"

definition pair_endpoint :: "store cluster \<Rightarrow> dns_endpoint option" where
  "pair_endpoint c =
     (case Reconcile (cl_sys c) (cl_order c) (sort_key nsv_address) (cl_reconciler c) NewDependencyResolver (cl_world c)
             (meta_key (g_meta (cl_gslb c))) of
        (Ok (res, None), dr, w) \<Rightarrow> map_of (s_dns w) (meta_key (g_meta (cl_gslb c)))
      | _ \<Rightarrow> None)"

lemma pair_publishes: "cl_view c = mem_view \<Longrightarrow> pair_endpoint c = Some d \<Longrightarrow> publishes c d"
  unfolding publishes_def pair_endpoint_def
  by (intro exI [of _ "sort_key nsv_address"] exI [of _ NewDependencyResolver])
    (auto simp: fresh_dr_ok split: prod.splits go.splits option.splits)

lemma pair_endpoints:
  "case pair_endpoint (pair_cluster ''us'' ''eu'' ''down'' ''10.0.0.9'' [''10.0.0.8'']) of
     Some d \<Rightarrow> published d (local_target ''a.example.com'') = [] | _ \<Rightarrow> False"
  "case pair_endpoint (pair_cluster ''eu'' ''us'' ''up'' ''10.0.0.8'' []) of
     Some d \<Rightarrow> published d (local_target ''a.example.com'') = [[''10.0.0.8'']] | _ \<Rightarrow> False"
  by code_simp+

lemma pair_facts:
  "peer_answer (pair_cluster ''us'' ''eu'' ''down'' ''10.0.0.9'' [''10.0.0.8'']) ''eu'' ''a.example.com'' = [''10.0.0.8'']"
  "peer_answer (pair_cluster ''eu'' ''us'' ''up'' ''10.0.0.8'' []) ''us'' ''a.example.com'' = []"
  "cl_health (pair_cluster ''us'' ''eu'' ''down'' ''10.0.0.9'' [''10.0.0.8'']) ''a.example.com'' = Some ''Unhealthy''"
  "cl_health (pair_cluster ''eu'' ''us'' ''up'' ''10.0.0.8'' []) ''a.example.com'' = Some ''Healthy''"
  by code_simp+

lemma pair_ok: "cluster_ok (pair_cluster tag peer svc ip answers)"
proof -
  have "kube_api (mem_sys (\<lambda>_. None) (\<lambda>q t s. Inr (pair_answers answers q s)) (\<lambda>s q. Inr [])) mem_view"
    by (rule mem.kube_api_axioms)
  moreover have "list_all is_A (pair_answers answers q s)" for q s by (auto simp: pair_answers_def list_all_iff)
  moreover have "cl_health (pair_cluster tag peer svc ip answers) h \<noteq> None \<Longrightarrow> h = ''a.example.com''" for h
    by (simp add: cl_health_def pair_cluster_def host_status_def host_services_def web_gslb_def sample_rule_def Let_def
        split: if_splits)
  then have "cl_health (pair_cluster tag peer svc ip answers) h \<noteq> None \<Longrightarrow> \<not> hasPrefix ''localtargets-'' h" for h by fastforce
  ultimately show ?thesis
    by (simp add: cluster_ok_def pair_cluster_def range_ok_def Let_def web_gslb_def sample_gslb_def meta_key_def
        annotations_def empty_meta_def zero_spec_def g_namespace_def NewEmptyDNS_def sample_config_def)
qed

theorem clusters_agree_witness:
  "\<exists>dA dB. publishes (pair_cluster ''us'' ''eu'' ''down'' ''10.0.0.9'' [''10.0.0.8'']) dA \<and>
     publishes (pair_cluster ''eu'' ''us'' ''up'' ''10.0.0.8'' []) dB \<and>
     mset (resolves_to dA ''a.example.com'') = {#''10.0.0.8''#} \<and> mset (resolves_to dB ''a.example.com'') = {#''10.0.0.8''#}"
proof -
  let ?A = "pair_cluster ''us'' ''eu'' ''down'' ''10.0.0.9'' [''10.0.0.8'']" and ?B = "pair_cluster ''eu'' ''us'' ''up'' ''10.0.0.8'' []"
  have v: "cl_view ?A = mem_view" "cl_view ?B = mem_view" by (simp_all add: pair_cluster_def Let_def)
  from pair_endpoints obtain dA dB where d: "publishes ?A dA" "published dA (local_target ''a.example.com'') = []"
      "publishes ?B dB" "published dB (local_target ''a.example.com'') = [[''10.0.0.8'']]"
    by (auto split: option.splits intro: pair_publishes [OF v(1)] pair_publishes [OF v(2)])
  have tags: "co_extClustersGeoTags (pr_config (re_provider (cl_reconciler ?A))) = [''eu'']"
    "co_extClustersGeoTags (pr_config (re_provider (cl_reconciler ?B))) = [''us'']"
    by (simp_all add: pair_cluster_def NewEmptyDNS_def Let_def)
  have l: "linked ?A dB ''a.example.com''" "linked ?B dA ''a.example.com''"
    using d(2,4) pair_facts(1,2) tags by (simp_all add: linked_def resolves_to_def)
  let ?st = "\<lparr>st_type = ''failover'', st_primaryGeoTag = ''us'', st_dnsTtlSeconds = 0, st_splitBrainThresholdSeconds = 300\<rparr>"
  have st: "gs_strategy (g_spec (cl_gslb ?A)) = ?st" "gs_strategy (g_spec (cl_gslb ?B)) = ?st"
    "co_clusterGeoTag (re_config (cl_reconciler ?A)) = ''us''" "co_clusterGeoTag (re_config (cl_reconciler ?B)) = ''eu''"
    by (simp_all add: pair_cluster_def web_gslb_def Let_def)
  have "mset (resolves_to dB ''a.example.com'') = {#''10.0.0.8''#}"
    "mset (resolves_to dA ''a.example.com'') = mset (resolves_to dB ''a.example.com'')"
    using clusters_agree [OF pair_ok pair_ok d(1,3) l pair_facts(3,4) st(1,2)] d(2,4) st(3,4) by (simp_all add: resolves_to_def)
  with d(1,3) show ?thesis by auto
qed

end
