(* ===== verification/Logging.thy ===== *)
theory Logging
  imports Dep_Config
begin

text \<open>
  \<^verbatim>\<open>controllers/logging\<close>: the logger made from the configuration (\<^verbatim>\<open>log.go\<close>), the singleton that
  holds it (\<^verbatim>\<open>singleton.go\<close>) and the adapter that controller-runtime logs through (\<^verbatim>\<open>logr.go\<close>).

  The state is what these files share with zerolog: whether \<^verbatim>\<open>Init\<close> ran, the package variable
  \<^verbatim>\<open>log\<close>, the global level, and the calls made to loggers in order. A logger is the writer it was
  made with; the zero value of \<^verbatim>\<open>zerolog.Logger\<close> has none. The logger of the adapter is not
  reassigned once the adapter exists, so it is held by value.
\<close>

section \<open>The logger\<close>

datatype zlogger = ZeroLogger | JSONLogger | ConsoleLogger bool

datatype event = InfoEvent | DebugEvent | ErrEvent "goerr option"

record log_call =
  lc_logger :: zlogger
  lc_event :: event
  lc_fields :: "(string \<times> string) list"
  lc_msg :: string

record log_state =
  ls_once :: bool
  ls_log :: zlogger
  ls_stackMarshaler :: bool
  ls_globalLevel :: level
  ls_calls :: "log_call list"

definition fresh_log :: log_state where
  "fresh_log = \<lparr>ls_once = False, ls_log = ZeroLogger, ls_stackMarshaler = False, ls_globalLevel = DebugLevel, ls_calls = []\<rparr>"

definition send :: "zlogger \<Rightarrow> event \<Rightarrow> (string \<times> string) list \<Rightarrow> string \<Rightarrow> log_state \<Rightarrow> log_state" where
  "send l e fs msg s = s\<lparr>ls_calls := ls_calls s @ [\<lparr>lc_logger = l, lc_event = e, lc_fields = fs, lc_msg = msg\<rparr>]\<rparr>"

record loggerFactory =
  lf_log :: Log

text \<open>The zero value of \<^verbatim>\<open>depresolver.Log\<close>: the level with number 0 is debug, and no format has the
  number 0.\<close>

definition zero_log :: Log where
  "zero_log = \<lparr>lo_level = DebugLevel, lo_format = 0, lo_noColor = False\<rparr>"

definition newLogger :: "Config option \<Rightarrow> loggerFactory" where
  "newLogger config = (case config of None \<Rightarrow> \<lparr>lf_log = zero_log\<rparr> | Some c \<Rightarrow> \<lparr>lf_log = co_log c\<rparr>)"

definition lf_get :: "zerolog \<Rightarrow> loggerFactory \<Rightarrow> log_state \<Rightarrow> zlogger \<times> log_state" where
  "lf_get z l s =
     (let lg = lf_log l;
          lg = (if lo_format lg = NoFormat then lg\<lparr>lo_format := SimpleFormat\<rparr> else lg);
          lg = (if lo_level lg = NoLevel then lg\<lparr>lo_level := InfoLevel\<rparr> else lg);
          s = s\<lparr>ls_stackMarshaler := True, ls_globalLevel := lo_level lg\<rparr>;
          logger = (if lo_format lg = JSONFormat then JSONLogger
                    else if lo_format lg = SimpleFormat then ConsoleLogger (lo_noColor lg)
                    else ZeroLogger);
          s = send logger InfoEvent [] ''Logger configured'' s;
          s = send logger DebugEvent [(''Format'', LogFormat_String (lo_format lg)), (''Level'', level_String z (lo_level lg))]
                ''Logger settings'' s
      in (logger, s))"

definition Logger :: "log_state \<Rightarrow> zlogger" where
  "Logger s = ls_log s"

definition Init :: "zerolog \<Rightarrow> Config option \<Rightarrow> log_state \<Rightarrow> log_state" where
  "Init z c s =
     (if ls_once s then s
      else let (l, s) = lf_get z (newLogger c) s in s\<lparr>ls_log := l, ls_once := True\<rparr>)"

section \<open>The adapter\<close>

text \<open>An argument of a log call: a value with its \<^verbatim>\<open>%s\<close> form, or a slice of arguments.\<close>

datatype iface = Printed string | ISlice "iface list"

fun join_space :: "string list \<Rightarrow> string" where
  "join_space [] = []"
| "join_space [x] = x"
| "join_space (x # y # ys) = x @ '' '' @ join_space (y # ys)"

fun iface_text :: "iface \<Rightarrow> string" where
  "iface_text (Printed s) = s"
| "iface_text (ISlice xs) = ''['' @ join_space (map iface_text xs) @ '']''"

record LogrAdapter =
  la_z :: zlogger
  la_keysAndValues :: "string gomap"
  la_name :: string

definition NewLogrAdapter :: "zlogger \<Rightarrow> LogrAdapter" where
  "NewLogrAdapter l = \<lparr>la_z = l, la_keysAndValues = [], la_name = []\<rparr>"

definition Enabled :: "LogrAdapter \<Rightarrow> bool" where
  "Enabled a = True"

text \<open>The loop over the pairs; a last argument without partner is not visited.\<close>

fun with_values :: "iface list \<Rightarrow> string gomap \<Rightarrow> string gomap" where
  "with_values (k # v # kvs) m = with_values kvs (m_set (iface_text k) (iface_text v) m)"
| "with_values _ m = m"

definition WithValues :: "LogrAdapter \<Rightarrow> iface list \<Rightarrow> LogrAdapter" where
  "WithValues a kvs = a\<lparr>la_keysAndValues := with_values kvs (la_keysAndValues a)\<rparr>"

definition WithName :: "LogrAdapter \<Rightarrow> string \<Rightarrow> LogrAdapter" where
  "WithName a name = a\<lparr>la_name := name\<rparr>"

definition V_level :: "LogrAdapter \<Rightarrow> int \<Rightarrow> log_state \<Rightarrow> LogrAdapter \<times> log_state" where
  "V_level a level s =
     (let s = (if level \<le> 0 then s\<lparr>ls_globalLevel := DebugLevel\<rparr> else s);
          s = (if level = 1 then s\<lparr>ls_globalLevel := InfoLevel\<rparr> else s);
          s = (if level \<ge> 2 then s\<lparr>ls_globalLevel := WarnLevel\<rparr> else s)
      in (a, s))"

text \<open>\<^verbatim>\<open>json.Marshal\<close> of a \<^verbatim>\<open>map[string]string\<close>: the keys in order, strings quoted, with the escapes of
  \<^verbatim>\<open>encoding/json\<close> for ASCII; other bytes are those of valid UTF-8 and are copied.\<close>

definition hex_digit :: "nat \<Rightarrow> char" where
  "hex_digit n = (if n < 10 then char_of (48 + n) else char_of (87 + n))"

definition json_char :: "char \<Rightarrow> string" where
  "json_char c =
     (let n = (of_char c :: nat)
      in if n = 34 \<or> n = 92 then [CHR 0x5C, c]
         else if n = 10 then CHR 0x5C # ''n'' else if n = 13 then CHR 0x5C # ''r'' else if n = 9 then CHR 0x5C # ''t''
         else if n < 32 \<or> n = 60 \<or> n = 62 \<or> n = 38 then CHR 0x5C # ''u00'' @ [hex_digit (n div 16), hex_digit (n mod 16)]
         else [c])"

definition json_string :: "string \<Rightarrow> string" where
  "json_string s = [CHR 0x22] @ concat (map json_char s) @ [CHR 0x22]"

definition valuesAsJSON :: "LogrAdapter \<Rightarrow> string" where
  "valuesAsJSON a =
     ''{'' @ join_with (CHR '','') (map (\<lambda>(k, v). json_string k @ '':'' @ json_string v)
        (sort_key fst (la_keysAndValues a))) @ ''}''"

text \<open>\<^verbatim>\<open>a.WithValues(keysAndValues)\<close> passes the slice as the only argument.\<close>

definition Info :: "LogrAdapter \<Rightarrow> string \<Rightarrow> iface list \<Rightarrow> log_state \<Rightarrow> LogrAdapter \<times> log_state" where
  "Info a msg keysAndValues s =
     (let a = WithValues a [ISlice keysAndValues];
          s = (if la_name a \<noteq> []
               then send (la_z a) InfoEvent [] (sprintf ''%s: %s %s'' [la_name a, msg, valuesAsJSON a]) s else s)
      in (a, send (la_z a) InfoEvent [] (sprintf ''%s %s'' [msg, valuesAsJSON a]) s))"

definition Error :: "LogrAdapter \<Rightarrow> goerr option \<Rightarrow> string \<Rightarrow> iface list \<Rightarrow> log_state \<Rightarrow> LogrAdapter \<times> log_state" where
  "Error a err msg keysAndValues s =
     (let a = WithValues a [ISlice keysAndValues]
      in if la_name a \<noteq> []
         then (a, send (la_z a) (ErrEvent err) [] (sprintf ''%s: %s %s'' [la_name a, msg, valuesAsJSON a]) s)
         else (a, send (la_z a) (ErrEvent err) [] (sprintf ''%s %s'' [msg, valuesAsJSON a]) s))"

section \<open>Lemmas\<close>

definition printed_pairs :: "(string \<times> string) list \<Rightarrow> iface list" where
  "printed_pairs ps = concat (map (\<lambda>(k, v). [Printed k, Printed v]) ps)"

lemma with_values_pairs: "map_of (with_values (printed_pairs ps) m) = map_of m ++ map_of (rev ps)"
proof (induction ps arbitrary: m)
  case (Cons p ps)
  obtain k v where "p = (k, v)" by (cases p)
  with Cons show ?case by (auto simp: printed_pairs_def map_add_def fun_eq_iff split: option.split)
qed (simp add: printed_pairs_def)

lemma send_fields [simp]:
  "ls_once (send l e fs m s) = ls_once s" "ls_log (send l e fs m s) = ls_log s"
  "ls_globalLevel (send l e fs m s) = ls_globalLevel s"
  "ls_calls (send l e fs m s) = ls_calls s @ [\<lparr>lc_logger = l, lc_event = e, lc_fields = fs, lc_msg = m\<rparr>]"
  by (simp_all add: send_def)

text \<open>The logger is made once. The first \<^verbatim>\<open>Init\<close> with a configuration whose log format was parsed gives
  the JSON logger for \<^verbatim>\<open>json\<close> and the console logger for everything else, at the configured level,
  or info when the level was not recognised; a later \<^verbatim>\<open>Init\<close> changes nothing.\<close>

lemma Init_logger:
  assumes "\<not> ls_once s" and "lo_format (co_log c) = parseLogOutputFormat fmt"
  shows "Logger (Init z (Some c) s) = (if fmt = ''json'' then JSONLogger else ConsoleLogger (lo_noColor (co_log c))) \<and>
    ls_globalLevel (Init z (Some c) s) = (if lo_level (co_log c) = NoLevel then InfoLevel else lo_level (co_log c)) \<and>
    Init z' c' (Init z (Some c) s) = Init z (Some c) s"
  using assms
  by (auto simp: Init_def lf_get_def newLogger_def Logger_def parseLogOutputFormat_def JSONFormat_def SimpleFormat_def
      NoFormat_def Let_def)

section \<open>Properties\<close>

text \<open>
  C39. The adapter. \<^verbatim>\<open>WithValues\<close> adds the pairs it is given, later ones winning. The values given to
  \<^verbatim>\<open>Info\<close> and \<^verbatim>\<open>Error\<close> themselves are dropped: the adapter and the output are those of a call
  without values. \<^verbatim>\<open>Error\<close> writes one line; \<^verbatim>\<open>Info\<close> writes two when the adapter has a name.
\<close>

theorem logr_values:
  "map_of (la_keysAndValues (WithValues a (printed_pairs ps))) = map_of (la_keysAndValues a) ++ map_of (rev ps) \<and>
   Info a msg kvs s = Info a msg [] s \<and> Error a err msg kvs s = Error a err msg [] s \<and>
   fst (Info a msg kvs s) = a \<and> fst (Error a err msg kvs s) = a \<and>
   length (ls_calls (snd (Info a msg kvs s))) = length (ls_calls s) + (if la_name a = [] then 1 else 2) \<and>
   length (ls_calls (snd (Error a err msg kvs s))) = length (ls_calls s) + 1"
  by (auto simp: WithValues_def with_values_pairs Info_def Error_def Let_def simp del: sprintf.simps)

end
