(* ===== verification/Startup.thy ===== *)
theory Startup
  imports Controller Logging
begin

text \<open>
  \<^verbatim>\<open>main.go\<close>: the configuration is resolved, the logger is set up, the manager of controller-runtime is
  made, the reconciler is put together and the manager is started. What \<^verbatim>\<open>main\<close> calls of
  controller-runtime is the record \<open>boot\<close>; \<^verbatim>\<open>os.Exit(1)\<close> ends the function with an exit code, and so
  does \<^verbatim>\<open>ctrl.GetConfigOrDie\<close> when there is no configuration of the cluster. A nil configuration
  without an error, which the resolver never returns, would be dereferenced (exit code 2 of a panic).
\<close>

section \<open>Operations\<close>

record 'r boot =
  bt_toString :: "Config \<Rightarrow> string"
  bt_noKubeConfig :: bool
  bt_newManager :: "string \<Rightarrow> goerr option"
  bt_addToScheme :: "goerr option"
  bt_registry :: "'r registry"
  bt_setup :: "GslbReconciler \<Rightarrow> goerr option"
  bt_start :: "GslbReconciler \<Rightarrow> DependencyResolver \<Rightarrow> goerr option"

text \<open>How \<^verbatim>\<open>main\<close> ended: the exit code (none when it returned), the reconciler and the resolver the
  manager was started with, the logger given to controller-runtime, and the state it left.\<close>

record 'r main_result =
  mr_exit :: "nat option"
  mr_started :: "(GslbReconciler \<times> DependencyResolver) option"
  mr_adapter :: "LogrAdapter option"
  mr_log :: log_state
  mr_registry :: 'r

definition log_err :: "goerr \<Rightarrow> string \<Rightarrow> log_state \<Rightarrow> log_state" where
  "log_err err msg s = send (Logger s) (ErrEvent (Some err)) [] msg s"

definition log_info :: "string \<Rightarrow> log_state \<Rightarrow> log_state" where
  "log_info msg s = send (Logger s) InfoEvent [] msg s"

text \<open>From the reconciler on.\<close>

definition main_run ::
    "'w sys \<Rightarrow> 'r boot \<Rightarrow> DependencyResolver \<Rightarrow> Config \<Rightarrow> LogrAdapter \<Rightarrow> log_state \<Rightarrow> 'r \<Rightarrow> 'r main_result" where
  "main_run S B resolver config adapter s reg =
     (let s = log_info ''starting DNS provider'' s;
          (f, err) = NewDNSProviderFactory (Some S) config;
          exit = (\<lambda>s reg. \<lparr>mr_exit = Some 1, mr_started = None, mr_adapter = Some adapter, mr_log = s, mr_registry = reg\<rparr>)
      in case err of
           Some err \<Rightarrow> exit (log_err err (sprintf ''unable to create factory (%s)'' [err_text err]) s) reg
         | None \<Rightarrow>
             (let provider = factory_Provider f;
                  s = log_info (sprintf ''provider: %s'' [pr_String provider]) s;
                  s = log_info ''starting metrics'' s;
                  (err, m, reg) = Register (bt_registry B) (NewPrometheusMetrics config) reg;
                  reconciler = \<lparr>re_config = config, re_metrics = m, re_provider = provider\<rparr>
              in case err of
                   Some err \<Rightarrow> exit (log_err err ''register metrics error'' s) reg
                 | None \<Rightarrow>
                     (case bt_setup B reconciler of
                        Some err \<Rightarrow> exit (log_err err ''unable to create controller Gslb'' s) reg
                      | None \<Rightarrow>
                          (let s = log_info ''starting manager'' s in
                           case bt_start B reconciler resolver of
                             Some err \<Rightarrow>
                               (exit (log_err err ''problem running manager'' s) reg)
                                 \<lparr>mr_started := Some (reconciler, resolver)\<rparr>
                           | None \<Rightarrow>
                               \<lparr>mr_exit = None, mr_started = Some (reconciler, resolver), mr_adapter = Some adapter,
                                mr_log = s, mr_registry = Unregister (bt_registry B) m reg\<rparr>))))"

definition main ::
    "env \<Rightarrow> zerolog \<Rightarrow> range_order \<Rightarrow> 'w sys \<Rightarrow> 'r boot \<Rightarrow> log_state \<Rightarrow> 'r \<Rightarrow> 'r main_result" where
  "main e z ord S B s reg =
     (let ((config, err), resolver) = ResolveOperatorConfig e z ord NewDependencyResolver;
          s = Init z config s;
          exit = (\<lambda>a s. \<lparr>mr_exit = Some 1, mr_started = None, mr_adapter = a, mr_log = s, mr_registry = reg\<rparr>)
      in case (err, config) of
           (Some err, _) \<Rightarrow> exit None (log_err err ''can't resolve environment variables'' s)
         | (None, None) \<Rightarrow> (exit None s)\<lparr>mr_exit := Some 2\<rparr>
         | (None, Some config) \<Rightarrow>
             (let s = send (Logger s) DebugEvent [(''config'', bt_toString B config)] ''Resolved config'' s;
                  adapter = NewLogrAdapter (Logger s)
              in if bt_noKubeConfig B then exit (Some adapter) s
                 else case bt_newManager B (co_metricsAddress config) of
                   Some err \<Rightarrow> exit (Some adapter) (log_err err ''unable to start manager'' s)
                 | None \<Rightarrow>
                     (let s = log_info ''registering components.'' s in
                      case bt_addToScheme B of
                        Some err \<Rightarrow> exit (Some adapter) (log_err err [] s)
                      | None \<Rightarrow> main_run S B resolver config adapter s reg)))"

section \<open>Lemmas\<close>

lemma main_run_started:
  assumes "mr_started (main_run S B dr c a s reg) = Some (r, dr')"
  shows "dr' = dr \<and> re_config r = c \<and> re_provider r = factory_Provider (fst (NewDNSProviderFactory (Some S) c)) \<and>
    (\<exists>m reg'. Register (bt_registry B) (NewPrometheusMetrics c) reg = (None, m, reg') \<and> re_metrics r = m) \<and>
    bt_setup B r = None \<and>
    mr_exit (main_run S B dr c a s reg) = (if bt_start B r dr = None then None else Some 1)"
  using assms
  by (auto simp: main_run_def NewDNSProviderFactory_def Let_def split: prod.splits option.splits if_splits)

lemma main_started:
  assumes "mr_started (main e z ord S B s reg) = Some (r, dr)"
  shows "\<exists>c a s' . ResolveOperatorConfig e z ord NewDependencyResolver = ((Some c, None), dr) \<and>
    main e z ord S B s reg = main_run S B dr c a s' reg \<and> mr_started (main_run S B dr c a s' reg) = Some (r, dr)"
proof -
  obtain config err resolver where c: "ResolveOperatorConfig e z ord NewDependencyResolver = ((config, err), resolver)"
    by (metis prod.collapse)
  from assms c obtain c' a s' where m: "err = None" "config = Some c'" "main e z ord S B s reg = main_run S B resolver c' a s' reg"
    by (auto simp: main_def Let_def split: option.splits if_splits)
  with assms main_run_started [of S B resolver c' a s' reg r dr] c show ?thesis by auto
qed

lemma resolve_config_fresh:
  "ResolveOperatorConfig e z ord NewDependencyResolver = (x, dr) \<Longrightarrow> fresh_cache dr"
  by (auto simp: ResolveOperatorConfig_def NewDependencyResolver_def fresh_cache_def Let_def split: prod.splits)

lemma main_run_exit:
  "mr_exit (main_run S B dr c a s reg) =
     (let (err, m, reg') = Register (bt_registry B) (NewPrometheusMetrics c) reg;
          r = \<lparr>re_config = c, re_metrics = m, re_provider = factory_Provider (fst (NewDNSProviderFactory (Some S) c))\<rparr>
      in if err = None \<and> bt_setup B r = None \<and> bt_start B r dr = None then None else Some 1)"
  by (auto simp: main_run_def NewDNSProviderFactory_def Let_def split: prod.splits option.splits)

lemma resolve_config_some: "ResolveOperatorConfig e z ord NewDependencyResolver = ((c, err), dr) \<Longrightarrow> \<exists>c'. c = Some c'"
  by (auto simp: ResolveOperatorConfig_def NewDependencyResolver_def Let_def split: prod.splits)

lemma main_exit:
  assumes "ResolveOperatorConfig e z ord NewDependencyResolver = ((Some c, err), dr)"
  shows "\<exists>a s'. mr_exit (main e z ord S B s reg) =
    (if err = None \<and> \<not> bt_noKubeConfig B \<and> bt_newManager B (co_metricsAddress c) = None \<and> bt_addToScheme B = None
     then mr_exit (main_run S B dr c a s' reg) else Some 1)"
  using assms by (auto simp: main_def Let_def split: option.splits)

lemma main_exit_code: "mr_exit (main e z ord S B s reg) \<in> {None, Some 1}"
proof -
  obtain c err dr where c: "ResolveOperatorConfig e z ord NewDependencyResolver = ((c, err), dr)" by (metis prod_cases3 prod.collapse)
  then obtain c' where "c = Some c'" using resolve_config_some by blast
  with main_exit [OF c [unfolded this], of S B s reg] show ?thesis
    by (auto simp: main_run_exit Let_def split: prod.splits if_splits)
qed

lemma main_returns:
  "mr_exit (main e z ord S B s reg) = None \<longleftrightarrow>
     (\<exists>c dr reg' r. ResolveOperatorConfig e z ord NewDependencyResolver = ((Some c, None), dr) \<and>
       \<not> bt_noKubeConfig B \<and> bt_newManager B (co_metricsAddress c) = None \<and> bt_addToScheme B = None \<and>
       Register (bt_registry B) (NewPrometheusMetrics c) reg = (None, re_metrics r, reg') \<and> re_config r = c \<and>
       re_provider r = factory_Provider (fst (NewDNSProviderFactory (Some S) c)) \<and>
       bt_setup B r = None \<and> bt_start B r dr = None)"
    (is "?exit = None \<longleftrightarrow> ?ok")
proof -
  obtain c err dr where c: "ResolveOperatorConfig e z ord NewDependencyResolver = ((c, err), dr)" by (metis prod_cases3 prod.collapse)
  then obtain c' where c': "c = Some c'" using resolve_config_some by blast
  obtain x m reg' where reg: "Register (bt_registry B) (NewPrometheusMetrics c') reg = (x, m, reg')" by (metis prod_cases3)
  let ?r = "\<lparr>re_config = c', re_metrics = m, re_provider = factory_Provider (fst (NewDNSProviderFactory (Some S) c'))\<rparr>"
  have r: "r = ?r" if "re_config r = c'" "re_metrics r = m" "re_provider r = re_provider ?r" for r
    using that by simp
  from main_exit [OF c [unfolded c'], of S B s reg] obtain a s' where
      "?exit = (if err = None \<and> \<not> bt_noKubeConfig B \<and> bt_newManager B (co_metricsAddress c') = None \<and> bt_addToScheme B = None
        then mr_exit (main_run S B dr c' a s' reg) else Some 1)" by blast
  then have "?exit = None \<longleftrightarrow> err = None \<and> \<not> bt_noKubeConfig B \<and> bt_newManager B (co_metricsAddress c') = None \<and>
      bt_addToScheme B = None \<and> x = None \<and> bt_setup B ?r = None \<and> bt_start B ?r dr = None"
    by (auto simp: main_run_exit reg Let_def)
  also have "\<dots> \<longleftrightarrow> ?ok"
  proof
    assume ?ok
    then show "err = None \<and> \<not> bt_noKubeConfig B \<and> bt_newManager B (co_metricsAddress c') = None \<and>
        bt_addToScheme B = None \<and> x = None \<and> bt_setup B ?r = None \<and> bt_start B ?r dr = None"
      using c c' reg r by fastforce
  qed (use c c' reg in \<open>auto intro!: exI [of _ ?r]\<close>)
  finally show ?thesis .
qed

section \<open>Properties\<close>

text \<open>
  C36. What the process runs with. If \<^verbatim>\<open>main\<close> starts the manager, the configuration was accepted and
  names at most one edge DNS provider, the reconciler has exactly that configuration, the
  provider the factory makes of it (working in the configured namespace) and its registered
  metrics, and the resolver has an empty cache, as the runs of the process assume. It returns from
  \<^verbatim>\<open>main\<close> without an exit code exactly if the configuration was accepted and every later step
  succeeded: the cluster configuration, the manager, the scheme, the registration of the metrics,
  the set-up of the controller and the run of the manager. Otherwise the process exits with code 1;
  with a configuration that is not accepted it has then started and registered nothing.
\<close>

theorem main_starts:
  assumes "range_ok ord"
  shows "(\<forall>r dr. mr_started (main e z ord S B s reg) = Some (r, dr) \<longrightarrow>
      ResolveOperatorConfig e z ord NewDependencyResolver = ((Some (re_config r), None), dr) \<and>
      co_edgeDNSType (re_config r) \<noteq> DNSTypeMultipleProviders \<and>
      provider_ok (re_provider r) \<and> pr_config (re_provider r) = re_config r \<and>
      re_provider r = factory_Provider (fst (NewDNSProviderFactory (Some S) (re_config r))) \<and>
      (\<exists>reg'. Register (bt_registry B) (NewPrometheusMetrics (re_config r)) reg = (None, re_metrics r, reg')) \<and>
      run S ord zsort r env w dr w) \<and>
    mr_exit (main e z ord S B s reg) \<in> {None, Some 1} \<and>
    (mr_exit (main e z ord S B s reg) = None \<longleftrightarrow>
      (\<exists>c dr reg' r. ResolveOperatorConfig e z ord NewDependencyResolver = ((Some c, None), dr) \<and>
        \<not> bt_noKubeConfig B \<and> bt_newManager B (co_metricsAddress c) = None \<and> bt_addToScheme B = None \<and>
        Register (bt_registry B) (NewPrometheusMetrics c) reg = (None, re_metrics r, reg') \<and> re_config r = c \<and>
        re_provider r = factory_Provider (fst (NewDNSProviderFactory (Some S) c)) \<and>
        bt_setup B r = None \<and> bt_start B r dr = None)) \<and>
    (\<forall>c err dr. ResolveOperatorConfig e z ord NewDependencyResolver = ((c, Some err), dr) \<longrightarrow>
      mr_exit (main e z ord S B s reg) = Some 1 \<and> mr_started (main e z ord S B s reg) = None \<and>
      mr_registry (main e z ord S B s reg) = reg)"
proof (intro conjI allI impI)
  fix r dr
  assume "mr_started (main e z ord S B s reg) = Some (r, dr)"
  from main_started [OF this] obtain c a s' where
      c: "ResolveOperatorConfig e z ord NewDependencyResolver = ((Some c, None), dr)"
    and m: "mr_started (main_run S B dr c a s' reg) = Some (r, dr)" by blast
  note r = main_run_started [OF m]
  have ty: "co_edgeDNSType c \<noteq> DNSTypeMultipleProviders"
    using resolved_not_multiple [OF assms c] .
  show "ResolveOperatorConfig e z ord NewDependencyResolver = ((Some (re_config r), None), dr)"
    "co_edgeDNSType (re_config r) \<noteq> DNSTypeMultipleProviders" "provider_ok (re_provider r)"
    "pr_config (re_provider r) = re_config r"
    "re_provider r = factory_Provider (fst (NewDNSProviderFactory (Some S) (re_config r)))"
    "\<exists>reg'. Register (bt_registry B) (NewPrometheusMetrics (re_config r)) reg = (None, re_metrics r, reg')"
    "run S ord zsort r env w dr w"
    using c r ty run.start [OF resolve_config_fresh [OF c]] by (auto simp: factory_provider_ok NewDNSProviderFactory_def)
next
  show "mr_exit (main e z ord S B s reg) \<in> {None, Some 1}" by (rule main_exit_code)
  show "mr_exit (main e z ord S B s reg) = None \<longleftrightarrow>
      (\<exists>c dr reg' r. ResolveOperatorConfig e z ord NewDependencyResolver = ((Some c, None), dr) \<and>
        \<not> bt_noKubeConfig B \<and> bt_newManager B (co_metricsAddress c) = None \<and> bt_addToScheme B = None \<and>
        Register (bt_registry B) (NewPrometheusMetrics c) reg = (None, re_metrics r, reg') \<and> re_config r = c \<and>
        re_provider r = factory_Provider (fst (NewDNSProviderFactory (Some S) c)) \<and>
        bt_setup B r = None \<and> bt_start B r dr = None)" by (rule main_returns)
next
  fix c err dr
  assume "ResolveOperatorConfig e z ord NewDependencyResolver = ((c, Some err), dr)"
  then show "mr_exit (main e z ord S B s reg) = Some 1" "mr_started (main e z ord S B s reg) = None"
    "mr_registry (main e z ord S B s reg) = reg" by (simp_all add: main_def Let_def)
qed

definition sample_boot :: "string list boot" where
  "sample_boot = \<lparr>bt_toString = (\<lambda>c. ''config''), bt_noKubeConfig = False, bt_newManager = (\<lambda>a. None), bt_addToScheme = None,
     bt_registry = list_registry, bt_setup = (\<lambda>r. None), bt_start = (\<lambda>r dr. None)\<rparr>"

theorem main_starts_witness:
  "\<exists>r dr. mr_started (main sample_env sample_zerolog (\<lambda>m. m) quiet_sys sample_boot fresh_log []) = Some (r, dr) \<and>
     provider_ok (re_provider r) \<and> pr_config (re_provider r) = re_config r"
proof -
  let ?m = "main sample_env sample_zerolog (\<lambda>m. m) quiet_sys sample_boot fresh_log []"
  obtain dr c where c: "ResolveOperatorConfig sample_env sample_zerolog (\<lambda>m. m) NewDependencyResolver = ((Some c, None), dr)"
    using sample_resolve by blast
  have "\<exists>r. mr_started ?m = Some (r, dr)"
    by (simp add: main_def c sample_boot_def main_run_def NewDNSProviderFactory_def Register_def NewPrometheusMetrics_def
        list_registry_def Let_def)
  then obtain r where r: "mr_started ?m = Some (r, dr)" by blast
  with main_starts [OF range_ok_id, of sample_env sample_zerolog quiet_sys sample_boot fresh_log "[]"] show ?thesis by blast
qed

end
