(* ===== verification/Scheme.thy ===== *)
theory Scheme
  imports Prelude
begin

text \<open>
  The registration of the API types: the variables of \<^verbatim>\<open>api/v1beta1/groupversion_info.go\<close>, the \<^verbatim>\<open>init\<close>
  function of \<^verbatim>\<open>gslb_types.go\<close> and that of \<^verbatim>\<open>main.go\<close>. The schemes of the Kubernetes libraries are the
  parameter \<open>scheme_lib\<close>: \<open>'b\<close> are builders, \<open>'s\<close> schemes; a type is its name.
\<close>

section \<open>Operations\<close>

type_synonym group_version = "string \<times> string"

record ('b, 's) scheme_lib =
  sl_builder :: "group_version \<Rightarrow> 'b"
  sl_register :: "string list \<Rightarrow> 'b \<Rightarrow> 'b"
  sl_addToScheme :: "'b \<Rightarrow> 's \<Rightarrow> goerr option \<times> 's"
  sl_clientgo :: "'s \<Rightarrow> goerr option \<times> 's"
  sl_new :: "'s"

definition GroupVersion :: group_version where
  "GroupVersion = (''k8gb.absa.oss'', ''v1beta1'')"

text \<open>The package variable, before and after the \<^verbatim>\<open>init\<close> function of the package.\<close>

definition SchemeBuilder :: "('b, 's) scheme_lib \<Rightarrow> 'b" where
  "SchemeBuilder L = sl_builder L GroupVersion"

definition api_init :: "('b, 's) scheme_lib \<Rightarrow> 'b \<Rightarrow> 'b" where
  "api_init L b = sl_register L [''Gslb'', ''GslbList''] b"

definition AddToScheme :: "('b, 's) scheme_lib \<Rightarrow> 's \<Rightarrow> goerr option \<times> 's" where
  "AddToScheme L = sl_addToScheme L (api_init L (SchemeBuilder L))"

text \<open>\<^verbatim>\<open>utilruntime.Must\<close> panics on an error.\<close>

definition must :: "goerr option \<times> 's \<Rightarrow> 's go" where
  "must r = (case r of (Some err, s) \<Rightarrow> Panic (err_text err) | (None, s) \<Rightarrow> Ok s)"

text \<open>The package variable \<^verbatim>\<open>runtimescheme\<close> after the \<^verbatim>\<open>init\<close> function of \<^verbatim>\<open>main.go\<close>.\<close>

definition runtimescheme :: "('b, 's) scheme_lib \<Rightarrow> 's" where
  "runtimescheme L = sl_new L"

definition main_init :: "('b, 's) scheme_lib \<Rightarrow> 's \<Rightarrow> 's go" where
  "main_init L s =
     (case must (sl_clientgo L s) of
        Ok s \<Rightarrow> must (AddToScheme L s)
      | Err e \<Rightarrow> Err e
      | Panic p \<Rightarrow> Panic p)"

section \<open>What the libraries promise\<close>

text \<open>A builder adds the types registered with it, under its group and version, and a scheme forgets
  nothing.\<close>

locale scheme_api =
  fixes L :: "('b, 's) scheme_lib" and knows :: "'s \<Rightarrow> group_version \<times> string \<Rightarrow> bool"
    and group :: "'b \<Rightarrow> group_version" and types :: "'b \<Rightarrow> string set"
  assumes new_builder: "group (sl_builder L gv) = gv" "types (sl_builder L gv) = {}"
    and register: "group (sl_register L ts b) = group b" "types (sl_register L ts b) = types b \<union> set ts"
    and added: "sl_addToScheme L b s = (None, s') \<Longrightarrow> knows s' t \<longleftrightarrow> knows s t \<or> fst t = group b \<and> snd t \<in> types b"
begin

lemma init_registers:
  assumes "main_init L (runtimescheme L) = Ok s" and "k \<in> {''Gslb'', ''GslbList''}"
  shows "knows s ((''k8gb.absa.oss'', ''v1beta1''), k)"
proof -
  from assms(1) obtain s1 where "sl_addToScheme L (sl_register L [''Gslb'', ''GslbList''] (sl_builder L GroupVersion)) s1 = (None, s)"
    by (auto simp: main_init_def must_def AddToScheme_def api_init_def SchemeBuilder_def split: go.splits prod.splits option.splits)
  from added [OF this] assms(2) show ?thesis by (auto simp: new_builder register GroupVersion_def)
qed

text \<open>An error of either registration ends the process before \<^verbatim>\<open>main\<close>.\<close>

lemma init_panics:
  "(\<exists>p. main_init L s = Panic p) \<longleftrightarrow>
     (case sl_clientgo L s of (Some e, s1) \<Rightarrow> True | (None, s1) \<Rightarrow> fst (AddToScheme L s1) \<noteq> None)"
  by (auto simp: main_init_def must_def split: prod.splits option.splits)

end

section \<open>Schemes in memory\<close>

definition mem_scheme :: "goerr option \<Rightarrow> (group_version \<times> string list, (group_version \<times> string) list) scheme_lib" where
  "mem_scheme fault =
     \<lparr>sl_builder = (\<lambda>gv. (gv, [])), sl_register = (\<lambda>ts (gv, us). (gv, us @ ts)),
      sl_addToScheme = (\<lambda>(gv, ts) s. (fault, case fault of None \<Rightarrow> s @ map (Pair gv) ts | Some e \<Rightarrow> s)),
      sl_clientgo = (\<lambda>s. (None, s @ [((''networking.k8s.io'', ''v1beta1''), ''Ingress'')])), sl_new = []\<rparr>"

interpretation mem_schemes: scheme_api "mem_scheme fault" "\<lambda>s t. t \<in> set s" fst "\<lambda>b. set (snd b)"
  by unfold_locales (auto simp: mem_scheme_def split: prod.splits)

end
