(* ===== verification/Heap_Copy.thy ===== *)
theory Heap_Copy
  imports Prelude "HOL-Library.Finite_Map"
begin

text \<open>
  Deep copies on a heap with pointers, for any type \<open>'c\<close> of cells. A heap maps addresses to cells, with
  a limit below which addresses are allocated; a nil pointer, slice or map is \<^const>\<open>None\<close>. A \<open>copier\<close>
  is what a \<^verbatim>\<open>DeepCopyInto\<close> method does: from a struct and a heap it makes the copy and the heap with the
  cells of the copy. A \<open>view\<close> says how a struct is read: the value it stands for with all it points to,
  the addresses it reaches, and whether every pointer leads to a cell of the type it is declared with.

  The locale \<open>deep_copier\<close> is the contract of a deep copy. The rules \<open>deep_intros\<close> give it for pointers,
  slices, maps, pairs and structs, so that a method is proved by applying them along its code.
\<close>

named_theorems deep_intros \<open>introduction rules for the contract of a deep copy\<close>

section \<open>Heaps\<close>

type_synonym addr = nat

record 'c heap =
  hp_lim :: addr
  hp_cell :: "addr \<Rightarrow> 'c"

type_synonym ('c, 'v) copier = "'v \<Rightarrow> 'c heap \<Rightarrow> 'v \<times> 'c heap"

record ('c, 'v, 'a) view =
  vw_val :: "'c heap \<Rightarrow> 'v \<Rightarrow> 'a"
  vw_foot :: "'c heap \<Rightarrow> 'v \<Rightarrow> addr set"
  vw_wt :: "'c heap \<Rightarrow> 'v \<Rightarrow> bool"

text \<open>A type of cells: constructor, selector and discriminator.\<close>

record ('c, 'v) cell_type =
  ct_mk :: "'v \<Rightarrow> 'c"
  ct_get :: "'c \<Rightarrow> 'v"
  ct_is :: "'c \<Rightarrow> bool"

definition alloc :: "'c heap \<Rightarrow> addr \<times> 'c heap" where
  "alloc h = (hp_lim h, h\<lparr>hp_lim := Suc (hp_lim h)\<rparr>)"

definition read :: "('c, 'v) cell_type \<Rightarrow> 'c heap \<Rightarrow> addr \<Rightarrow> 'v" where
  "read C h a = ct_get C (hp_cell h a)"

definition put :: "('c, 'v) cell_type \<Rightarrow> addr \<Rightarrow> 'v \<Rightarrow> 'c heap \<Rightarrow> 'c heap" where
  "put C a v h = h\<lparr>hp_cell := (hp_cell h)(a := ct_mk C v)\<rparr>"

section \<open>Copying\<close>

text \<open>An assignment copies a value without pointers.\<close>

definition copy_value :: "('c, 'v) copier" where
  "copy_value v h = (v, h)"

text \<open>\<^verbatim>\<open>if in.F != nil { *out = new(T); (*in).DeepCopyInto(*out) }\<close>: the new cell is allocated first
  and filled by the copy of what the old one holds.\<close>

definition copy_ptr :: "('c, 'v) cell_type \<Rightarrow> ('c, 'v) copier \<Rightarrow> ('c, addr option) copier" where
  "copy_ptr C copy p h =
     (case p of
        None \<Rightarrow> (None, h)
      | Some a \<Rightarrow>
          (let (q, h) = alloc h; (v, h) = copy (read C h a) h
           in (Some q, put C q v h)))"

text \<open>The loops over the elements of a slice and over the entries of a map, in the order in which
  \<^verbatim>\<open>range\<close> visits them.\<close>

fun copy_list :: "('c, 'v) copier \<Rightarrow> ('c, 'v list) copier" where
  "copy_list copy [] h = ([], h)"
| "copy_list copy (v # vs) h =
     (let (v', h) = copy v h; (vs', h) = copy_list copy vs h in (v' # vs', h))"

fun copy_entries ::
    "('c, 'v) copier \<Rightarrow> (string \<times> 'v) list \<Rightarrow> (string, 'v) fmap \<Rightarrow> 'c heap \<Rightarrow> (string, 'v) fmap \<times> 'c heap" where
  "copy_entries copy [] out h = (out, h)"
| "copy_entries copy ((key, val) # es) out h =
     (let (outVal, h) = copy val h in copy_entries copy es (fmupd key outVal out) h)"

type_synonym 'v map_order = "(string, 'v) fmap \<Rightarrow> (string \<times> 'v) list"

definition map_order_ok :: "'v map_order \<Rightarrow> bool" where
  "map_order_ok ord \<longleftrightarrow> (\<forall>m. distinct (map fst (ord m)) \<and> fmap_of_list (ord m) = m)"

definition copy_map :: "'v map_order \<Rightarrow> ('c, 'v) copier \<Rightarrow> ('c, (string, 'v) fmap) copier" where
  "copy_map ord copy m h = copy_entries copy (ord m) fmempty h"

text \<open>The fields of a struct one after the other; \<open>unpack\<close> and \<open>pack\<close> take it apart and put it together.\<close>

definition copy_pair :: "('c, 'v) copier \<Rightarrow> ('c, 'u) copier \<Rightarrow> ('c, 'v \<times> 'u) copier" where
  "copy_pair copy1 copy2 x h = (let (v, h) = copy1 (fst x) h; (u, h) = copy2 (snd x) h in ((v, u), h))"

definition copy_struct :: "('v \<Rightarrow> 'f) \<Rightarrow> ('f \<Rightarrow> 'v) \<Rightarrow> ('c, 'f) copier \<Rightarrow> ('c, 'v) copier" where
  "copy_struct unpack pack copy v h = (let (x, h) = copy (unpack v) h in (pack x, h))"

definition copy_sum :: "('c, 'v) copier \<Rightarrow> ('c, 'u) copier \<Rightarrow> ('c, 'v + 'u) copier" where
  "copy_sum copy1 copy2 x h =
     (case x of Inl v \<Rightarrow> map_prod Inl id (copy1 v h) | Inr u \<Rightarrow> map_prod Inr id (copy2 u h))"

section \<open>Reading\<close>

definition value_view :: "('c, 'v, 'v) view" where
  "value_view = \<lparr>vw_val = (\<lambda>h v. v), vw_foot = (\<lambda>h v. {}), vw_wt = (\<lambda>h v. True)\<rparr>"

definition ptr_view :: "('c, 'v) cell_type \<Rightarrow> ('c, 'v, 'a) view \<Rightarrow> ('c, addr option, 'a option) view" where
  "ptr_view C V =
     \<lparr>vw_val = (\<lambda>h p. map_option (\<lambda>a. vw_val V h (read C h a)) p),
      vw_foot = (\<lambda>h p. case p of None \<Rightarrow> {} | Some a \<Rightarrow> insert a (vw_foot V h (read C h a))),
      vw_wt = (\<lambda>h p. case p of None \<Rightarrow> True | Some a \<Rightarrow> ct_is C (hp_cell h a) \<and> vw_wt V h (read C h a))\<rparr>"

definition list_view :: "('c, 'v, 'a) view \<Rightarrow> ('c, 'v list, 'a list) view" where
  "list_view V =
     \<lparr>vw_val = (\<lambda>h vs. map (vw_val V h) vs), vw_foot = (\<lambda>h vs. \<Union>v \<in> set vs. vw_foot V h v),
      vw_wt = (\<lambda>h vs. \<forall>v \<in> set vs. vw_wt V h v)\<rparr>"

definition map_view :: "('c, 'v, 'a) view \<Rightarrow> ('c, (string, 'v) fmap, (string, 'a) fmap) view" where
  "map_view V =
     \<lparr>vw_val = (\<lambda>h m. fmmap (vw_val V h) m), vw_foot = (\<lambda>h m. \<Union>v \<in> fmran' m. vw_foot V h v),
      vw_wt = (\<lambda>h m. \<forall>v \<in> fmran' m. vw_wt V h v)\<rparr>"

definition pair_view :: "('c, 'v, 'a) view \<Rightarrow> ('c, 'u, 'b) view \<Rightarrow> ('c, 'v \<times> 'u, 'a \<times> 'b) view" where
  "pair_view V U =
     \<lparr>vw_val = (\<lambda>h x. (vw_val V h (fst x), vw_val U h (snd x))),
      vw_foot = (\<lambda>h x. vw_foot V h (fst x) \<union> vw_foot U h (snd x)),
      vw_wt = (\<lambda>h x. vw_wt V h (fst x) \<and> vw_wt U h (snd x))\<rparr>"

definition sum_view :: "('c, 'v, 'a) view \<Rightarrow> ('c, 'u, 'b) view \<Rightarrow> ('c, 'v + 'u, 'a + 'b) view" where
  "sum_view V U =
     \<lparr>vw_val = (\<lambda>h. map_sum (vw_val V h) (vw_val U h)),
      vw_foot = (\<lambda>h. case_sum (vw_foot V h) (vw_foot U h)),
      vw_wt = (\<lambda>h. case_sum (vw_wt V h) (vw_wt U h))\<rparr>"

definition struct_view :: "('v \<Rightarrow> 'f) \<Rightarrow> ('c, 'f, 'a) view \<Rightarrow> ('c, 'v, 'a) view" where
  "struct_view unpack V =
     \<lparr>vw_val = (\<lambda>h v. vw_val V h (unpack v)), vw_foot = (\<lambda>h v. vw_foot V h (unpack v)),
      vw_wt = (\<lambda>h v. vw_wt V h (unpack v))\<rparr>"

section \<open>Agreement and growth\<close>

text \<open>Two heaps agree on a set of addresses; a heap grows when what was allocated is unchanged.\<close>

definition agree :: "addr set \<Rightarrow> 'c heap \<Rightarrow> 'c heap \<Rightarrow> bool" where
  "agree A h h' \<longleftrightarrow> (\<forall>a \<in> A. hp_cell h' a = hp_cell h a)"

definition grows :: "'c heap \<Rightarrow> 'c heap \<Rightarrow> bool" where
  "grows h h' \<longleftrightarrow> hp_lim h \<le> hp_lim h' \<and> agree {..<hp_lim h} h h'"

text \<open>A struct is sound in a heap when all it reaches is allocated and of the declared type.\<close>

definition sound :: "('c, 'v, 'a) view \<Rightarrow> 'c heap \<Rightarrow> 'v \<Rightarrow> bool" where
  "sound V h v \<longleftrightarrow> vw_foot V h v \<subseteq> {..<hp_lim h} \<and> vw_wt V h v"

definition same_view :: "('c, 'v, 'a) view \<Rightarrow> 'c heap \<Rightarrow> 'c heap \<Rightarrow> 'v \<Rightarrow> bool" where
  "same_view V h h' v \<longleftrightarrow>
     vw_val V h' v = vw_val V h v \<and> vw_foot V h' v = vw_foot V h v \<and> vw_wt V h' v = vw_wt V h v"

text \<open>What a copy is: it stands for what the original stood for in the old heap, reaches only cells that
  were allocated since, and is well-typed.\<close>

definition copy_of :: "('c, 'v, 'a) view \<Rightarrow> 'c heap \<Rightarrow> 'v \<Rightarrow> 'c heap \<Rightarrow> 'v \<Rightarrow> bool" where
  "copy_of V h v h' v' \<longleftrightarrow>
     vw_val V h' v' = vw_val V h v \<and> vw_foot V h' v' \<subseteq> {hp_lim h..<hp_lim h'} \<and> vw_wt V h' v'"

lemma agree_mono: "agree B h h' \<Longrightarrow> A \<subseteq> B \<Longrightarrow> agree A h h'"
  unfolding agree_def by blast

lemma agree_Un: "agree (A \<union> B) h h' \<longleftrightarrow> agree A h h' \<and> agree B h h'"
  unfolding agree_def by blast

lemma agree_UN: "agree (\<Union>x \<in> X. f x) h h' \<longleftrightarrow> (\<forall>x \<in> X. agree (f x) h h')"
  unfolding agree_def by blast

lemma agree_insert: "agree (insert a A) h h' \<longleftrightarrow> hp_cell h' a = hp_cell h a \<and> agree A h h'"
  unfolding agree_def by blast

lemma grows_refl [simp]: "grows h h"
  by (simp add: grows_def agree_def)

lemma grows_trans [trans]: "grows h h' \<Longrightarrow> grows h' h'' \<Longrightarrow> grows h h''"
  by (auto simp: grows_def agree_def)

lemma grows_agree: "grows h h' \<Longrightarrow> A \<subseteq> {..<hp_lim h} \<Longrightarrow> agree A h h'"
  unfolding grows_def by (blast intro: agree_mono)

lemma grows_lim: "grows h h' \<Longrightarrow> hp_lim h \<le> hp_lim h'"
  by (simp add: grows_def)

lemma alloc_grows:
  "alloc h = (q, h') \<Longrightarrow> grows h h' \<and> q = hp_lim h \<and> hp_lim h' = Suc q \<and> hp_cell h' = hp_cell h"
  by (auto simp: alloc_def grows_def agree_def)

section \<open>The contract\<close>

locale deep_copier =
  fixes copy :: "('c, 'v) copier" and V :: "('c, 'v, 'a) view"
  assumes view_local: "agree (vw_foot V h v) h h' \<Longrightarrow> same_view V h h' v"
    and copied: "sound V h v \<Longrightarrow> copy v h = (v', h') \<Longrightarrow> grows h h' \<and> copy_of V h v h' v'"
begin

lemma grown:
  assumes "sound V h v" "grows h h'"
  shows "same_view V h h' v" "sound V h' v"
proof -
  show s: "same_view V h h' v"
    using assms by (auto simp: sound_def intro: view_local grows_agree)
  show "sound V h' v"
    using s assms(1) grows_lim [OF assms(2)] by (auto simp: sound_def same_view_def)
qed

text \<open>One copy among several: the original was there at the start, the copy is looked at in the end.\<close>

lemma step:
  assumes "sound V h0 v" "grows h0 h" "copy v h = (v', h1)"
  shows "grows h h1" "grows h1 h2 \<Longrightarrow> copy_of V h0 v h2 v'"
proof -
  note g = grown [OF assms(1,2)]
  note c = copied [OF g(2) assms(3)]
  then show "grows h h1" by blast
  assume g2: "grows h1 h2"
  have "sound V h1 v'" using c by (auto simp: copy_of_def sound_def)
  with grown(1) [OF this g2] show "copy_of V h0 v h2 v'"
    using c g(1) grows_lim [OF assms(2)] grows_lim [OF g2] by (auto simp: copy_of_def same_view_def)
qed

text \<open>A copy is independent of its original: they share no cell, so writing the cells of one, however
  often, does not change the value of the other.\<close>

lemma independent:
  assumes "sound V h v" "copy v h = (v', h')"
  shows "vw_val V h' v' = vw_val V h v" "vw_val V h' v = vw_val V h v" "vw_foot V h' v' \<inter> vw_foot V h' v = {}"
    "agree (- vw_foot V h' v') h' h'' \<Longrightarrow> vw_val V h'' v = vw_val V h v"
    "agree (- vw_foot V h' v) h' h'' \<Longrightarrow> vw_val V h'' v' = vw_val V h v"
    "sound V h' v'" "sound V h' v"
proof -
  have c: "grows h h'" "copy_of V h v h' v'" using copied [OF assms] by blast+
  note g = grown [OF assms(1) c(1)]
  show 1: "vw_val V h' v' = vw_val V h v" "vw_val V h' v = vw_val V h v" and "sound V h' v'" "sound V h' v"
    using c(2) g by (auto simp: copy_of_def same_view_def sound_def)
  show 2: "vw_foot V h' v' \<inter> vw_foot V h' v = {}"
    using c(2) g(1) assms(1) by (fastforce simp: copy_of_def same_view_def sound_def)
  show "vw_val V h'' v = vw_val V h v" if "agree (- vw_foot V h' v') h' h''"
  proof -
    have "agree (vw_foot V h' v) h' h''" by (rule agree_mono [OF that]) (use 2 in blast)
    from view_local [OF this] 1 show ?thesis by (simp add: same_view_def)
  qed
  show "vw_val V h'' v' = vw_val V h v" if "agree (- vw_foot V h' v) h' h''"
  proof -
    have "agree (vw_foot V h' v') h' h''" by (rule agree_mono [OF that]) (use 2 in blast)
    from view_local [OF this] 1 show ?thesis by (simp add: same_view_def)
  qed
qed

end

locale cell =
  fixes C :: "('c, 'v) cell_type"
  assumes get_mk: "ct_get C (ct_mk C v) = v" and is_mk: "ct_is C (ct_mk C v)"
begin

lemma read_put: "read C (put C a v h) a = v" "ct_is C (hp_cell (put C a v h) a)"
  by (simp_all add: read_def put_def get_mk is_mk)

end

lemma put_frame: "agree (- {a}) h (put C a v h)" "hp_lim (put C a v h) = hp_lim h"
  by (simp_all add: put_def agree_def)

section \<open>Rules\<close>

lemma deep_value [deep_intros]: "deep_copier copy_value value_view"
  by unfold_locales (auto simp: copy_value_def value_view_def same_view_def copy_of_def)

text \<open>Pointers.\<close>

lemma ptr_view_local:
  assumes "deep_copier copy V" "agree (vw_foot (ptr_view C V) h p) h h'"
  shows "same_view (ptr_view C V) h h' p"
proof (cases p)
  case (Some a)
  with assms(2) have "hp_cell h' a = hp_cell h a" "agree (vw_foot V h (read C h a)) h h'"
    by (simp_all add: ptr_view_def agree_insert)
  with deep_copier.view_local [OF assms(1)] Some show ?thesis
    by (auto simp: same_view_def ptr_view_def read_def)
qed (simp add: same_view_def ptr_view_def)

lemma ptr_copied:
  assumes "cell C" "deep_copier copy V" "sound (ptr_view C V) h p" "copy_ptr C copy p h = (q, h')"
  shows "grows h h' \<and> copy_of (ptr_view C V) h p h' q"
proof (cases p)
  case None
  with assms(4) show ?thesis by (simp add: copy_ptr_def copy_of_def ptr_view_def)
next
  case (Some a)
  obtain b h1 where al: "alloc h = (b, h1)" by fastforce
  note g1 = alloc_grows [OF al]
  obtain v h2 where c: "copy (read C h1 a) h1 = (v, h2)" by fastforce
  from assms(4) Some al c have q: "q = Some b" and h': "h' = put C b v h2" by (simp_all add: copy_ptr_def)
  have r: "read C h1 a = read C h a" using g1 by (simp add: read_def)
  have s: "sound V h (read C h a)" using assms(3) Some by (auto simp: sound_def ptr_view_def)
  note d = deep_copier.step [OF assms(2) s conjunct1 [OF g1] c [unfolded r]]
  have b: "b = hp_lim h" "b < hp_lim h2" using g1 grows_lim [OF d(1)] by auto
  have fr: "agree (- {b}) h2 h'" unfolding h' by (rule put_frame)
  have "grows h h2" using g1 d(1) grows_trans by blast
  moreover have "agree {..<hp_lim h} h2 h'" by (rule agree_mono [OF fr]) (use b in auto)
  ultimately have gr: "grows h h'" by (auto simp: grows_def h' put_frame agree_def)
  have k: "copy_of V h (read C h a) h2 v" by (rule d(2)) simp
  have f: "vw_foot V h2 v \<subseteq> {Suc b..<hp_lim h2}"
  proof -
    have "sound V h1 (read C h a)" by (rule deep_copier.grown(2) [OF assms(2) s conjunct1 [OF g1]])
    from deep_copier.copied [OF assms(2) this c [unfolded r]] g1 show ?thesis by (auto simp: copy_of_def)
  qed
  have "agree (vw_foot V h2 v) h2 h'" by (rule agree_mono [OF fr]) (use f in auto)
  from deep_copier.view_local [OF assms(2) this] have "same_view V h2 h' v" .
  with gr k f b q Some cell.read_put [OF assms(1)] show ?thesis
    by (auto simp: copy_of_def ptr_view_def h' same_view_def put_frame)
qed

lemma deep_ptr [deep_intros]: "cell C \<Longrightarrow> deep_copier copy V \<Longrightarrow> deep_copier (copy_ptr C copy) (ptr_view C V)"
  by (rule deep_copier.intro) (erule (1) ptr_view_local, erule (3) ptr_copied)

text \<open>Pairs and structs.\<close>

lemma deep_pair [deep_intros]:
  assumes d1: "deep_copier copy1 V1" and d2: "deep_copier copy2 V2"
  shows "deep_copier (copy_pair copy1 copy2) (pair_view V1 V2)"
proof
  fix h h' x assume "agree (vw_foot (pair_view V1 V2) h x) h h'"
  then have "agree (vw_foot V1 h (fst x)) h h'" "agree (vw_foot V2 h (snd x)) h h'"
    by (simp_all add: pair_view_def agree_Un)
  then show "same_view (pair_view V1 V2) h h' x"
    using deep_copier.view_local [OF d1] deep_copier.view_local [OF d2] by (auto simp: same_view_def pair_view_def)
next
  fix h x x' h' assume s: "sound (pair_view V1 V2) h x" and c: "copy_pair copy1 copy2 x h = (x', h')"
  obtain v h1 where c1: "copy1 (fst x) h = (v, h1)" by fastforce
  obtain u where c2: "copy2 (snd x) h1 = (u, h')" "x' = (v, u)"
    using c c1 by (auto simp: copy_pair_def split: prod.splits)
  have s1: "sound V1 h (fst x)" and s2: "sound V2 h (snd x)" using s by (auto simp: sound_def pair_view_def)
  note d1 = deep_copier.step [OF d1 s1 grows_refl c1]
  note d2 = deep_copier.step [OF d2 s2 d1(1) c2(1)]
  from d1 d2(1) d2(2) [OF grows_refl] show "grows h h' \<and> copy_of (pair_view V1 V2) h x h' x'"
    by (auto simp: copy_of_def pair_view_def c2(2) intro: grows_trans)
qed

lemma deep_struct [deep_intros]:
  assumes "deep_copier copy V" "\<And>x. unpack (pack x) = x"
  shows "deep_copier (copy_struct unpack pack copy) (struct_view unpack V)"
proof
  fix h h' v assume "agree (vw_foot (struct_view unpack V) h v) h h'"
  then show "same_view (struct_view unpack V) h h' v"
    using deep_copier.view_local [OF assms(1), of h "unpack v" h'] by (simp add: same_view_def struct_view_def)
next
  fix h v v' h' assume "sound (struct_view unpack V) h v" "copy_struct unpack pack copy v h = (v', h')"
  then show "grows h h' \<and> copy_of (struct_view unpack V) h v h' v'"
    using deep_copier.copied [OF assms(1), of h "unpack v"] assms(2)
    by (auto simp: sound_def struct_view_def copy_struct_def copy_of_def split: prod.splits)
qed

text \<open>A value of one of two types.\<close>

lemma deep_sum [deep_intros]:
  assumes d1: "deep_copier copy1 V1" and d2: "deep_copier copy2 V2"
  shows "deep_copier (copy_sum copy1 copy2) (sum_view V1 V2)"
proof
  fix h h' x assume "agree (vw_foot (sum_view V1 V2) h x) h h'"
  then show "same_view (sum_view V1 V2) h h' x"
    using deep_copier.view_local [OF d1, of h _ h'] deep_copier.view_local [OF d2, of h _ h']
    by (cases x) (auto simp: same_view_def sum_view_def)
next
  fix h x x' h' assume s: "sound (sum_view V1 V2) h x" and c: "copy_sum copy1 copy2 x h = (x', h')"
  have view: "sound (sum_view V1 V2) h (Inl v) = sound V1 h v" "sound (sum_view V1 V2) h (Inr u) = sound V2 h u"
    "copy_of (sum_view V1 V2) h (Inl v) h' (Inl v') = copy_of V1 h v h' v'"
    "copy_of (sum_view V1 V2) h (Inr u) h' (Inr u') = copy_of V2 h u h' u'" for v u v' u'
    by (simp_all add: sound_def copy_of_def sum_view_def)
  show "grows h h' \<and> copy_of (sum_view V1 V2) h x h' x'"
    using s c by (cases x)
      (auto simp: copy_sum_def view map_prod_def split: prod.splits
        intro: deep_copier.copied [OF d1, THEN conjunct1] deep_copier.copied [OF d1, THEN conjunct2]
          deep_copier.copied [OF d2, THEN conjunct1] deep_copier.copied [OF d2, THEN conjunct2])
qed

text \<open>Slices.\<close>

lemma list_step:
  assumes d: "deep_copier copy V"
  assumes "sound (list_view V) h0 vs" "grows h0 h" "copy_list copy vs h = (vs', h1)"
  shows "grows h h1 \<and> (\<forall>h2. grows h1 h2 \<longrightarrow> copy_of (list_view V) h0 vs h2 vs')"
  using assms(2-)
proof (induction vs arbitrary: h vs')
  case Nil
  then show ?case by (simp add: copy_of_def list_view_def)
next
  case (Cons v vs)
  obtain v1 k where c: "copy v h = (v1, k)" by fastforce
  obtain ws where cs: "copy_list copy vs k = (ws, h1)" "vs' = v1 # ws"
    using Cons.prems(3) c by (auto split: prod.splits)
  have s: "sound V h0 v" "sound (list_view V) h0 vs" using Cons.prems(1) by (auto simp: sound_def list_view_def)
  note st = deep_copier.step [OF d s(1) Cons.prems(2) c]
  note ih = Cons.IH [OF s(2) grows_trans [OF Cons.prems(2) st(1)] cs(1)]
  show ?case
    using ih st(2) [OF grows_trans [OF conjunct1 [OF ih]]] grows_trans [OF st(1)] cs(2)
    by (auto simp: copy_of_def list_view_def)
qed

lemma list_view_local:
  assumes "deep_copier copy V" "agree (vw_foot (list_view V) h vs) h h'"
  shows "same_view (list_view V) h h' vs"
proof -
  have "same_view V h h' v" if "v \<in> set vs" for v
    using assms that deep_copier.view_local [OF assms(1)] by (simp add: list_view_def agree_UN)
  then show ?thesis by (simp add: same_view_def list_view_def)
qed

lemma deep_list [deep_intros]: "deep_copier copy V \<Longrightarrow> deep_copier (copy_list copy) (list_view V)"
  by (rule deep_copier.intro, erule (1) list_view_local)
    (drule (1) list_step [OF _ _ grows_refl], assumption, use grows_refl in blast)

text \<open>Maps. The entries are copied like a slice of pairs.\<close>

lemma copy_entries_list:
  "copy_entries copy es out h =
     (let (es', h') = copy_list (copy_pair copy_value copy) es h in (fold (\<lambda>(k, v). fmupd k v) es' out, h'))"
  by (induction es arbitrary: out h) (auto simp: copy_pair_def copy_value_def split: prod.splits)

abbreviation entry_view :: "('c, 'v, 'a) view \<Rightarrow> ('c, (string \<times> 'v) list, (string \<times> 'a) list) view" where
  "entry_view V \<equiv> list_view (pair_view value_view V)"

lemma fold_fmupd: "distinct (map fst es) \<Longrightarrow> fold (\<lambda>(k, v). fmupd k v) es out = out ++\<^sub>f fmap_of_list es"
proof (induction es arbitrary: out)
  case (Cons e es)
  obtain k v where e: "e = (k, v)" by fastforce
  have "k |\<notin>| fmdom (fmap_of_list es)" using Cons.prems e by (auto simp: fset_of_list.rep_eq)
  then show ?case using Cons e
    by (auto intro!: fmap_ext simp: fmdom_notI dest: fmdom_notD)
qed simp

lemma fmran'_of_list: "distinct (map fst es) \<Longrightarrow> fmran' (fmap_of_list es) = snd ` set es"
  by (force simp: fmlookup_ran'_iff fmlookup_of_list image_iff dest: map_of_SomeD)

lemma fmran'_single [simp]: "fmran' (fmupd k v fmempty) = {v}"
  using fmran'_of_list [of "[(k, v)]"] by simp

lemma entry_view_val: "vw_val (entry_view V) h es = map (apsnd (vw_val V h)) es"
  by (auto simp: list_view_def pair_view_def value_view_def apsnd_def map_prod_def)

text \<open>A map is viewed as its list of entries is.\<close>

lemma map_view_entries:
  assumes "distinct (map fst es)"
  shows "vw_val (map_view V) h (fmap_of_list es) = fmap_of_list (vw_val (entry_view V) h es)"
    "vw_foot (map_view V) h (fmap_of_list es) = vw_foot (entry_view V) h es"
    "vw_wt (map_view V) h (fmap_of_list es) = vw_wt (entry_view V) h es"
  unfolding entry_view_val fmmap_of_list [symmetric]
  using fmran'_of_list [OF assms] by (simp_all add: map_view_def list_view_def pair_view_def value_view_def)

lemma map_copied:
  assumes d: "deep_copier copy V" and o: "map_order_ok ord"
    and s: "sound (map_view V) h m" and c: "copy_map ord copy m h = (m', h')"
  shows "grows h h' \<and> copy_of (map_view V) h m h' m'"
proof -
  have m: "distinct (map fst (ord m))" "fmap_of_list (ord m) = m" using o by (auto simp: map_order_ok_def)
  note view_m = map_view_entries [OF m(1), unfolded m(2)]
  obtain es where es: "copy_list (copy_pair copy_value copy) (ord m) h = (es, h')" "m' = fold (\<lambda>(k, v). fmupd k v) es fmempty"
    using c by (auto simp: copy_map_def copy_entries_list split: prod.splits)
  have dl: "deep_copier (copy_list (copy_pair copy_value copy)) (entry_view V)" by (intro deep_intros d)
  have "sound (entry_view V) h (ord m)" using s by (simp add: sound_def view_m)
  note k = deep_copier.copied [OF dl this es(1)]
  then have v: "vw_val (entry_view V) h' es = vw_val (entry_view V) h (ord m)" by (simp add: copy_of_def)
  have "map fst es = map fst (ord m)"
    using arg_cong [OF v, of "map fst"] by (simp add: entry_view_val comp_def)
  then have de: "distinct (map fst es)" using m(1) by simp
  then have m': "m' = fmap_of_list es" by (simp add: es(2) fold_fmupd)
  show ?thesis using k v unfolding copy_of_def m' map_view_entries [OF de] view_m by simp
qed

lemma map_view_local:
  assumes "deep_copier copy V" "agree (vw_foot (map_view V) h m) h h'"
  shows "same_view (map_view V) h h' m"
proof -
  have "same_view V h h' v" if "v \<in> fmran' m" for v
    using assms that deep_copier.view_local [OF assms(1)] by (simp add: map_view_def agree_UN)
  then show ?thesis by (auto simp: same_view_def map_view_def intro!: fmap.map_cong)
qed

lemma deep_map [deep_intros]:
  "map_order_ok ord \<Longrightarrow> deep_copier copy V \<Longrightarrow> deep_copier (copy_map ord copy) (map_view V)"
  by (rule deep_copier.intro, erule (1) map_view_local) (rule map_copied)

lemma sorted_order_ok: "map_order_ok (sorted_list_of_fmap :: 'v map_order)"
proof -
  have "fmap_of_list (sorted_list_of_fmap m) = m" for m :: "(string, 'v) fmap"
    by (intro fmap_ext) (simp add: fmlookup_of_list)
  moreover have "distinct (map fst (sorted_list_of_fmap m))" for m :: "(string, 'v) fmap"
    by (simp add: sorted_list_of_fmap_def comp_def sorted_list_of_fset.rep_eq)
  ultimately show ?thesis by (simp add: map_order_ok_def)
qed

end
