(* ===== verification/Deep_Copy.thy ===== *)
theory Deep_Copy
  imports Gslb_Api Heap_Copy
begin

text \<open>
  The deep copies of the API objects: the hand-written \<^verbatim>\<open>DeepCopyInto\<close> methods of
  \<^verbatim>\<open>api/v1beta1/upstream_types.go\<close> and the methods of \<^verbatim>\<open>zz_generated.deepcopy.go\<close>. Elsewhere objects are
  values; here pointers matter, because the point of a deep copy is that the copy shares no memory
  with the original.

  The structs of the Kubernetes libraries (backend, TLS entry, HTTP section, object and list metadata)
  and what they point to are of the one type \<open>'s\<close>. Their \<^verbatim>\<open>DeepCopyInto\<close> methods and their views are
  parameters, with the contract of \<open>Heap_Copy\<close> as the locale \<open>library_copiers\<close>.
\<close>

section \<open>Structs and cells\<close>

record rule_val =
  rv_host :: string
  rv_http :: "addr option"

record spec_val =
  sv_ingressClassName :: "addr option"
  sv_backend :: "addr option"
  sv_tls :: "addr option"
  sv_rules :: "addr option"

record gspec_val =
  gv_ingress :: spec_val
  gv_strategy :: Strategy

record status_val =
  tv_serviceHealth :: "addr option"
  tv_healthyRecords :: "addr option"
  tv_geoTag :: string

record type_meta =
  tm_kind :: string
  tm_apiVersion :: string

record 's gslb_val =
  ov_typeMeta :: type_meta
  ov_objectMeta :: 's
  ov_spec :: gspec_val
  ov_status :: status_val

record 's list_val =
  lv_typeMeta :: type_meta
  lv_listMeta :: 's
  lv_items :: "addr option"

text \<open>What a cell can hold: the types a pointer, a slice or a map of the API leads to, the structs that
  \<^verbatim>\<open>DeepCopy\<close> allocates, and the cells of the libraries.\<close>

datatype 's cell =
    is_String: CString (get_string: string)
  | is_Strings: CStrings (get_strings: "string list")
  | is_Health: CHealth (get_health: "(string, string) fmap")
  | is_Records: CRecords (get_records: "(string, addr option) fmap")
  | is_Lib: CLib (get_lib: 's)
  | is_Libs: CLibs (get_libs: "'s list")
  | is_Rules: CRules (get_rules: "rule_val list")
  | is_Items: CItems (get_items: "'s gslb_val list")
  | is_Rule: CRule (get_rule: rule_val)
  | is_RuleValue: CRuleValue (get_ruleValue: "addr option")
  | is_Spec: CSpec (get_spec: spec_val)
  | is_Strategy: CStrategy (get_strategy: Strategy)
  | is_GslbSpec: CGslbSpec (get_gslbSpec: gspec_val)
  | is_Status: CStatus (get_status: status_val)
  | is_Gslb: CGslb (get_gslb: "'s gslb_val")
  | is_GslbList: CGslbList (get_gslbList: "'s list_val")

definition t_string where "t_string = \<lparr>ct_mk = CString, ct_get = get_string, ct_is = is_String\<rparr>"
definition t_strings where "t_strings = \<lparr>ct_mk = CStrings, ct_get = get_strings, ct_is = is_Strings\<rparr>"
definition t_health where "t_health = \<lparr>ct_mk = CHealth, ct_get = get_health, ct_is = is_Health\<rparr>"
definition t_records where "t_records = \<lparr>ct_mk = CRecords, ct_get = get_records, ct_is = is_Records\<rparr>"
definition t_lib where "t_lib = \<lparr>ct_mk = CLib, ct_get = get_lib, ct_is = is_Lib\<rparr>"
definition t_libs where "t_libs = \<lparr>ct_mk = CLibs, ct_get = get_libs, ct_is = is_Libs\<rparr>"
definition t_rules where "t_rules = \<lparr>ct_mk = CRules, ct_get = get_rules, ct_is = is_Rules\<rparr>"
definition t_items where "t_items = \<lparr>ct_mk = CItems, ct_get = get_items, ct_is = is_Items\<rparr>"
definition t_rule where "t_rule = \<lparr>ct_mk = CRule, ct_get = get_rule, ct_is = is_Rule\<rparr>"
definition t_ruleValue where "t_ruleValue = \<lparr>ct_mk = CRuleValue, ct_get = get_ruleValue, ct_is = is_RuleValue\<rparr>"
definition t_spec where "t_spec = \<lparr>ct_mk = CSpec, ct_get = get_spec, ct_is = is_Spec\<rparr>"
definition t_strategy where "t_strategy = \<lparr>ct_mk = CStrategy, ct_get = get_strategy, ct_is = is_Strategy\<rparr>"
definition t_gslbSpec where "t_gslbSpec = \<lparr>ct_mk = CGslbSpec, ct_get = get_gslbSpec, ct_is = is_GslbSpec\<rparr>"
definition t_status where "t_status = \<lparr>ct_mk = CStatus, ct_get = get_status, ct_is = is_Status\<rparr>"
definition t_gslb where "t_gslb = \<lparr>ct_mk = CGslb, ct_get = get_gslb, ct_is = is_Gslb\<rparr>"
definition t_gslbList where "t_gslbList = \<lparr>ct_mk = CGslbList, ct_get = get_gslbList, ct_is = is_GslbList\<rparr>"

text \<open>The methods of the libraries, and the order in which \<^verbatim>\<open>range\<close> visits the two kinds of maps.\<close>

record 's library =
  lb_backend :: "('s cell, 's) copier"
  lb_tls :: "('s cell, 's) copier"
  lb_http :: "('s cell, 's) copier"
  lb_objectMeta :: "('s cell, 's) copier"
  lb_listMeta :: "('s cell, 's) copier"
  lb_order :: "string map_order"
  lb_orders :: "addr option map_order"

section \<open>Hand-written methods\<close>

definition IngressRuleValue_DeepCopyInto :: "'s library \<Rightarrow> ('s cell, addr option) copier" where
  "IngressRuleValue_DeepCopyInto L = copy_ptr t_lib (lb_http L)"

definition IngressRule_DeepCopyInto :: "'s library \<Rightarrow> ('s cell, rule_val) copier" where
  "IngressRule_DeepCopyInto L r h =
     (let (p, h) = IngressRuleValue_DeepCopyInto L (rv_http r) h in (r\<lparr>rv_http := p\<rparr>, h))"

definition IngressSpec_DeepCopyInto :: "'s library \<Rightarrow> ('s cell, spec_val) copier" where
  "IngressSpec_DeepCopyInto L s h =
     (let (c, h) = copy_ptr t_string copy_value (sv_ingressClassName s) h;
          (b, h) = copy_ptr t_lib (lb_backend L) (sv_backend s) h;
          (t, h) = copy_ptr t_libs (copy_list (lb_tls L)) (sv_tls s) h;
          (r, h) = copy_ptr t_rules (copy_list (IngressRule_DeepCopyInto L)) (sv_rules s) h
      in (\<lparr>sv_ingressClassName = c, sv_backend = b, sv_tls = t, sv_rules = r\<rparr>, h))"

section \<open>Generated methods\<close>

definition Strategy_DeepCopyInto :: "('s cell, Strategy) copier" where
  "Strategy_DeepCopyInto = copy_value"

definition GslbSpec_DeepCopyInto :: "'s library \<Rightarrow> ('s cell, gspec_val) copier" where
  "GslbSpec_DeepCopyInto L s h =
     (let (i, h) = IngressSpec_DeepCopyInto L (gv_ingress s) h in (s\<lparr>gv_ingress := i\<rparr>, h))"

text \<open>The values of the second map are slices, each of which gets an array of its own unless it is nil.\<close>

definition GslbStatus_DeepCopyInto :: "'s library \<Rightarrow> ('s cell, status_val) copier" where
  "GslbStatus_DeepCopyInto L s h =
     (let (sh, h) = copy_ptr t_health (copy_map (lb_order L) copy_value) (tv_serviceHealth s) h;
          (hr, h) = copy_ptr t_records (copy_map (lb_orders L) (copy_ptr t_strings copy_value)) (tv_healthyRecords s) h
      in (s\<lparr>tv_serviceHealth := sh, tv_healthyRecords := hr\<rparr>, h))"

definition Gslb_DeepCopyInto :: "'s library \<Rightarrow> ('s cell, 's gslb_val) copier" where
  "Gslb_DeepCopyInto L g h =
     (let (m, h) = lb_objectMeta L (ov_objectMeta g) h;
          (s, h) = GslbSpec_DeepCopyInto L (ov_spec g) h;
          (t, h) = GslbStatus_DeepCopyInto L (ov_status g) h
      in (\<lparr>ov_typeMeta = ov_typeMeta g, ov_objectMeta = m, ov_spec = s, ov_status = t\<rparr>, h))"

definition GslbList_DeepCopyInto :: "'s library \<Rightarrow> ('s cell, 's list_val) copier" where
  "GslbList_DeepCopyInto L l h =
     (let (m, h) = lb_listMeta L (lv_listMeta l) h;
          (i, h) = copy_ptr t_items (copy_list (Gslb_DeepCopyInto L)) (lv_items l) h
      in (\<lparr>lv_typeMeta = lv_typeMeta l, lv_listMeta = m, lv_items = i\<rparr>, h))"

text \<open>\<^verbatim>\<open>DeepCopy\<close>: nil for nil, a new struct filled by \<^verbatim>\<open>DeepCopyInto\<close> otherwise.\<close>

definition Gslb_DeepCopy where "Gslb_DeepCopy L = copy_ptr t_gslb (Gslb_DeepCopyInto L)"
definition GslbList_DeepCopy where "GslbList_DeepCopy L = copy_ptr t_gslbList (GslbList_DeepCopyInto L)"
definition GslbSpec_DeepCopy where "GslbSpec_DeepCopy L = copy_ptr t_gslbSpec (GslbSpec_DeepCopyInto L)"
definition GslbStatus_DeepCopy where "GslbStatus_DeepCopy L = copy_ptr t_status (GslbStatus_DeepCopyInto L)"
definition IngressRule_DeepCopy where "IngressRule_DeepCopy L = copy_ptr t_rule (IngressRule_DeepCopyInto L)"
definition IngressRuleValue_DeepCopy where "IngressRuleValue_DeepCopy L = copy_ptr t_ruleValue (IngressRuleValue_DeepCopyInto L)"
definition IngressSpec_DeepCopy where "IngressSpec_DeepCopy L = copy_ptr t_spec (IngressSpec_DeepCopyInto L)"
definition Strategy_DeepCopy :: "('s cell, addr option) copier" where
  "Strategy_DeepCopy = copy_ptr t_strategy Strategy_DeepCopyInto"

text \<open>An interface value \<^verbatim>\<open>runtime.Object\<close> is nil or carries the type of the pointer it holds, which could
  itself be nil.\<close>

datatype runtime_object = GslbObject "addr option" | GslbListObject "addr option"

definition Gslb_DeepCopyObject :: "'s library \<Rightarrow> addr option \<Rightarrow> 's cell heap \<Rightarrow> runtime_object option \<times> 's cell heap" where
  "Gslb_DeepCopyObject L p h =
     (let (c, h) = Gslb_DeepCopy L p h in (if c \<noteq> None then Some (GslbObject c) else None, h))"

definition GslbList_DeepCopyObject :: "'s library \<Rightarrow> addr option \<Rightarrow> 's cell heap \<Rightarrow> runtime_object option \<times> 's cell heap" where
  "GslbList_DeepCopyObject L p h =
     (let (c, h) = GslbList_DeepCopy L p h in (if c \<noteq> None then Some (GslbListObject c) else None, h))"

text \<open>A call of \<^verbatim>\<open>DeepCopyObject\<close> through the interface goes to the method of the dynamic type.\<close>

definition DeepCopyObject :: "'s library \<Rightarrow> runtime_object \<Rightarrow> 's cell heap \<Rightarrow> runtime_object option \<times> 's cell heap" where
  "DeepCopyObject L x h =
     (case x of GslbObject p \<Rightarrow> Gslb_DeepCopyObject L p h | GslbListObject p \<Rightarrow> GslbList_DeepCopyObject L p h)"

section \<open>How the objects are read\<close>

text \<open>A struct stands for the tuple of its fields with every pointer, slice and map followed.\<close>

definition rule_fields where "rule_fields r = (rv_host r, rv_http r)"
definition spec_fields where "spec_fields s = (sv_ingressClassName s, sv_backend s, sv_tls s, sv_rules s)"
definition gspec_fields where "gspec_fields s = (gv_ingress s, gv_strategy s)"
definition status_fields where "status_fields s = (tv_serviceHealth s, tv_healthyRecords s, tv_geoTag s)"
definition gslb_fields where "gslb_fields g = (ov_typeMeta g, ov_objectMeta g, ov_spec g, ov_status g)"
definition list_fields where "list_fields l = (lv_typeMeta l, lv_listMeta l, lv_items l)"

definition object_sum :: "runtime_object \<Rightarrow> addr option + addr option" where
  "object_sum x = (case x of GslbObject p \<Rightarrow> Inl p | GslbListObject p \<Rightarrow> Inr p)"

definition rule_view where
  "rule_view VH = struct_view rule_fields (pair_view value_view (ptr_view t_lib VH))"

definition spec_view where
  "spec_view VB VT VH =
     struct_view spec_fields
       (pair_view (ptr_view t_string value_view) (pair_view (ptr_view t_lib VB)
         (pair_view (ptr_view t_libs (list_view VT)) (ptr_view t_rules (list_view (rule_view VH))))))"

definition gspec_view where
  "gspec_view VB VT VH = struct_view gspec_fields (pair_view (spec_view VB VT VH) value_view)"

definition status_view where
  "status_view =
     struct_view status_fields
       (pair_view (ptr_view t_health (map_view value_view))
         (pair_view (ptr_view t_records (map_view (ptr_view t_strings value_view))) value_view))"

definition gslb_view where
  "gslb_view VB VT VH VM =
     struct_view gslb_fields (pair_view value_view (pair_view VM (pair_view (gspec_view VB VT VH) status_view)))"

definition gslbList_view where
  "gslbList_view VB VT VH VM VL =
     struct_view list_fields
       (pair_view value_view (pair_view VL (ptr_view t_items (list_view (gslb_view VB VT VH VM)))))"

definition object_view where
  "object_view VB VT VH VM VL =
     struct_view object_sum
       (sum_view (ptr_view t_gslb (gslb_view VB VT VH VM)) (ptr_view t_gslbList (gslbList_view VB VT VH VM VL)))"

section \<open>The methods are deep copies\<close>

interpretation string_cell: cell t_string by unfold_locales (simp_all add: t_string_def)
interpretation strings_cell: cell t_strings by unfold_locales (simp_all add: t_strings_def)
interpretation health_cell: cell t_health by unfold_locales (simp_all add: t_health_def)
interpretation records_cell: cell t_records by unfold_locales (simp_all add: t_records_def)
interpretation lib_cell: cell t_lib by unfold_locales (simp_all add: t_lib_def)
interpretation libs_cell: cell t_libs by unfold_locales (simp_all add: t_libs_def)
interpretation rules_cell: cell t_rules by unfold_locales (simp_all add: t_rules_def)
interpretation items_cell: cell t_items by unfold_locales (simp_all add: t_items_def)
interpretation gslb_cell: cell t_gslb by unfold_locales (simp_all add: t_gslb_def)
interpretation gslbList_cell: cell t_gslbList by unfold_locales (simp_all add: t_gslbList_def)

lemmas [deep_intros] = string_cell.cell_axioms strings_cell.cell_axioms health_cell.cell_axioms
  records_cell.cell_axioms lib_cell.cell_axioms libs_cell.cell_axioms rules_cell.cell_axioms
  items_cell.cell_axioms gslb_cell.cell_axioms gslbList_cell.cell_axioms

text \<open>Each method as the copy of its fields.\<close>

lemma rule_copy:
  "IngressRule_DeepCopyInto L =
     copy_struct rule_fields (\<lambda>(a, p). \<lparr>rv_host = a, rv_http = p\<rparr>) (copy_pair copy_value (copy_ptr t_lib (lb_http L)))"
  by (auto simp: fun_eq_iff IngressRule_DeepCopyInto_def IngressRuleValue_DeepCopyInto_def rule_fields_def
      copy_struct_def copy_pair_def copy_value_def split: prod.splits)

lemma spec_copy:
  "IngressSpec_DeepCopyInto L =
     copy_struct spec_fields (\<lambda>(c, b, t, r). \<lparr>sv_ingressClassName = c, sv_backend = b, sv_tls = t, sv_rules = r\<rparr>)
       (copy_pair (copy_ptr t_string copy_value) (copy_pair (copy_ptr t_lib (lb_backend L))
         (copy_pair (copy_ptr t_libs (copy_list (lb_tls L))) (copy_ptr t_rules (copy_list (IngressRule_DeepCopyInto L))))))"
  by (auto simp: fun_eq_iff IngressSpec_DeepCopyInto_def spec_fields_def copy_struct_def copy_pair_def split: prod.splits)

lemma gspec_copy:
  "GslbSpec_DeepCopyInto L =
     copy_struct gspec_fields (\<lambda>(i, s). \<lparr>gv_ingress = i, gv_strategy = s\<rparr>)
       (copy_pair (IngressSpec_DeepCopyInto L) copy_value)"
  by (auto simp: fun_eq_iff GslbSpec_DeepCopyInto_def gspec_fields_def copy_struct_def copy_pair_def copy_value_def
      split: prod.splits)

lemma status_copy:
  "GslbStatus_DeepCopyInto L =
     copy_struct status_fields (\<lambda>(a, b, c). \<lparr>tv_serviceHealth = a, tv_healthyRecords = b, tv_geoTag = c\<rparr>)
       (copy_pair (copy_ptr t_health (copy_map (lb_order L) copy_value))
         (copy_pair (copy_ptr t_records (copy_map (lb_orders L) (copy_ptr t_strings copy_value))) copy_value))"
  by (auto simp: fun_eq_iff GslbStatus_DeepCopyInto_def status_fields_def copy_struct_def copy_pair_def copy_value_def
      split: prod.splits)

lemma gslb_copy:
  "Gslb_DeepCopyInto L =
     copy_struct gslb_fields (\<lambda>(t, m, s, u). \<lparr>ov_typeMeta = t, ov_objectMeta = m, ov_spec = s, ov_status = u\<rparr>)
       (copy_pair copy_value (copy_pair (lb_objectMeta L) (copy_pair (GslbSpec_DeepCopyInto L) (GslbStatus_DeepCopyInto L))))"
  by (auto simp: fun_eq_iff Gslb_DeepCopyInto_def gslb_fields_def copy_struct_def copy_pair_def copy_value_def
      split: prod.splits)

lemma gslbList_copy:
  "GslbList_DeepCopyInto L =
     copy_struct list_fields (\<lambda>(t, m, i). \<lparr>lv_typeMeta = t, lv_listMeta = m, lv_items = i\<rparr>)
       (copy_pair copy_value (copy_pair (lb_listMeta L) (copy_ptr t_items (copy_list (Gslb_DeepCopyInto L)))))"
  by (auto simp: fun_eq_iff GslbList_DeepCopyInto_def list_fields_def copy_struct_def copy_pair_def copy_value_def
      split: prod.splits)

text \<open>The copy that \<^verbatim>\<open>DeepCopyObject\<close> makes before it wraps it, and when it returns nil instead.\<close>

definition object_copy :: "'s library \<Rightarrow> ('s cell, runtime_object) copier" where
  "object_copy L = copy_struct object_sum (case_sum GslbObject GslbListObject) (copy_sum (Gslb_DeepCopy L) (GslbList_DeepCopy L))"

definition nil_object :: "runtime_object \<Rightarrow> bool" where
  "nil_object x \<longleftrightarrow> x = GslbObject None \<or> x = GslbListObject None"

lemma DeepCopyObject_copy:
  "DeepCopyObject L x h = (let (y, h) = object_copy L x h in (if nil_object x then None else Some y, h))"
  by (auto simp: DeepCopyObject_def Gslb_DeepCopyObject_def GslbList_DeepCopyObject_def object_copy_def copy_struct_def
      copy_sum_def object_sum_def nil_object_def Gslb_DeepCopy_def GslbList_DeepCopy_def copy_ptr_def
      split: runtime_object.splits prod.splits option.splits)

locale library_copiers =
  backend: deep_copier "lb_backend L" VB +
  tls: deep_copier "lb_tls L" VT +
  http: deep_copier "lb_http L" VH +
  objectMeta: deep_copier "lb_objectMeta L" VM +
  listMeta: deep_copier "lb_listMeta L" VL
  for L :: "'s library" and VB VT VH VM VL +
  assumes order: "map_order_ok (lb_order L)" "map_order_ok (lb_orders L)"
begin

lemmas library_intros = backend.deep_copier_axioms tls.deep_copier_axioms http.deep_copier_axioms
  objectMeta.deep_copier_axioms listMeta.deep_copier_axioms order

lemma rule_deep: "deep_copier (IngressRule_DeepCopyInto L) (rule_view VH)"
  unfolding rule_copy rule_view_def by (intro deep_intros library_intros) (simp add: rule_fields_def split: prod.splits)

lemma spec_deep: "deep_copier (IngressSpec_DeepCopyInto L) (spec_view VB VT VH)"
  unfolding spec_copy spec_view_def
  by (intro deep_intros library_intros rule_deep) (simp add: spec_fields_def split: prod.splits)

lemma gspec_deep: "deep_copier (GslbSpec_DeepCopyInto L) (gspec_view VB VT VH)"
  unfolding gspec_copy gspec_view_def
  by (intro deep_intros spec_deep) (simp add: gspec_fields_def split: prod.splits)

lemma status_deep: "deep_copier (GslbStatus_DeepCopyInto L) status_view"
  unfolding status_copy status_view_def
  by (intro deep_intros library_intros) (simp add: status_fields_def split: prod.splits)

lemma gslb_deep: "deep_copier (Gslb_DeepCopyInto L) (gslb_view VB VT VH VM)"
  unfolding gslb_copy gslb_view_def
  by (intro deep_intros library_intros gspec_deep status_deep) (simp add: gslb_fields_def split: prod.splits)

lemma gslbList_deep: "deep_copier (GslbList_DeepCopyInto L) (gslbList_view VB VT VH VM VL)"
  unfolding gslbList_copy gslbList_view_def
  by (intro deep_intros library_intros gslb_deep) (simp add: list_fields_def split: prod.splits)

lemma object_deep: "deep_copier (object_copy L) (object_view VB VT VH VM VL)"
  unfolding object_copy_def object_view_def Gslb_DeepCopy_def GslbList_DeepCopy_def
  by (intro deep_intros gslb_deep gslbList_deep) (simp add: object_sum_def split: sum.splits)

lemmas object_independent = deep_copier.independent [OF object_deep]

lemma object_grows: "sound (object_view VB VT VH VM VL) h x \<Longrightarrow> object_copy L x h = (y, h') \<Longrightarrow> grows h h'"
  using deep_copier.copied [OF object_deep] by blast

lemmas object_grown = deep_copier.grown(2) [OF object_deep]

end

lemma same_object:
  assumes "vw_val (object_view VB VT VH VM VL) h' y = vw_val (object_view VB VT VH VM VL) h x"
  shows "isl (object_sum y) = isl (object_sum x)" "nil_object y = nil_object x"
  using assms
  by (cases x; cases y; auto simp: object_view_def struct_view_def sum_view_def object_sum_def ptr_view_def nil_object_def)+

section \<open>A library\<close>

text \<open>The shape of \<^verbatim>\<open>IngressTLS\<close>: a string and a slice of strings, copied by the generated method of
  such a struct. It stands for all structs of the libraries.\<close>

datatype lib_struct = LStruct string "addr option" | LStrings "string list"

definition lib_DeepCopyInto :: "(lib_struct cell, lib_struct) copier" where
  "lib_DeepCopyInto s h =
     (case s of
        LStruct n p \<Rightarrow> (let (q, h) = copy_ptr t_lib copy_value p h in (LStruct n q, h))
      | LStrings ss \<Rightarrow> (LStrings ss, h))"

definition lib_fields where
  "lib_fields s = (case s of LStruct n p \<Rightarrow> Inl (n, p) | LStrings ss \<Rightarrow> Inr ss)"

definition lib_view where
  "lib_view = struct_view lib_fields (sum_view (pair_view value_view (ptr_view t_lib value_view)) value_view)"

definition k8s_library :: "lib_struct library" where
  "k8s_library = \<lparr>lb_backend = lib_DeepCopyInto, lb_tls = lib_DeepCopyInto, lb_http = lib_DeepCopyInto,
     lb_objectMeta = lib_DeepCopyInto, lb_listMeta = lib_DeepCopyInto,
     lb_order = sorted_list_of_fmap, lb_orders = sorted_list_of_fmap\<rparr>"

lemma lib_copy:
  "lib_DeepCopyInto =
     copy_struct lib_fields (case_sum (\<lambda>(n, p). LStruct n p) LStrings)
       (copy_sum (copy_pair copy_value (copy_ptr t_lib copy_value)) copy_value)"
  by (auto simp: fun_eq_iff lib_DeepCopyInto_def lib_fields_def copy_struct_def copy_sum_def copy_pair_def copy_value_def
      split: lib_struct.splits prod.splits)

lemma lib_deep: "deep_copier lib_DeepCopyInto lib_view"
  unfolding lib_copy lib_view_def by (intro deep_intros) (simp add: lib_fields_def split: sum.splits)

interpretation k8s: library_copiers k8s_library lib_view lib_view lib_view lib_view lib_view
  by (intro library_copiers.intro library_copiers_axioms.intro)
    (simp_all add: k8s_library_def lib_deep sorted_order_ok)

section \<open>Properties\<close>

text \<open>C25. \<^verbatim>\<open>DeepCopyObject\<close> of a Gslb or a list of Gslbs makes an object that stands for the same resource
  and shares no memory with the original, provided the library's methods do so for their structs:
  no allocated cell changes, the two reach disjoint sets of cells, and however the cells of one are
  overwritten later, the other still reads as the original did.\<close>

theorem object_copy_independent:
  assumes "library_copiers L VB VT VH VM VL" "sound (object_view VB VT VH VM VL) h x" "DeepCopyObject L x h = (Some y, h')"
  shows "vw_val (object_view VB VT VH VM VL) h' y = vw_val (object_view VB VT VH VM VL) h x \<and>
    vw_val (object_view VB VT VH VM VL) h' x = vw_val (object_view VB VT VH VM VL) h x \<and>
    (\<forall>a < hp_lim h. hp_cell h' a = hp_cell h a) \<and>
    vw_foot (object_view VB VT VH VM VL) h' y \<inter> vw_foot (object_view VB VT VH VM VL) h' x = {} \<and>
    (agree (- vw_foot (object_view VB VT VH VM VL) h' y) h' h'' \<longrightarrow>
       vw_val (object_view VB VT VH VM VL) h'' x = vw_val (object_view VB VT VH VM VL) h x) \<and>
    (agree (- vw_foot (object_view VB VT VH VM VL) h' x) h' h'' \<longrightarrow>
       vw_val (object_view VB VT VH VM VL) h'' y = vw_val (object_view VB VT VH VM VL) h x)"
proof -
  have c: "object_copy L x h = (y, h')"
    using assms(3) by (auto simp: DeepCopyObject_copy split: prod.splits if_splits)
  have "\<forall>a < hp_lim h. hp_cell h' a = hp_cell h a"
    using library_copiers.object_grows [OF assms(1,2) c] by (simp add: grows_def agree_def)
  then show ?thesis using library_copiers.object_independent [OF assms(1,2) c] by blast
qed

text \<open>C26. \<^verbatim>\<open>DeepCopyObject\<close> keeps the heap well-typed: called on a pointer all of whose fields lead to
  allocated cells of their declared types, it returns nil exactly for a nil pointer, and otherwise an
  interface value that holds a non-nil pointer of the same dynamic type, again with all its fields
  leading to allocated cells of their types. And no cell that was allocated changes, so every object
  that was well-typed in the heap before, the receiver or any other, still is.\<close>

theorem object_copy_typed:
  assumes "library_copiers L VB VT VH VM VL" "sound (object_view VB VT VH VM VL) h x" "DeepCopyObject L x h = (r, h')"
  shows "(r = None \<longleftrightarrow> nil_object x) \<and> hp_lim h \<le> hp_lim h' \<and> (\<forall>a < hp_lim h. hp_cell h' a = hp_cell h a) \<and>
    (\<forall>z. sound (object_view VB VT VH VM VL) h z \<longrightarrow> sound (object_view VB VT VH VM VL) h' z) \<and>
    (\<forall>y. r = Some y \<longrightarrow> isl (object_sum y) = isl (object_sum x) \<and> \<not> nil_object y \<and> sound (object_view VB VT VH VM VL) h' y)"
proof -
  obtain y where c: "object_copy L x h = (y, h')" "r = (if nil_object x then None else Some y)"
    using assms(3) by (auto simp: DeepCopyObject_copy split: prod.splits)
  note i = library_copiers.object_independent [OF assms(1,2) c(1)]
  note o = library_copiers.object_grows [OF assms(1,2) c(1)]
  then have "hp_lim h \<le> hp_lim h' \<and> (\<forall>a < hp_lim h. hp_cell h' a = hp_cell h a)" by (simp add: grows_def agree_def)
  then show ?thesis using library_copiers.object_grown [OF assms(1) _ o] i(6) same_object [OF i(1)] c(2) by auto
qed

text \<open>A heap with one Gslb at address 11: an ingress class, a backend, a TLS entry with its hosts, a rule
  with its HTTP section, and a status with the health and the healthy records of its host.\<close>

definition sample_cell :: "addr \<Rightarrow> lib_struct cell" where
  "sample_cell a =
     [CString ''nginx'', CLib (LStruct ''frontend'' None), CLibs [LStruct ''secret'' (Some 3)],
      CLib (LStrings [''app.example.com'']), CRules [\<lparr>rv_host = ''app.example.com'', rv_http = Some 5\<rparr>],
      CLib (LStruct ''http'' (Some 6)), CLib (LStrings [''/'']), CHealth (fmap_of_list [(''app.example.com'', ''Healthy'')]),
      CRecords (fmap_of_list [(''app.example.com'', Some 9)]), CStrings [''10.0.0.1''],
      CLib (LStrings [''k8gb.absa.oss/finalizer'']),
      CGslb \<lparr>ov_typeMeta = \<lparr>tm_kind = ''Gslb'', tm_apiVersion = ''k8gb.absa.oss/v1beta1''\<rparr>, ov_objectMeta = LStruct ''web'' (Some 10),
        ov_spec = \<lparr>gv_ingress = \<lparr>sv_ingressClassName = Some 0, sv_backend = Some 1, sv_tls = Some 2, sv_rules = Some 4\<rparr>,
          gv_strategy = \<lparr>st_type = ''failover'', st_primaryGeoTag = ''eu'', st_dnsTtlSeconds = 30, st_splitBrainThresholdSeconds = 300\<rparr>\<rparr>,
        ov_status = \<lparr>tv_serviceHealth = Some 7, tv_healthyRecords = Some 8, tv_geoTag = ''eu''\<rparr>\<rparr>] ! a"

definition sample_heap :: "lib_struct cell heap" where
  "sample_heap = \<lparr>hp_lim = 12, hp_cell = sample_cell\<rparr>"

lemmas view_evals = object_view_def gslb_view_def gspec_view_def spec_view_def rule_view_def status_view_def lib_view_def
  struct_view_def sum_view_def pair_view_def ptr_view_def list_view_def map_view_def value_view_def
  object_sum_def gslb_fields_def gspec_fields_def spec_fields_def rule_fields_def status_fields_def lib_fields_def
  read_def t_string_def t_strings_def t_health_def t_records_def t_lib_def t_libs_def t_rules_def t_gslb_def

lemmas sample_evals = sample_heap_def sample_cell_def nth_Cons'

abbreviation k8s_view where "k8s_view \<equiv> object_view lib_view lib_view lib_view lib_view lib_view"

lemma sample_foot: "vw_foot k8s_view sample_heap (GslbObject (Some 11)) = {0, 1, 2, 3, 4, 5, 6, 7, 8, 9, 10, 11}"
  by (auto simp: view_evals sample_evals)

lemma sample_sound: "sound k8s_view sample_heap (GslbObject (Some 11))"
  unfolding sound_def sample_foot by (simp add: view_evals sample_evals)

lemma sample_copied:
  "\<exists>y h'. DeepCopyObject k8s_library (GslbObject (Some 11)) sample_heap = (Some y, h') \<and>
     vw_foot k8s_view h' (GslbObject (Some 11)) = {0, 1, 2, 3, 4, 5, 6, 7, 8, 9, 10, 11}"
proof -
  obtain y h' where c: "object_copy k8s_library (GslbObject (Some 11)) sample_heap = (y, h')" by fastforce
  have "same_view k8s_view sample_heap h' (GslbObject (Some 11))"
    using deep_copier.grown(1) [OF k8s.object_deep sample_sound] deep_copier.copied [OF k8s.object_deep sample_sound c] by blast
  with c sample_foot show ?thesis by (simp add: DeepCopyObject_copy nil_object_def same_view_def)
qed

text \<open>Overwriting the hosts of the original's TLS entry does not show in the copy.\<close>

theorem object_copy_independent_witness:
  "\<exists>y h'. DeepCopyObject k8s_library (GslbObject (Some 11)) sample_heap = (Some y, h') \<and>
     hp_cell (put t_lib 3 (LStrings [''evil'']) h') 3 = CLib (LStrings [''evil'']) \<and>
     vw_val k8s_view (put t_lib 3 (LStrings [''evil'']) h') y = vw_val k8s_view sample_heap (GslbObject (Some 11))"
proof -
  obtain y h' where c: "DeepCopyObject k8s_library (GslbObject (Some 11)) sample_heap = (Some y, h')"
    and f: "vw_foot k8s_view h' (GslbObject (Some 11)) = {0, 1, 2, 3, 4, 5, 6, 7, 8, 9, 10, 11}"
    using sample_copied by blast
  have "agree (- vw_foot k8s_view h' (GslbObject (Some 11))) h' (put t_lib 3 (LStrings [''evil'']) h')"
    by (rule agree_mono [OF put_frame(1)]) (simp add: f)
  then have "vw_val k8s_view (put t_lib 3 (LStrings [''evil'']) h') y = vw_val k8s_view sample_heap (GslbObject (Some 11))"
    using object_copy_independent [OF k8s.library_copiers_axioms sample_sound c] by blast
  then show ?thesis using c by (auto simp: put_def t_lib_def)
qed

theorem object_copy_typed_witness:
  "\<exists>q h'. DeepCopyObject k8s_library (GslbObject (Some 11)) sample_heap = (Some (GslbObject (Some q)), h') \<and>
     sound k8s_view h' (GslbObject (Some q)) \<and>
     DeepCopyObject k8s_library (GslbListObject None) sample_heap = (None, sample_heap)"
proof -
  obtain r h' where c: "DeepCopyObject k8s_library (GslbObject (Some 11)) sample_heap = (r, h')" by fastforce
  note t = object_copy_typed [OF k8s.library_copiers_axioms sample_sound c]
  then obtain y where y: "r = Some y" "isl (object_sum y)" "\<not> nil_object y" "sound k8s_view h' y"
    by (auto simp: nil_object_def object_sum_def)
  then obtain q where "y = GslbObject (Some q)"
    by (cases y) (auto simp: nil_object_def object_sum_def)
  with c y show ?thesis
    by (auto simp: DeepCopyObject_def GslbList_DeepCopyObject_def GslbList_DeepCopy_def copy_ptr_def)
qed

end
