(* ===== verification/Fake_Dns.thy ===== *)
theory Fake_Dns
  imports Prelude
begin

text \<open>
  \<^verbatim>\<open>controllers/internal/utils/fakedns.go\<close>: the DNS server that the tests run the controller against.
  First its records and the answer to a query; then \<^verbatim>\<open>Start\<close> and \<^verbatim>\<open>RunTestFunc\<close>, whose goroutines share
  the field \<^verbatim>\<open>err\<close>, as a step relation in which they interleave.

  The package \<^verbatim>\<open>miekg/dns\<close> is a parameter: the text of a record and the reply made of a request,
  with the laws of the locale \<open>dns_text\<close>. Whether a probe is answered, whether listening fails and
  what \<^verbatim>\<open>Shutdown\<close> reports is the choice of the environment.
\<close>

section \<open>Records\<close>

text \<open>\<^verbatim>\<open>net.IP\<close> is a slice of bytes; a nil slice is the empty list.\<close>

type_synonym ip = "8 word list"

definition v4InV6Prefix :: ip where "v4InV6Prefix = replicate 10 0 @ [255, 255]"

definition To4 :: "ip \<Rightarrow> ip" where
  "To4 ip =
     (if length ip = 4 then ip
      else if length ip = 16 \<and> take 12 ip = v4InV6Prefix then drop 12 ip else [])"

definition To16 :: "ip \<Rightarrow> ip" where
  "To16 ip = (if length ip = 4 then v4InV6Prefix @ ip else if length ip = 16 then ip else [])"

definition TypeA :: "16 word" where "TypeA = 1"
definition TypeNS :: "16 word" where "TypeNS = 2"
definition TypeTXT :: "16 word" where "TypeTXT = 16"
definition TypeAAAA :: "16 word" where "TypeAAAA = 28"
definition ClassINET :: "16 word" where "ClassINET = 1"

datatype rdata = TXT "string list" | NS string | A ip

record rr =
  rr_name :: string
  rr_type :: "16 word"
  rr_class :: "16 word"
  rr_ttl :: "32 word"
  rr_data :: rdata

record FakeDNSSettings =
  FakeDNSPort :: int
  EdgeDNSZoneFQDN :: string
  DNSZoneFQDN :: string

record DNSMock =
  dm_settings :: FakeDNSSettings
  dm_records :: "16 word \<Rightarrow> rr list option"
  dm_addr :: string

definition NewFakeDNS :: "FakeDNSSettings \<Rightarrow> DNSMock" where
  "NewFakeDNS settings =
     \<lparr>dm_settings = settings, dm_records = (\<lambda>_. None),
      dm_addr = sprintf ''[::]:%v'' [itoa (FakeDNSPort settings)]\<rparr>"

text \<open>\<^verbatim>\<open>m.records[t] = append(m.records[t], rr)\<close>.\<close>

definition append_record :: "16 word \<Rightarrow> rr \<Rightarrow> DNSMock \<Rightarrow> DNSMock" where
  "append_record t rr m = m\<lparr>dm_records := (dm_records m)(t := Some (elems (dm_records m t) @ [rr]))\<rparr>"

definition AddTXTRecord :: "string \<Rightarrow> string list \<Rightarrow> DNSMock \<Rightarrow> DNSMock" where
  "AddTXTRecord fqdn strings m =
     append_record TypeTXT
       \<lparr>rr_name = fqdn, rr_type = TypeTXT, rr_class = ClassINET, rr_ttl = 0, rr_data = TXT strings\<rparr> m"

definition AddNSRecord :: "string \<Rightarrow> string \<Rightarrow> DNSMock \<Rightarrow> DNSMock" where
  "AddNSRecord fqdn nsName m =
     append_record TypeNS
       \<lparr>rr_name = fqdn, rr_type = TypeNS, rr_class = ClassINET, rr_ttl = 0, rr_data = NS nsName\<rparr> m"

definition AddARecord :: "string \<Rightarrow> ip \<Rightarrow> DNSMock \<Rightarrow> DNSMock" where
  "AddARecord fqdn ip m =
     append_record TypeA
       \<lparr>rr_name = fqdn, rr_type = TypeA, rr_class = ClassINET, rr_ttl = 0, rr_data = A (To4 ip)\<rparr> m"

definition AddAAAARecord :: "ip \<Rightarrow> DNSMock \<Rightarrow> DNSMock" where
  "AddAAAARecord ip m =
     append_record TypeAAAA
       \<lparr>rr_name = DNSZoneFQDN (dm_settings m), rr_type = TypeAAAA, rr_class = ClassINET, rr_ttl = 0,
        rr_data = A (To16 ip)\<rparr> m"

section \<open>The answer to a query\<close>

record question =
  q_name :: string
  q_type :: "16 word"

record msg =
  msg_id :: "16 word"
  msg_response :: bool
  msg_compress :: bool
  msg_question :: "question list"
  msg_answer :: "rr list"

definition empty_msg :: msg where
  "empty_msg = \<lparr>msg_id = 0, msg_response = False, msg_compress = False, msg_question = [], msg_answer = []\<rparr>"

text \<open>What is used of \<^verbatim>\<open>miekg/dns\<close>: \<^verbatim>\<open>RR.String\<close> and \<^verbatim>\<open>Msg.SetReply\<close> (on a new message, from a request).\<close>

record dns_lib =
  RR_String :: "rr \<Rightarrow> string"
  SetReply :: "msg \<Rightarrow> msg \<Rightarrow> msg"

definition tab :: char where "tab = CHR 0x09"

fun reflect_loop :: "dns_lib \<Rightarrow> string \<Rightarrow> rr list \<Rightarrow> rr list \<Rightarrow> rr list" where
  "reflect_loop L name [] answer = answer"
| "reflect_loop L name (rr # rrs) answer =
     (let fqdn = split_on tab (RR_String L rr) ! 0 in
      reflect_loop L name rrs (if fqdn = name then answer @ [rr] else answer))"

text \<open>The message that is written; a request without a question makes the index panic.\<close>

definition handleReflect :: "dns_lib \<Rightarrow> DNSMock \<Rightarrow> msg \<Rightarrow> msg go" where
  "handleReflect L m r =
     (let msg = (SetReply L empty_msg r)\<lparr>msg_compress := False\<rparr> in
      case msg_question r of
        [] \<Rightarrow> Panic ''index out of range''
      | q # _ \<Rightarrow>
          (case dm_records m (q_type q) of
             None \<Rightarrow> Ok msg
           | Some rrs \<Rightarrow> Ok (msg\<lparr>msg_answer := reflect_loop L (q_name q) rrs (msg_answer msg)\<rparr>)))"

text \<open>The presentation format of a record begins with its name, followed by a tab, at least for the
  names that need no escapes; a reply has no answers of its own.\<close>

locale dns_text =
  fixes L :: dns_lib and plain :: "string \<Rightarrow> bool"
  assumes String_name: "plain (rr_name rr) \<Longrightarrow> \<exists>rest. RR_String L rr = rr_name rr @ tab # rest"
    and plain_tab: "plain n \<Longrightarrow> tab \<notin> set n"
    and SetReply_answer: "msg_answer (SetReply L m r) = msg_answer m"
begin

lemma String_fqdn: "plain (rr_name rr) \<Longrightarrow> split_on tab (RR_String L rr) ! 0 = rr_name rr"
  using String_name [of rr] plain_tab by (auto simp: split_on_append)

lemma reflect_loop_filter:
  "\<forall>rr \<in> set rrs. plain (rr_name rr) \<Longrightarrow>
     reflect_loop L name rrs answer = answer @ filter (\<lambda>rr. rr_name rr = name) rrs"
  by (induction rrs arbitrary: answer) (auto simp: String_fqdn Let_def)

lemma handleReflect_records:
  assumes "msg_question r = q # qs" "\<forall>rr \<in> set (elems (dm_records m (q_type q))). plain (rr_name rr)"
  shows "\<exists>msg. handleReflect L m r = Ok msg \<and> \<not> msg_compress msg \<and>
    msg_answer msg = filter (\<lambda>rr. rr_name rr = q_name q) (elems (dm_records m (q_type q)))"
  using assms by (auto simp: handleReflect_def Let_def reflect_loop_filter SetReply_answer empty_msg_def split: option.splits)

end

text \<open>The text of a record as the package documents it, and a plain reply.\<close>

definition rdata_text :: "rdata \<Rightarrow> string" where
  "rdata_text d = (case d of TXT ss \<Rightarrow> concat ss | NS n \<Rightarrow> n | A ip \<Rightarrow> join_with (CHR ''.'') (map (\<lambda>b. show_nat (unat b)) ip))"

definition plain_lib :: dns_lib where
  "plain_lib = \<lparr>RR_String = (\<lambda>rr. rr_name rr @ tab # show_nat (unat (rr_ttl rr)) @ tab # ''IN'' @ tab # rdata_text (rr_data rr)),
     SetReply = (\<lambda>m r. m\<lparr>msg_id := msg_id r, msg_response := True, msg_question := msg_question r\<rparr>)\<rparr>"

interpretation plain_text: dns_text plain_lib "\<lambda>n. tab \<notin> set n"
  by unfold_locales (auto simp: plain_lib_def)

section \<open>The records that were added\<close>

text \<open>The calls of a test, and the record each of them adds.\<close>

datatype addition =
    ATXT string "string list"
  | ANS string string
  | AA string ip
  | AAAA ip

fun add :: "addition \<Rightarrow> DNSMock \<Rightarrow> DNSMock" where
  "add (ATXT fqdn ss) = AddTXTRecord fqdn ss"
| "add (ANS fqdn n) = AddNSRecord fqdn n"
| "add (AA fqdn ip) = AddARecord fqdn ip"
| "add (AAAA ip) = AddAAAARecord ip"

fun added :: "FakeDNSSettings \<Rightarrow> addition \<Rightarrow> rr" where
  "added s (ATXT fqdn ss) = \<lparr>rr_name = fqdn, rr_type = TypeTXT, rr_class = ClassINET, rr_ttl = 0, rr_data = TXT ss\<rparr>"
| "added s (ANS fqdn n) = \<lparr>rr_name = fqdn, rr_type = TypeNS, rr_class = ClassINET, rr_ttl = 0, rr_data = NS n\<rparr>"
| "added s (AA fqdn ip) = \<lparr>rr_name = fqdn, rr_type = TypeA, rr_class = ClassINET, rr_ttl = 0, rr_data = A (To4 ip)\<rparr>"
| "added s (AAAA ip) = \<lparr>rr_name = DNSZoneFQDN s, rr_type = TypeAAAA, rr_class = ClassINET, rr_ttl = 0, rr_data = A (To16 ip)\<rparr>"

lemma add_append: "add a m = append_record (rr_type (added (dm_settings m) a)) (added (dm_settings m) a) m"
  by (cases a) (simp_all add: AddTXTRecord_def AddNSRecord_def AddARecord_def AddAAAARecord_def)

lemma elems_append_record:
  "elems (dm_records (append_record t' rr m) t) = elems (dm_records m t) @ (if t' = t then [rr] else [])"
  by (simp add: append_record_def)

lemma append_record_settings [simp]: "dm_settings (append_record t rr m) = dm_settings m"
  by (simp add: append_record_def)

text \<open>The server refines the list of the records in the order they were added.\<close>

lemma records_added:
  "elems (dm_records (fold add as m) t) =
     elems (dm_records m t) @ filter (\<lambda>rr. rr_type rr = t) (map (added (dm_settings m)) as)"
  by (induction as arbitrary: m) (auto simp: add_append elems_append_record)

section \<open>Properties of the answers\<close>

text \<open>
  C27. A query is answered with exactly the records of the asked type that were added under the asked
  name, in the order of the calls that added them, whatever else was added; a request without a
  question makes the handler panic.
\<close>

theorem reflect_answers:
  assumes "dns_text L plain" "\<forall>a \<in> set as. plain (rr_name (added settings a))"
  shows "(\<forall>q qs. msg_question r = q # qs \<longrightarrow>
      (\<exists>msg. handleReflect L (fold add as (NewFakeDNS settings)) r = Ok msg \<and> \<not> msg_compress msg \<and>
         msg_answer msg = filter (\<lambda>rr. rr_type rr = q_type q \<and> rr_name rr = q_name q) (map (added settings) as))) \<and>
    (msg_question r = [] \<longrightarrow> handleReflect L (fold add as (NewFakeDNS settings)) r = Panic ''index out of range'')"
proof -
  let ?m = "fold add as (NewFakeDNS settings)"
  have e: "elems (dm_records ?m t) = filter (\<lambda>rr. rr_type rr = t) (map (added settings) as)" for t
    by (simp add: records_added NewFakeDNS_def)
  have "\<forall>rr \<in> set (elems (dm_records ?m t)). plain (rr_name rr)" for t
    using assms(2) by (auto simp: e)
  then show ?thesis
    using dns_text.handleReflect_records [OF assms(1), of r _ _ ?m]
    by (auto simp: e handleReflect_def conj_commute)
qed

definition sample_settings :: FakeDNSSettings where
  "sample_settings = \<lparr>FakeDNSPort = 7753, EdgeDNSZoneFQDN = ''example.com.'', DNSZoneFQDN = ''cloud.example.com.''\<rparr>"

theorem reflect_answers_witness:
  "\<exists>msg. handleReflect plain_lib
       (fold add [AA ''ns1.example.com.'' [10, 0, 0, 1], ATXT ''ns1.example.com.'' [''hi''], AA ''ns2.example.com.'' [10, 0, 0, 2],
          AA ''ns1.example.com.'' [10, 0, 0, 3]] (NewFakeDNS sample_settings))
       (empty_msg\<lparr>msg_question := [\<lparr>q_name = ''ns1.example.com.'', q_type = TypeA\<rparr>]\<rparr>) = Ok msg \<and>
     map rr_data (msg_answer msg) = [A [10, 0, 0, 1], A [10, 0, 0, 3]]"
  using reflect_answers [OF plain_text.dns_text_axioms,
      of "[AA ''ns1.example.com.'' [10, 0, 0, 1], ATXT ''ns1.example.com.'' [''hi''], AA ''ns2.example.com.'' [10, 0, 0, 2],
          AA ''ns1.example.com.'' [10, 0, 0, 3]]" sample_settings
        "empty_msg\<lparr>msg_question := [\<lparr>q_name = ''ns1.example.com.'', q_type = TypeA\<rparr>]\<rparr>"]
  by (fastforce simp: tab_def TypeA_def TypeTXT_def To4_def)

end
