(* ===== verification/Fake_Dns_Run.thy ===== *)
theory Fake_Dns_Run
  imports Fake_Dns
begin

text \<open>
  \<^verbatim>\<open>Start\<close> and \<^verbatim>\<open>RunTestFunc\<close> of \<^verbatim>\<open>controllers/internal/utils/fakedns.go\<close>. Four goroutines take part: the
  test, the readiness and the liveness probe, and the one that listens; all of them write the
  field \<^verbatim>\<open>err\<close> without a lock. Each is a step relation of its own on the common state, a step being
  a statement that reads or writes what is shared; \<open>fake_step\<close> is their interleaving.
\<close>

section \<open>The state\<close>

text \<open>A probe with the number of attempts made and the error of the last one; the channel it closes
  at its end is released.\<close>

datatype probe = Idle | Probing nat "goerr option" | Released

datatype listener = NotServing | Serving | Stopped

text \<open>What \<^verbatim>\<open>RunTestFunc\<close> returns, and whether the test goes on after it was checked.\<close>

record Result =
  res_Error :: "goerr option"

definition RequireNoError :: "Result \<Rightarrow> bool" where
  "RequireNoError r \<longleftrightarrow> res_Error r = None"

datatype main_pc =
    NotStarted
  | Starting
  | Started
  | Tested
  | ShuttingDown
  | AwaitDown
  | Leaving
  | Returned Result

text \<open>The last three fields record what happened and are read by no step: that a readiness probe
  was answered, that the function of the test was run, and what \<^verbatim>\<open>Shutdown\<close> returned.\<close>

record fake_run =
  fr_pc :: main_pc
  fr_ready :: probe
  fr_live :: probe
  fr_listener :: listener
  fr_err :: "goerr option"
  fr_answered :: bool
  fr_tested :: bool
  fr_shutdown :: "goerr option"

definition fake_init :: fake_run where
  "fake_init = \<lparr>fr_pc = NotStarted, fr_ready = Idle, fr_live = Idle, fr_listener = NotServing, fr_err = None,
     fr_answered = False, fr_tested = False, fr_shutdown = None\<rparr>"

definition shutdown_called :: "fake_run \<Rightarrow> bool" where
  "shutdown_called s \<longleftrightarrow> fr_live s \<noteq> Idle"

text \<open>\<^verbatim>\<open>%s\<close> of an error that may be nil.\<close>

definition show_err :: "goerr option \<Rightarrow> string" where
  "show_err e = (case e of None \<Rightarrow> ''%!s(<nil>)'' | Some e \<Rightarrow> err_text e)"

section \<open>The goroutines\<close>

inductive start_step :: "fake_run \<Rightarrow> fake_run \<Rightarrow> bool" where
  start: "fr_pc s = NotStarted \<Longrightarrow>
    start_step s (s\<lparr>fr_pc := Starting, fr_ready := Probing 0 None, fr_listener := Serving\<rparr>)"
| ready: "fr_pc s = Starting \<Longrightarrow> fr_ready s = Released \<Longrightarrow> start_step s (s\<lparr>fr_pc := Started\<rparr>)"

text \<open>The calls of \<^verbatim>\<open>RunTestFunc\<close>: the function is run when there is no error; the result is what the field
  holds in the end.\<close>

inductive run_step :: "fake_run \<Rightarrow> fake_run \<Rightarrow> bool" where
  test: "fr_pc s = Started \<Longrightarrow> fr_err s = None \<Longrightarrow> run_step s (s\<lparr>fr_pc := Tested, fr_tested := True\<rparr>)"
| skip: "fr_pc s = Started \<Longrightarrow> fr_err s \<noteq> None \<Longrightarrow> run_step s (s\<lparr>fr_pc := Leaving\<rparr>)"
| spawn: "fr_pc s = Tested \<Longrightarrow> run_step s (s\<lparr>fr_pc := ShuttingDown, fr_live := Probing 0 None\<rparr>)"
| shutdown: "fr_pc s = ShuttingDown \<Longrightarrow> run_step s (s\<lparr>fr_pc := AwaitDown, fr_err := e, fr_shutdown := e\<rparr>)"
| down: "fr_pc s = AwaitDown \<Longrightarrow> fr_live s = Released \<Longrightarrow> run_step s (s\<lparr>fr_pc := Leaving\<rparr>)"
| leave: "fr_pc s = Leaving \<Longrightarrow> run_step s (s\<lparr>fr_pc := Returned \<lparr>res_Error = fr_err s\<rparr>\<rparr>)"

text \<open>The errors that \<^verbatim>\<open>serve\<close> sends on its channel for a result of \<^verbatim>\<open>ListenAndServe\<close>, and the loop of
  \<^verbatim>\<open>listen\<close> that receives them.\<close>

definition serve :: "goerr option \<Rightarrow> goerr list" where
  "serve r = (case r of None \<Rightarrow> [] | Some err \<Rightarrow> [Errorf ''failed to setup the server: %s'' [err_text err]])"

fun listen_loop :: "goerr option \<Rightarrow> goerr list \<Rightarrow> goerr option" where
  "listen_loop err [] = err"
| "listen_loop err (e # errors) = listen_loop (Some (Errorf ''%s'' [err_text e])) errors"

definition listen :: "goerr option \<Rightarrow> goerr option" where
  "listen r = listen_loop None (serve r)"

text \<open>\<^verbatim>\<open>m.err = m.listen()\<close>: serving ends with an error at any time, without one only when the server is
  shut down, and the field is overwritten either way.\<close>

inductive listen_step :: "fake_run \<Rightarrow> fake_run \<Rightarrow> bool" where
  served: "fr_listener s = Serving \<Longrightarrow> r \<noteq> None \<or> shutdown_called s \<Longrightarrow>
    listen_step s (s\<lparr>fr_listener := Stopped, fr_err := listen r\<rparr>)"

text \<open>A probe asks the own server for the zone; the exchange is the choice of the environment.\<close>

definition hit :: "(question \<Rightarrow> string \<Rightarrow> goerr option) \<Rightarrow> FakeDNSSettings \<Rightarrow> goerr option" where
  "hit exchange settings =
     (let host = sprintf ''localhost:%v'' [itoa (FakeDNSPort settings)]
      in exchange \<lparr>q_name = DNSZoneFQDN settings, q_type = TypeA\<rparr> host)"

inductive ready_step :: "FakeDNSSettings \<Rightarrow> fake_run \<Rightarrow> fake_run \<Rightarrow> bool" for st where
  answered: "fr_ready s = Probing i e \<Longrightarrow> i < 5 \<Longrightarrow> hit exchange st = None \<Longrightarrow> ready_step st s (s\<lparr>fr_ready := Released, fr_answered := True\<rparr>)"
| missed: "fr_ready s = Probing i e \<Longrightarrow> i < 5 \<Longrightarrow> hit exchange st = Some e' \<Longrightarrow> ready_step st s (s\<lparr>fr_ready := Probing (Suc i) (Some e')\<rparr>)"
| not_ready: "fr_ready s = Probing 5 e \<Longrightarrow>
    ready_step st s (s\<lparr>fr_ready := Released,
      fr_err := Some (Errorf ''readiness probe %s (%s)'' [show_err e, show_err (fr_err s)])\<rparr>)"

inductive live_step :: "FakeDNSSettings \<Rightarrow> fake_run \<Rightarrow> fake_run \<Rightarrow> bool" for st where
  silent: "fr_live s = Probing i e \<Longrightarrow> i < 5 \<Longrightarrow> hit exchange st \<noteq> None \<Longrightarrow> live_step st s (s\<lparr>fr_live := Released\<rparr>)"
| still_up: "fr_live s = Probing i e \<Longrightarrow> i < 5 \<Longrightarrow> hit exchange st = None \<Longrightarrow> live_step st s (s\<lparr>fr_live := Probing (Suc i) None\<rparr>)"
| not_down: "fr_live s = Probing 5 e \<Longrightarrow>
    live_step st s (s\<lparr>fr_live := Released,
      fr_err := Some (Errorf ''liveness probe %s (%s)'' [show_err e, show_err (fr_err s)])\<rparr>)"

definition fake_step :: "FakeDNSSettings \<Rightarrow> fake_run \<Rightarrow> fake_run \<Rightarrow> bool" where
  "fake_step st s s' \<longleftrightarrow> start_step s s' \<or> run_step s s' \<or> listen_step s s' \<or> ready_step st s s' \<or> live_step st s s'"

lemma listen_None [simp]: "listen r = None \<longleftrightarrow> r = None"
  by (simp add: listen_def serve_def split: option.splits)

lemma hit_const: "hit (\<lambda>_ _. r) st = r"
  by (simp add: hit_def)

section \<open>Invariant\<close>

text \<open>Where the goroutines are relative to each other; that before the shutdown an error stays an
  error; and that a released readiness probe was answered or left one.\<close>

definition probe_ok :: "probe \<Rightarrow> bool" where
  "probe_ok p = (case p of Probing i _ \<Rightarrow> i \<le> 5 | _ \<Rightarrow> True)"

definition fake_ok :: "fake_run \<Rightarrow> bool" where
  "fake_ok s \<longleftrightarrow> probe_ok (fr_ready s) \<and> probe_ok (fr_live s) \<and>
     (fr_pc s = NotStarted \<longleftrightarrow> fr_ready s = Idle) \<and> (fr_pc s = NotStarted \<longrightarrow> fr_listener s = NotServing) \<and>
     (fr_pc s \<in> {NotStarted, Starting, Started, Tested} \<longrightarrow> fr_live s = Idle) \<and>
     (fr_pc s \<noteq> NotStarted \<and> fr_pc s \<noteq> Starting \<longrightarrow> fr_ready s = Released) \<and>
     (fr_pc s \<in> {ShuttingDown, AwaitDown} \<longrightarrow> fr_live s \<noteq> Idle) \<and>
     (fr_live s \<noteq> Idle \<longrightarrow> fr_tested s) \<and>
     (fr_pc s \<in> {NotStarted, Starting, Started} \<longrightarrow> \<not> fr_tested s) \<and>
     (fr_pc s \<in> {Tested, ShuttingDown, AwaitDown} \<longrightarrow> fr_tested s) \<and>
     (fr_tested s \<longrightarrow> fr_answered s) \<and>
     (fr_ready s = Released \<and> \<not> fr_answered s \<longrightarrow> fr_err s \<noteq> None) \<and>
     (fr_pc s = Leaving \<and> \<not> fr_tested s \<longrightarrow> fr_err s \<noteq> None) \<and>
     (\<forall>r. fr_pc s = Returned r \<and> RequireNoError r \<longrightarrow> fr_tested s)"

lemma fake_ok_init: "fake_ok fake_init"
  by (simp add: fake_ok_def fake_init_def probe_ok_def)

lemma start_ok: "start_step s s' \<Longrightarrow> fake_ok s \<Longrightarrow> fake_ok s'"
  by (induction rule: start_step.induct) (auto simp: fake_ok_def probe_ok_def)

lemma run_ok: "run_step s s' \<Longrightarrow> fake_ok s \<Longrightarrow> fake_ok s'"
  by (induction rule: run_step.induct) (auto simp: fake_ok_def probe_ok_def RequireNoError_def)

lemma fake_ok_err:
  assumes "fake_ok s" "fr_pc s \<noteq> NotStarted" "fr_tested s \<or> e \<noteq> None"
  shows "fake_ok (s\<lparr>fr_listener := l, fr_err := e\<rparr>)"
proof (cases "fr_tested s")
  case True
  with assms(1,2) show ?thesis by (simp add: fake_ok_def probe_ok_def)
next
  case False
  with assms show ?thesis by (simp add: fake_ok_def probe_ok_def)
qed

lemma listen_ok: "listen_step s s' \<Longrightarrow> fake_ok s \<Longrightarrow> fake_ok s'"
proof (induction rule: listen_step.induct)
  case (served s r)
  then have "fr_tested s \<or> listen r \<noteq> None" by (auto simp: fake_ok_def shutdown_called_def)
  moreover have "fr_pc s \<noteq> NotStarted" using served by (auto simp: fake_ok_def)
  ultimately show ?case by (intro fake_ok_err served(3))
qed

lemma ready_ok: "ready_step st s s' \<Longrightarrow> fake_ok s \<Longrightarrow> fake_ok s'"
  by (induction rule: ready_step.induct) (auto simp: fake_ok_def probe_ok_def)

lemma live_ok: "live_step st s s' \<Longrightarrow> fake_ok s \<Longrightarrow> fake_ok s'"
  by (induction rule: live_step.induct) (auto simp: fake_ok_def probe_ok_def)

lemma fake_ok_step: "fake_step st s s' \<Longrightarrow> fake_ok s \<Longrightarrow> fake_ok s'"
  unfolding fake_step_def using start_ok run_ok listen_ok ready_ok live_ok by blast

lemma fake_ok_reach: "(fake_step st)\<^sup>*\<^sup>* fake_init s \<Longrightarrow> fake_ok s"
  by (induction rule: rtranclp_induct) (auto intro: fake_ok_init fake_ok_step)

section \<open>Progress\<close>

fun probe_rank :: "probe \<Rightarrow> nat" where
  "probe_rank Idle = 7"
| "probe_rank (Probing i _) = 6 - i"
| "probe_rank Released = 0"

fun listener_rank :: "listener \<Rightarrow> nat" where
  "listener_rank NotServing = 2"
| "listener_rank Serving = 1"
| "listener_rank Stopped = 0"

fun pc_rank :: "main_pc \<Rightarrow> nat" where
  "pc_rank NotStarted = 7"
| "pc_rank Starting = 6"
| "pc_rank Started = 5"
| "pc_rank Tested = 4"
| "pc_rank ShuttingDown = 3"
| "pc_rank AwaitDown = 2"
| "pc_rank Leaving = 1"
| "pc_rank (Returned _) = 0"

definition fake_rank :: "fake_run \<Rightarrow> nat" where
  "fake_rank s = pc_rank (fr_pc s) + probe_rank (fr_ready s) + probe_rank (fr_live s) + listener_rank (fr_listener s)"

lemma start_rank: "start_step s s' \<Longrightarrow> fake_ok s \<Longrightarrow> fake_rank s' < fake_rank s"
  by (induction rule: start_step.induct) (auto simp: fake_ok_def fake_rank_def)

lemma run_rank: "run_step s s' \<Longrightarrow> fake_ok s \<Longrightarrow> fake_rank s' < fake_rank s"
  by (induction rule: run_step.induct) (auto simp: fake_ok_def fake_rank_def)

lemma listen_rank: "listen_step s s' \<Longrightarrow> fake_rank s' < fake_rank s"
  by (induction rule: listen_step.induct) (auto simp: fake_rank_def)

lemma ready_rank: "ready_step st s s' \<Longrightarrow> fake_rank s' < fake_rank s"
  by (induction rule: ready_step.induct) (auto simp: fake_rank_def)

lemma live_rank: "live_step st s s' \<Longrightarrow> fake_rank s' < fake_rank s"
  by (induction rule: live_step.induct) (auto simp: fake_rank_def)

lemma fake_rank_step: "fake_step st s s' \<Longrightarrow> fake_ok s \<Longrightarrow> fake_rank s' < fake_rank s"
  unfolding fake_step_def using start_rank run_rank listen_rank ready_rank live_rank by blast

lemma fake_run_length: "(fake_step st ^^ n) fake_init s \<Longrightarrow> fake_ok s \<and> n + fake_rank s \<le> fake_rank fake_init"
proof (induction n arbitrary: s)
  case 0
  then show ?case by (simp add: fake_ok_init)
next
  case (Suc n)
  from Suc.prems obtain t where t: "(fake_step st ^^ n) fake_init t" "fake_step st t s" by auto
  from Suc.IH [OF t(1)] fake_rank_step [OF t(2)] fake_ok_step [OF t(2)] show ?case by linarith
qed

text \<open>The goroutine that the test waits for can always move.\<close>

lemma ready_moves: "fr_ready s = Probing i e \<Longrightarrow> i \<le> 5 \<Longrightarrow> \<exists>s'. ready_step st s s'"
  using ready_step.answered [OF _ _ hit_const] ready_step.not_ready by (cases "i = 5") (blast, fastforce)

lemma live_moves: "fr_live s = Probing i e \<Longrightarrow> i \<le> 5 \<Longrightarrow> \<exists>s'. live_step st s s'"
  using live_step.still_up [OF _ _ hit_const] live_step.not_down by (cases "i = 5") (blast, fastforce)

lemma probe_okE: "probe_ok p \<Longrightarrow> p \<noteq> Idle \<Longrightarrow> p \<noteq> Released \<Longrightarrow> \<exists>i e. p = Probing i e \<and> i \<le> 5"
  by (cases p) (auto simp: probe_ok_def)

lemma fake_progress:
  assumes ok: "fake_ok s" and not: "\<forall>r. fr_pc s \<noteq> Returned r"
  shows "\<exists>s'. fake_step st s s'"
proof (cases "fr_pc s")
  case Starting
  with ok have "fr_ready s \<noteq> Idle" "probe_ok (fr_ready s)" by (auto simp: fake_ok_def)
  with Starting show ?thesis
    using start_step.ready ready_moves probe_okE unfolding fake_step_def by metis
next
  case Started
  then show ?thesis using run_step.test run_step.skip unfolding fake_step_def by blast
next
  case AwaitDown
  with ok have "fr_live s \<noteq> Idle" "probe_ok (fr_live s)" by (auto simp: fake_ok_def)
  with AwaitDown show ?thesis
    using run_step.down live_moves probe_okE unfolding fake_step_def by metis
qed (use not in \<open>auto simp: fake_step_def intro: start_step.start run_step.intros\<close>)

text \<open>A run in which \<^verbatim>\<open>Shutdown\<close> returns an error and the listening goroutine then stores nil.\<close>

lemma step_then: "fake_step st s t \<Longrightarrow> (fake_step st ^^ n) t u \<Longrightarrow> (fake_step st ^^ Suc n) s u"
  by (rule relpowp_Suc_I2)

lemma fake_stepI [intro]:
  "start_step s t \<Longrightarrow> fake_step st s t" "run_step s t \<Longrightarrow> fake_step st s t" "listen_step s t \<Longrightarrow> fake_step st s t"
  "ready_step st s t \<Longrightarrow> fake_step st s t" "live_step st s t \<Longrightarrow> fake_step st s t"
  by (simp_all add: fake_step_def)

definition lost_shutdown :: fake_run where
  "lost_shutdown = \<lparr>fr_pc = Returned \<lparr>res_Error = None\<rparr>, fr_ready = Released, fr_live = Released, fr_listener = Stopped,
     fr_err = None, fr_answered = True, fr_tested = True, fr_shutdown = Some (ExtError ''timeout'')\<rparr>"

lemma shutdown_error_lost: "(fake_step st ^^ 10) fake_init lost_shutdown"
proof -
  have "(fake_step st ^^ Suc (Suc (Suc (Suc (Suc (Suc (Suc (Suc (Suc (Suc 0)))))))))) fake_init lost_shutdown"
    apply (rule step_then [OF fake_stepI(1) [OF start_step.start]], simp add: fake_init_def)
    apply (rule step_then [OF fake_stepI(4) [OF ready_step.answered [OF _ _ hit_const]]], simp, simp)
    apply (rule step_then [OF fake_stepI(1) [OF start_step.ready]], simp, simp)
    apply (rule step_then [OF fake_stepI(2) [OF run_step.test]], simp, simp add: fake_init_def)
    apply (rule step_then [OF fake_stepI(2) [OF run_step.spawn]], simp)
    apply (rule step_then [OF fake_stepI(2) [OF run_step.shutdown [where e = "Some (ExtError ''timeout'')"]]], simp)
    apply (rule step_then [OF fake_stepI(3) [OF listen_step.served [where r = None]]], simp, simp add: shutdown_called_def)
    apply (rule step_then [OF fake_stepI(5) [OF live_step.silent [where exchange = "\<lambda>_ _. Some (ExtError [])"]]], simp, simp, simp add: hit_const)
    apply (rule step_then [OF fake_stepI(2) [OF run_step.down]], simp, simp)
    apply (rule step_then [OF fake_stepI(2) [OF run_step.leave]], simp)
    apply (simp add: fake_init_def lost_shutdown_def listen_def serve_def)
    done
  then show ?thesis by (simp add: eval_nat_numeral)
qed

lemma lost_returns:
  "fr_pc lost_shutdown = Returned \<lparr>res_Error = None\<rparr>" "RequireNoError \<lparr>res_Error = None\<rparr>"
  "\<exists>e. fr_shutdown lost_shutdown = Some e"
  by (simp_all add: lost_shutdown_def RequireNoError_def)

section \<open>Properties\<close>

text \<open>
  C28. However the goroutines of the fake server interleave, the function of the test is run only after
  the server answered a probe, and a result without an error means that it was run; no run has
  more than 23 steps, and it ends only when \<^verbatim>\<open>RunTestFunc\<close> has returned, so there is neither an
  endless wait nor a deadlock. What is not true is that an error of the shutdown is reported: the
  goroutine that listens may overwrite the field with nil after it.
\<close>

theorem fake_runs:
  "(\<forall>n s. (fake_step st ^^ n) fake_init s \<longrightarrow>
      n \<le> 23 \<and> (fr_tested s \<longrightarrow> fr_answered s) \<and> (\<forall>r. fr_pc s = Returned r \<and> RequireNoError r \<longrightarrow> fr_tested s) \<and>
      ((\<forall>s'. \<not> fake_step st s s') \<longrightarrow> (\<exists>r. fr_pc s = Returned r))) \<and>
   (\<exists>n s r e. (fake_step st ^^ n) fake_init s \<and> fr_pc s = Returned r \<and> RequireNoError r \<and> fr_shutdown s = Some e)"
proof (intro conjI allI impI)
  fix n s assume "(fake_step st ^^ n) fake_init s"
  note r = fake_run_length [OF this]
  then show "n \<le> 23" by (simp add: fake_rank_def fake_init_def)
  from r have ok: "fake_ok s" by blast
  then show "fr_tested s \<Longrightarrow> fr_answered s" by (simp add: fake_ok_def)
  fix r assume "fr_pc s = Returned r \<and> RequireNoError r"
  with ok show "fr_tested s" by (simp add: fake_ok_def)
next
  fix n s assume "(fake_step st ^^ n) fake_init s"
  with fake_run_length have ok: "fake_ok s" by blast
  show "\<forall>s'. \<not> fake_step st s s' \<Longrightarrow> \<exists>r. fr_pc s = Returned r" using fake_progress [OF ok] by blast
next
  show "\<exists>n s r e. (fake_step st ^^ n) fake_init s \<and> fr_pc s = Returned r \<and> RequireNoError r \<and> fr_shutdown s = Some e"
    using shutdown_error_lost lost_returns by blast
qed

theorem fake_runs_witness:
  "(fake_step sample_settings ^^ 10) fake_init lost_shutdown \<and> fr_pc lost_shutdown = Returned \<lparr>res_Error = None\<rparr> \<and>
   fr_tested lost_shutdown \<and> fr_answered lost_shutdown"
  using conjunct1 [OF fake_runs, rule_format, OF shutdown_error_lost] shutdown_error_lost lost_returns by blast

end
