(* ===== verification/Mock_Assistant.thy ===== *)
theory Mock_Assistant
  imports Assistant
begin

text \<open>
  \<^verbatim>\<open>controllers/providers/assistant/assistant_mock.go\<close>: the generated mock of the assistant that the tests
  of the DNS providers use. A method hands its arguments to the controller of gomock and takes the
  results out of the values that come back; the recorder announces a call. The controller is the
  parameter \<open>gomock\<close>, and the locale \<open>gomock_api\<close> states what the mock needs of it.
\<close>

section \<open>Values of unknown type\<close>

datatype go_value = VNil | VStrs "string list" | VErr goerr | VStr string | VMap "string gomap"
  | VGslb Gslb | VDur int | VEndpoint dns_endpoint

text \<open>The type assertions with two results: the zero value when the type is another one.\<close>

fun as_strings :: "go_value \<Rightarrow> string list" where
  "as_strings (VStrs s) = s"
| "as_strings _ = []"

fun as_error :: "go_value \<Rightarrow> goerr option" where
  "as_error (VErr e) = Some e"
| "as_error _ = None"

definition of_error :: "goerr option \<Rightarrow> go_value" where
  "of_error e = (case e of None \<Rightarrow> VNil | Some e \<Rightarrow> VErr e)"

lemma as_error_of_error [simp]: "as_error (of_error e) = e"
  by (cases e) (simp_all add: of_error_def)

definition ret_at :: "go_value list \<Rightarrow> nat \<Rightarrow> go_value go" where
  "ret_at ret i = (if i < length ret then Ok (ret ! i) else Panic ''index out of range'')"

section \<open>The mock\<close>

text \<open>\<^verbatim>\<open>Call\<close> fails the test on a call that was not announced; that ends the calling goroutine, as a panic
  does here. \<^verbatim>\<open>RecordCallWithMethodType\<close> gives a handle on the announced call. \<^verbatim>\<open>T.Helper\<close> does nothing.\<close>

type_synonym call_handle = nat

record 'w gomock =
  gm_call :: "string \<Rightarrow> go_value list \<Rightarrow> 'w \<Rightarrow> go_value list go \<times> 'w"
  gm_record :: "string \<Rightarrow> go_value list \<Rightarrow> 'w \<Rightarrow> call_handle \<times> 'w"

text \<open>The mock and its recorder point to each other.\<close>

record 'w MockAssistant =
  ma_ctrl :: "'w gomock"

record 'w MockAssistantMockRecorder =
  mr_mock :: "'w MockAssistant"

definition NewMockAssistant :: "'w gomock \<Rightarrow> 'w MockAssistant" where
  "NewMockAssistant ctrl = \<lparr>ma_ctrl = ctrl\<rparr>"

definition EXPECT :: "'w MockAssistant \<Rightarrow> 'w MockAssistantMockRecorder" where
  "EXPECT m = \<lparr>mr_mock = m\<rparr>"

text \<open>The two result types \<^verbatim>\<open>([]string, error)\<close> and \<^verbatim>\<open>error\<close>, and the single list.\<close>

definition strings_error :: "go_value list \<Rightarrow> (string list \<times> goerr option) go" where
  "strings_error ret =
     (case ret_at ret 0 of
        Ok v0 \<Rightarrow> (case ret_at ret 1 of Ok v1 \<Rightarrow> Ok (as_strings v0, as_error v1) | Err e \<Rightarrow> Err e | Panic p \<Rightarrow> Panic p)
      | Err e \<Rightarrow> Err e
      | Panic p \<Rightarrow> Panic p)"

definition only_error :: "go_value list \<Rightarrow> goerr option go" where
  "only_error ret = (case ret_at ret 0 of Ok v \<Rightarrow> Ok (as_error v) | Err e \<Rightarrow> Err e | Panic p \<Rightarrow> Panic p)"

definition only_strings :: "go_value list \<Rightarrow> string list go" where
  "only_strings ret = (case ret_at ret 0 of Ok v \<Rightarrow> Ok (as_strings v) | Err e \<Rightarrow> Err e | Panic p \<Rightarrow> Panic p)"

definition mock_call ::
    "'w MockAssistant \<Rightarrow> string \<Rightarrow> go_value list \<Rightarrow> (go_value list \<Rightarrow> 'r go) \<Rightarrow> 'w \<Rightarrow> 'r go \<times> 'w" where
  "mock_call m name args take_ret w =
     (case gm_call (ma_ctrl m) name args w of
        (Ok ret, w) \<Rightarrow> (take_ret ret, w)
      | (Err e, w) \<Rightarrow> (Err e, w)
      | (Panic p, w) \<Rightarrow> (Panic p, w))"

definition mock_CoreDNSExposedIPs :: "'w MockAssistant \<Rightarrow> 'w \<Rightarrow> (string list \<times> goerr option) go \<times> 'w" where
  "mock_CoreDNSExposedIPs m = mock_call m ''CoreDNSExposedIPs'' [] strings_error"

definition mock_GetExternalTargets :: "'w MockAssistant \<Rightarrow> string \<Rightarrow> string gomap \<Rightarrow> 'w \<Rightarrow> string list go \<times> 'w" where
  "mock_GetExternalTargets m host extClusterNsNames =
     mock_call m ''GetExternalTargets'' [VStr host, VMap extClusterNsNames] only_strings"

definition mock_GslbIngressExposedIPs :: "'w MockAssistant \<Rightarrow> Gslb \<Rightarrow> 'w \<Rightarrow> (string list \<times> goerr option) go \<times> 'w" where
  "mock_GslbIngressExposedIPs m gslb = mock_call m ''GslbIngressExposedIPs'' [VGslb gslb] strings_error"

definition mock_InspectTXTThreshold :: "'w MockAssistant \<Rightarrow> string \<Rightarrow> int \<Rightarrow> 'w \<Rightarrow> goerr option go \<times> 'w" where
  "mock_InspectTXTThreshold m fqdn splitBrainThreshold =
     mock_call m ''InspectTXTThreshold'' [VStr fqdn, VDur splitBrainThreshold] only_error"

definition mock_RemoveEndpoint :: "'w MockAssistant \<Rightarrow> string \<Rightarrow> 'w \<Rightarrow> goerr option go \<times> 'w" where
  "mock_RemoveEndpoint m endpointName = mock_call m ''RemoveEndpoint'' [VStr endpointName] only_error"

definition mock_SaveDNSEndpoint :: "'w MockAssistant \<Rightarrow> string \<Rightarrow> dns_endpoint \<Rightarrow> 'w \<Rightarrow> goerr option go \<times> 'w" where
  "mock_SaveDNSEndpoint m namespace i = mock_call m ''SaveDNSEndpoint'' [VStr namespace, VEndpoint i] only_error"

section \<open>The recorder\<close>

definition record_call :: "'w MockAssistantMockRecorder \<Rightarrow> string \<Rightarrow> go_value list \<Rightarrow> 'w \<Rightarrow> call_handle \<times> 'w" where
  "record_call mr name args = gm_record (ma_ctrl (mr_mock mr)) name args"

definition expect_CoreDNSExposedIPs :: "'w MockAssistantMockRecorder \<Rightarrow> 'w \<Rightarrow> call_handle \<times> 'w" where
  "expect_CoreDNSExposedIPs mr = record_call mr ''CoreDNSExposedIPs'' []"

definition expect_GetExternalTargets ::
    "'w MockAssistantMockRecorder \<Rightarrow> go_value \<Rightarrow> go_value \<Rightarrow> 'w \<Rightarrow> call_handle \<times> 'w" where
  "expect_GetExternalTargets mr host extClusterNsNames = record_call mr ''GetExternalTargets'' [host, extClusterNsNames]"

definition expect_GslbIngressExposedIPs :: "'w MockAssistantMockRecorder \<Rightarrow> go_value \<Rightarrow> 'w \<Rightarrow> call_handle \<times> 'w" where
  "expect_GslbIngressExposedIPs mr gslb = record_call mr ''GslbIngressExposedIPs'' [gslb]"

definition expect_InspectTXTThreshold ::
    "'w MockAssistantMockRecorder \<Rightarrow> go_value \<Rightarrow> go_value \<Rightarrow> 'w \<Rightarrow> call_handle \<times> 'w" where
  "expect_InspectTXTThreshold mr fqdn splitBrainThreshold = record_call mr ''InspectTXTThreshold'' [fqdn, splitBrainThreshold]"

definition expect_RemoveEndpoint :: "'w MockAssistantMockRecorder \<Rightarrow> go_value \<Rightarrow> 'w \<Rightarrow> call_handle \<times> 'w" where
  "expect_RemoveEndpoint mr endpointName = record_call mr ''RemoveEndpoint'' [endpointName]"

definition expect_SaveDNSEndpoint ::
    "'w MockAssistantMockRecorder \<Rightarrow> go_value \<Rightarrow> go_value \<Rightarrow> 'w \<Rightarrow> call_handle \<times> 'w" where
  "expect_SaveDNSEndpoint mr namespace i = record_call mr ''SaveDNSEndpoint'' [namespace, i]"

lemmas mock_defs = mock_CoreDNSExposedIPs_def mock_GetExternalTargets_def mock_GslbIngressExposedIPs_def
  mock_InspectTXTThreshold_def mock_RemoveEndpoint_def mock_SaveDNSEndpoint_def

lemmas expect_defs = expect_CoreDNSExposedIPs_def expect_GetExternalTargets_def expect_GslbIngressExposedIPs_def
  expect_InspectTXTThreshold_def expect_RemoveEndpoint_def expect_SaveDNSEndpoint_def

section \<open>What gomock promises\<close>

text \<open>A call that was announced once returns the values given to \<^verbatim>\<open>Return\<close>, once; a call that is not
  expected fails.\<close>

locale gomock_api =
  fixes G :: "'w gomock" and expects :: "'w \<Rightarrow> string \<Rightarrow> go_value list \<Rightarrow> bool"
    and return :: "call_handle \<Rightarrow> go_value list \<Rightarrow> 'w \<Rightarrow> 'w"
  assumes replay: "\<not> expects w name args \<Longrightarrow> gm_record G name args w = (c, w1) \<Longrightarrow>
      \<exists>w2. gm_call G name args (return c vals w1) = (Ok vals, w2) \<and> \<not> expects w2 name args"
    and unexpected: "\<not> expects w name args \<Longrightarrow> \<exists>p. fst (gm_call G name args w) = Panic p"
begin

lemma mock_replays:
  assumes "\<not> expects w name args" and "record_call (EXPECT (NewMockAssistant G)) name args w = (c, w1)"
  shows "\<exists>w2. mock_call (NewMockAssistant G) name args f (return c vals w1) = (f vals, w2) \<and>
    (\<exists>p. fst (mock_call (NewMockAssistant G) name args f w2) = Panic p)"
proof -
  from assms(2) have "gm_record G name args w = (c, w1)" by (simp add: record_call_def EXPECT_def NewMockAssistant_def)
  from replay [OF assms(1) this, of vals] obtain w2 where
      w2: "gm_call G name args (return c vals w1) = (Ok vals, w2)" "\<not> expects w2 name args" by blast
  moreover obtain p w3 where "gm_call G name args w2 = (Panic p, w3)" using unexpected [OF w2(2)] by (metis prod.collapse)
  ultimately show ?thesis by (simp add: mock_call_def NewMockAssistant_def)
qed

lemma mock_saves:
  assumes "\<not> expects w ''SaveDNSEndpoint'' [VStr n, VEndpoint i]"
    and "expect_SaveDNSEndpoint (EXPECT (NewMockAssistant G)) (VStr n) (VEndpoint i) w = (c, w1)"
  shows "fst (mock_SaveDNSEndpoint (NewMockAssistant G) n i (return c [of_error e] w1)) = Ok e"
  using mock_replays [OF assms(1) assms(2) [unfolded expect_defs], of only_error "[of_error e]"]
  by (auto simp: mock_defs only_error_def ret_at_def)

lemma mock_exposes:
  assumes "\<not> expects w ''GslbIngressExposedIPs'' [VGslb g]"
    and "expect_GslbIngressExposedIPs (EXPECT (NewMockAssistant G)) (VGslb g) w = (c, w1)"
  shows "fst (mock_GslbIngressExposedIPs (NewMockAssistant G) g (return c [VStrs ips, of_error e] w1)) = Ok (ips, e)"
  using mock_replays [OF assms(1) assms(2) [unfolded expect_defs], of strings_error "[VStrs ips, of_error e]"]
  by (auto simp: mock_defs strings_error_def ret_at_def)

end

section \<open>A controller in memory\<close>

text \<open>The expectations in the order they were announced; one that was met stays, so handles stay valid.\<close>

record expectation =
  ex_name :: string
  ex_args :: "go_value list"
  ex_ret :: "go_value list"
  ex_met :: bool

definition open_for :: "string \<Rightarrow> go_value list \<Rightarrow> expectation \<Rightarrow> bool" where
  "open_for name args e \<longleftrightarrow> ex_name e = name \<and> ex_args e = args \<and> \<not> ex_met e"

fun meet :: "string \<Rightarrow> go_value list \<Rightarrow> expectation list \<Rightarrow> go_value list go \<times> expectation list" where
  "meet name args [] = (Panic (''unexpected call to '' @ name), [])"
| "meet name args (e # es) =
     (if open_for name args e then (Ok (ex_ret e), e\<lparr>ex_met := True\<rparr> # es)
      else case meet name args es of (r, es) \<Rightarrow> (r, e # es))"

definition mem_gomock :: "expectation list gomock" where
  "mem_gomock = \<lparr>gm_call = meet,
     gm_record = (\<lambda>name args es. (length es, es @ [\<lparr>ex_name = name, ex_args = args, ex_ret = [VNil, VNil], ex_met = False\<rparr>]))\<rparr>"

definition mem_return :: "call_handle \<Rightarrow> go_value list \<Rightarrow> expectation list \<Rightarrow> expectation list" where
  "mem_return c vals es = es[c := (es ! c)\<lparr>ex_ret := vals\<rparr>]"

lemma meet_none: "\<not> list_ex (open_for name args) es \<Longrightarrow> meet name args es = (Panic (''unexpected call to '' @ name), es)"
  by (induction es) auto

lemma meet_last:
  "\<not> list_ex (open_for name args) es \<Longrightarrow> open_for name args e \<Longrightarrow>
     meet name args (es @ [e]) = (Ok (ex_ret e), es @ [e\<lparr>ex_met := True\<rparr>])"
  by (induction es) auto

interpretation mem_mock: gomock_api mem_gomock "\<lambda>es name args. list_ex (open_for name args) es" mem_return
  by unfold_locales (auto simp: mem_gomock_def mem_return_def meet_none meet_last open_for_def)

end
