(* ===== verification/Terratest.thy ===== *)
theory Terratest
  imports Gslb_Api
begin

text \<open>
  The helpers of the end-to-end tests in \<^verbatim>\<open>terratest/utils/utils.go\<close>: the comparison of answers, the loop
  that waits for a value, queries, assertions and the creation of a Gslb from a manifest.

  What they call of the packages \<^verbatim>\<open>terratest\<close> and \<^verbatim>\<open>gopkg/dns\<close>, of the file system and of the random
  generator is the record \<open>tt_lib\<close> over a world. A call of a test ends with a value, with the end of
  the goroutine of the test (\<^verbatim>\<open>t.FailNow\<close>, which a failed requirement calls) or with a panic; \<open>tbind\<close>
  goes on after a value only. Messages to the log of the test are left out.
\<close>

section \<open>Calls of a test\<close>

datatype 'a test = Done 'a | FailNow | Panicked string

type_synonym ('w, 'a) tt = "'w \<Rightarrow> 'a test \<times> 'w"

definition treturn :: "'a \<Rightarrow> ('w, 'a) tt" where
  "treturn x w = (Done x, w)"

definition tbind :: "('w, 'a) tt \<Rightarrow> ('a \<Rightarrow> ('w, 'b) tt) \<Rightarrow> ('w, 'b) tt" where
  "tbind m f w =
     (case m w of (Done x, w) \<Rightarrow> f x w | (FailNow, w) \<Rightarrow> (FailNow, w) | (Panicked p, w) \<Rightarrow> (Panicked p, w))"

text \<open>\<^verbatim>\<open>require.True\<close>.\<close>

definition require :: "bool \<Rightarrow> ('w, unit) tt" where
  "require b w = (if b then Done () else FailNow, w)"

text \<open>A call that cannot fail the test.\<close>

definition call :: "('w \<Rightarrow> 'a \<times> 'w) \<Rightarrow> ('w, 'a) tt" where
  "call f w = (case f w of (x, w) \<Rightarrow> (Done x, w))"

section \<open>Comparing and waiting\<close>

fun equal_loop :: "string list \<Rightarrow> string list \<Rightarrow> nat list \<Rightarrow> bool" where
  "equal_loop x y [] = True"
| "equal_loop x y (i # is) = (if x ! i \<noteq> y ! i then False else equal_loop x y is)"

definition EqualStringSlices :: "string list \<Rightarrow> string list \<Rightarrow> bool" where
  "EqualStringSlices a b =
     (if length a \<noteq> length b then False
      else let x = sort a; y = sort b in equal_loop x y [0..<length x])"

datatype retry_error = MaxRetriesExceeded string int

type_synonym 'w action = "('w, string list \<times> goerr option) tt"
type_synonym retry_result = "string list \<times> retry_error option"

text \<open>The attempts that are left, and the output of the last one.\<close>

fun retry_loop ::
    "('w \<Rightarrow> 'w) \<Rightarrow> 'w action \<Rightarrow> string list \<Rightarrow> retry_error \<Rightarrow> nat \<Rightarrow> string list \<Rightarrow> ('w, retry_result) tt" where
  "retry_loop sleep action expected exceeded 0 output = treturn (output, Some exceeded)"
| "retry_loop sleep action expected exceeded (Suc n) _ =
     tbind action (\<lambda>(output, err).
       if err \<noteq> None then treturn (output, None)
       else if EqualStringSlices output expected then treturn (output, None)
       else (\<lambda>w. retry_loop sleep action expected exceeded n output (sleep w)))"

definition DoWithRetryWaitingForValueE ::
    "('w \<Rightarrow> 'w) \<Rightarrow> string \<Rightarrow> int \<Rightarrow> 'w action \<Rightarrow> string list \<Rightarrow> ('w, retry_result) tt" where
  "DoWithRetryWaitingForValueE sleep actionDescription maxRetries action expectedResult =
     retry_loop sleep action expectedResult (MaxRetriesExceeded actionDescription maxRetries) (nat (maxRetries + 1)) []"

text \<open>\<^verbatim>\<open>strings.NewReplacer\<close> with old strings that are not empty: at each position the first of them that
  matches is replaced, and what was put in is not looked at again.\<close>

fun replacer :: "(string \<times> string) list \<Rightarrow> string \<Rightarrow> string" where
  "replacer oldnew [] = []"
| "replacer oldnew (c # s) =
     (case find (\<lambda>(old, new). hasPrefix old (c # s)) oldnew of
        Some (old, new) \<Rightarrow> new @ replacer oldnew (drop (length old - 1) s)
      | None \<Rightarrow> c # replacer oldnew s)"

section \<open>The library\<close>

type_synonym kubectl_options = "string \<times> string"

text \<open>The calls that return nothing and fail the test on an error.\<close>

datatype tt_call =
    CreateNamespace string
  | DeleteNamespace string
  | KubectlApply string
  | KubectlApplyFromString string
  | WaitUntilIngressAvailable string
  | RunCommand "string list"
  | HelmInstall string "(string \<times> string) list" string string
  | WaitUntilNumPodsCreated string nat
  | WaitUntilPodAvailable string
  | WaitUntilServiceAvailable string

record 'w tt_lib =
  tt_sleep :: "'w \<Rightarrow> 'w"
  tt_kubectl :: "kubectl_options \<Rightarrow> string list \<Rightarrow> 'w \<Rightarrow> (string \<times> goerr option) \<times> 'w"
  tt_output :: "string list \<Rightarrow> ('w, string) tt"
  tt_outputE :: "string list \<Rightarrow> 'w \<Rightarrow> (string \<times> goerr option) \<times> 'w"
  tt_dig :: "string \<Rightarrow> string \<Rightarrow> 'w \<Rightarrow> (string list \<times> goerr option) \<times> 'w"
  tt_do :: "kubectl_options \<Rightarrow> tt_call \<Rightarrow> ('w, unit) tt"
  tt_getIngress :: "kubectl_options \<Rightarrow> string \<Rightarrow> ('w, ingress) tt"
  tt_listPods :: "kubectl_options \<Rightarrow> string \<Rightarrow> ('w, string list) tt"
  tt_abs :: "string \<Rightarrow> string \<times> goerr option"
  tt_readFile :: "string \<Rightarrow> goerr + string"
  tt_manifestName :: "string \<Rightarrow> goerr + string"
  tt_uniqueId :: "'w \<Rightarrow> string \<times> 'w"

text \<open>Calls one after the other; \<^verbatim>\<open>RunKubectl\<close> fails the test on an error.\<close>

fun do_all :: "'w tt_lib \<Rightarrow> kubectl_options \<Rightarrow> tt_call list \<Rightarrow> ('w, unit) tt" where
  "do_all tt options [] = treturn ()"
| "do_all tt options (c # cs) = tbind (tt_do tt options c) (\<lambda>_. do_all tt options cs)"

definition RunKubectl :: "'w tt_lib \<Rightarrow> kubectl_options \<Rightarrow> string list \<Rightarrow> ('w, unit) tt" where
  "RunKubectl tt options args = tbind (call (tt_kubectl tt options args)) (\<lambda>(_, err). require (err = None))"

section \<open>Queries\<close>

text \<open>The lines that the program \<^verbatim>\<open>dig\<close> prints, sorted; the error is always nil.\<close>

definition Dig :: "'w tt_lib \<Rightarrow> string \<Rightarrow> int \<Rightarrow> string \<Rightarrow> string list \<Rightarrow> 'w action" where
  "Dig tt dnsServer dnsPort dnsName additionalArgs =
     (let port = ''-p'' @ itoa dnsPort; dnsServer = sprintf ''@%s'' [dnsServer] in
      tbind (tt_output tt (''dig'' # [port, dnsServer, dnsName, ''+short''] @ additionalArgs)) (\<lambda>digAppOut.
        treturn (sort (split_on (CHR 0x0A) digAppOut), None)))"

fun lb_loop :: "'w tt_lib \<Rightarrow> lb_ingress list \<Rightarrow> string list \<Rightarrow> ('w, string list) tt" where
  "lb_loop tt [] ingressIPs = treturn ingressIPs"
| "lb_loop tt (lb # lbs) ingressIPs =
     (if 0 < length (lb_ip lb) then lb_loop tt lbs (ingressIPs @ [lb_ip lb])
      else if 0 < length (lb_hostname lb)
      then tbind (Dig tt ''1.1.1.1'' 53 (lb_hostname lb) []) (\<lambda>(digLbHostnameIPs, _).
             lb_loop tt lbs (ingressIPs @ digLbHostnameIPs))
      else lb_loop tt lbs ingressIPs)"

definition GetIngressIPs :: "'w tt_lib \<Rightarrow> kubectl_options \<Rightarrow> string \<Rightarrow> ('w, string list) tt" where
  "GetIngressIPs tt options ingressName =
     tbind (tt_getIngress tt options ingressName) (\<lambda>ingress. lb_loop tt (ing_lb ingress) [])"

definition WaitForLocalGSLB :: "'w tt_lib \<Rightarrow> string \<Rightarrow> int \<Rightarrow> string \<Rightarrow> string list \<Rightarrow> ('w, retry_result) tt" where
  "WaitForLocalGSLB tt dnsServer dnsPort host expectedResult =
     DoWithRetryWaitingForValueE (tt_sleep tt) ''Wait for failover to happen and coredns to pickup new values...'' 300
       (Dig tt dnsServer dnsPort host []) expectedResult"

definition RunBusyBoxCommand :: "'w tt_lib \<Rightarrow> kubectl_options \<Rightarrow> string \<Rightarrow> 'w \<Rightarrow> (string \<times> goerr option) \<times> 'w" where
  "RunBusyBoxCommand tt options command =
     tt_outputE tt [''kubectl'', ''--context'', fst options, ''-n'', snd options, ''run'', ''-i'', ''--rm'', ''busybox'',
       ''--restart'', ''Never'', ''--image'', ''busybox'', ''--'', ''sh'', ''-c'', command]"

section \<open>Assertions\<close>

definition status_args :: "string \<Rightarrow> string list" where
  "status_args gslbName = [''get'', ''gslb'', gslbName, ''-o'', ''custom-columns=SERVICESTATUS:.status.serviceHealth'', ''--no-headers'']"

definition AssertGslbStatus :: "'w tt_lib \<Rightarrow> kubectl_options \<Rightarrow> string \<Rightarrow> string \<Rightarrow> ('w, unit) tt" where
  "AssertGslbStatus tt options gslbName serviceStatus =
     (let actualHealthStatus =
            tbind (call (tt_kubectl tt options (status_args gslbName))) (\<lambda>(k8gbServiceHealth, _). treturn ([k8gbServiceHealth], None));
          expectedHealthStatus = [sprintf ''map[%s]'' [serviceStatus]]
      in tbind (DoWithRetryWaitingForValueE (tt_sleep tt) ''Wait for expected ServiceHealth status...'' 60
                  actualHealthStatus expectedHealthStatus)
           (\<lambda>(_, err). require (err = None)))"

text \<open>The outcome of an assertion that does not stop the test (\<^verbatim>\<open>assert.Equal\<close>) is the value.\<close>

definition AssertGslbSpec :: "'w tt_lib \<Rightarrow> kubectl_options \<Rightarrow> string \<Rightarrow> string \<Rightarrow> string \<Rightarrow> ('w, bool) tt" where
  "AssertGslbSpec tt options gslbName specPath expectedValue =
     tbind (call (tt_kubectl tt options [''get'', ''gslb'', gslbName, ''-o'',
             sprintf ''custom-columns=SERVICESTATUS:%s'' [specPath], ''--no-headers''])) (\<lambda>(actualValue, err).
       tbind (require (err = None)) (\<lambda>_. treturn (expectedValue = actualValue)))"

definition AssertDNSEndpointLabel :: "'w tt_lib \<Rightarrow> kubectl_options \<Rightarrow> string \<Rightarrow> ('w, unit) tt" where
  "AssertDNSEndpointLabel tt options label = RunKubectl tt options [''get'', ''dnsendpoint'', ''-l'', label]"

definition AssertGslbDeleted :: "'w tt_lib \<Rightarrow> kubectl_options \<Rightarrow> string \<Rightarrow> ('w, bool) tt" where
  "AssertGslbDeleted tt options gslbName =
     (let deletionExpected = [sprintf ''Error from server (NotFound): gslbs.k8gb.absa.oss \"%s\" not found'' [gslbName]];
          action = tbind (call (tt_kubectl tt options [''get'', ''gslb'', gslbName])) (\<lambda>(out, err). treturn ([out], err))
      in tbind (DoWithRetryWaitingForValueE (tt_sleep tt) ''Waiting for Gslb CR to be deleted...'' 300 action deletionExpected)
           (\<lambda>(deletionActual, err). tbind (require (err = None)) (\<lambda>_. treturn (deletionExpected = deletionActual))))"

section \<open>Creating a Gslb\<close>

record TestSettings =
  DNSZone :: string
  PrimaryGeoTag :: string
  SecondaryGeoTag :: string
  DNSServer1 :: string
  Port1 :: int
  DNSServer2 :: string
  Port2 :: int
  Cluster1 :: string
  Cluster2 :: string
  PodinfoImage :: string

definition zoneReplacer :: "TestSettings \<Rightarrow> (string \<times> string) list" where
  "zoneReplacer settings =
     [(''cloud.example.com'', DNSZone settings),
      (''primaryGeoTag: \"eu\"'', sprintf ''primaryGeoTag: \"%s\"'' [PrimaryGeoTag settings]),
      (''primaryGeoTag: \"us\"'', sprintf ''primaryGeoTag: \"%s\"'' [SecondaryGeoTag settings]),
      (''k8gb.io/primary-geotag: \"eu\"'', sprintf ''k8gb.io/primary-geotag: \"%s\"'' [PrimaryGeoTag settings])]"

text \<open>\<^verbatim>\<open>log.Fatal\<close> ends the whole process; no call of the test goes on after it either.\<close>

definition CreateGslb :: "'w tt_lib \<Rightarrow> kubectl_options \<Rightarrow> TestSettings \<Rightarrow> string \<Rightarrow> ('w, unit) tt" where
  "CreateGslb tt options settings kubeResourcePath =
     (case tt_readFile tt kubeResourcePath of
        Inl err \<Rightarrow> require False
      | Inr k8sManifestBytes \<Rightarrow>
          tt_do tt options (KubectlApplyFromString (replacer (zoneReplacer settings) k8sManifestBytes)))"

definition install_app :: "'w tt_lib \<Rightarrow> kubectl_options \<Rightarrow> string \<Rightarrow> (string \<times> string) list \<Rightarrow> string \<Rightarrow> ('w, unit) tt" where
  "install_app tt options version values name =
     (let testAppFilter = ''app.kubernetes.io/name='' @ name in
      tbind (do_all tt options
             [RunCommand [''helm'', ''repo'', ''add'', ''--force-update'', ''podinfo'', ''https://stefanprodan.github.io/podinfo''],
              RunCommand [''helm'', ''repo'', ''update''],
              HelmInstall version values ''podinfo/podinfo'' ''frontend'',
              WaitUntilNumPodsCreated testAppFilter 1]) (\<lambda>_.
      tbind (tt_listPods tt options testAppFilter) (\<lambda>testAppPods.
      do_all tt options (map WaitUntilPodAvailable testAppPods @ [WaitUntilServiceAvailable name]))))"

definition InstallPodinfo :: "'w tt_lib \<Rightarrow> kubectl_options \<Rightarrow> TestSettings \<Rightarrow> ('w, unit) tt" where
  "InstallPodinfo tt options settings =
     install_app tt options ''5.2.0'' [(''image.repository'', PodinfoImage settings)] ''frontend-podinfo''"

definition CreateGslbWithHealthyApp :: "'w tt_lib \<Rightarrow> kubectl_options \<Rightarrow> TestSettings \<Rightarrow> string \<Rightarrow> string \<Rightarrow> string \<Rightarrow> ('w, unit) tt" where
  "CreateGslbWithHealthyApp tt options settings kubeResourcePath gslbName hostName =
     tbind (CreateGslb tt options settings kubeResourcePath) (\<lambda>_.
     tbind (tt_do tt options (WaitUntilIngressAvailable gslbName)) (\<lambda>_.
     tbind (tt_getIngress tt options gslbName) (\<lambda>ingress.
     tbind (require (om_name (ing_meta ingress) = gslbName)) (\<lambda>_.
     tbind (InstallPodinfo tt options settings) (\<lambda>_.
     AssertGslbStatus tt options gslbName (sprintf ''%s:Healthy'' [hostName]))))))"

section \<open>Lemmas\<close>

lemma treturn_Done [simp]: "treturn x w = (r, w') \<longleftrightarrow> r = Done x \<and> w' = w"
  by (auto simp: treturn_def)

lemma require_Done [simp]: "require b w = (Done u, w') \<longleftrightarrow> b \<and> w' = w"
  by (auto simp: require_def)

lemma call_Done [simp]: "call f w = (Done x, w') \<longleftrightarrow> f w = (x, w')"
  by (auto simp: call_def split: prod.splits)

lemma tbind_Done: "tbind m f w = (Done y, w2) \<longleftrightarrow> (\<exists>x w1. m w = (Done x, w1) \<and> f x w1 = (Done y, w2))"
  by (auto simp: tbind_def split: prod.splits test.splits)

lemma tbind_step: "m w = (Done x, w1) \<Longrightarrow> tbind m f w = f x w1"
  by (simp add: tbind_def)

lemma equal_loop_iff: "equal_loop x y is \<longleftrightarrow> (\<forall>i \<in> set is. x ! i = y ! i)"
  by (induction "is") auto

lemma EqualStringSlices_iff: "EqualStringSlices a b \<longleftrightarrow> mset a = mset b"
proof -
  have "EqualStringSlices a b \<longleftrightarrow> length (sort a) = length (sort b) \<and> (\<forall>i < length (sort a). sort a ! i = sort b ! i)"
    by (auto simp: EqualStringSlices_def equal_loop_iff Let_def)
  also have "\<dots> \<longleftrightarrow> sort a = sort b" by (rule list_eq_iff_nth_eq [symmetric])
  also have "\<dots> \<longleftrightarrow> mset a = mset b"
    by (metis mset_sort properties_for_sort sorted_sort)
  finally show ?thesis .
qed

text \<open>The world in which the attempt with a given number is made, when none before it ends the loop,
  and what ends it.\<close>

primrec attempt :: "('w \<Rightarrow> 'w) \<Rightarrow> 'w action \<Rightarrow> nat \<Rightarrow> 'w \<Rightarrow> 'w" where
  "attempt sleep action 0 w = w"
| "attempt sleep action (Suc i) w = attempt sleep action i (sleep (snd (action w)))"

definition misses :: "string list \<Rightarrow> (string list \<times> goerr option) test \<Rightarrow> bool" where
  "misses expected r = (case r of Done (out, None) \<Rightarrow> mset out \<noteq> mset expected | _ \<Rightarrow> False)"

text \<open>What the loop makes of the attempt that ends it.\<close>

definition verdict :: "(string list \<times> goerr option) test \<Rightarrow> retry_result test" where
  "verdict r = (case r of Done (out, _) \<Rightarrow> Done (out, None) | FailNow \<Rightarrow> FailNow | Panicked p \<Rightarrow> Panicked p)"

lemma retry_Suc:
  "retry_loop sleep action expected exceeded (Suc n) out w =
     (if misses expected (fst (action w))
      then retry_loop sleep action expected exceeded n
             (case fst (action w) of Done (o1, _) \<Rightarrow> o1 | _ \<Rightarrow> []) (sleep (snd (action w)))
      else (verdict (fst (action w)), snd (action w)))"
  by (auto simp: misses_def verdict_def tbind_def treturn_def EqualStringSlices_iff split: prod.splits test.splits option.splits)

declare retry_loop.simps(2) [simp del]

lemma retry_stops:
  assumes "i < n" "\<not> misses expected (fst (action (attempt sleep action i w)))"
    "\<forall>j < i. misses expected (fst (action (attempt sleep action j w)))"
  shows "retry_loop sleep action expected exceeded n out w =
    (let r = action (attempt sleep action i w) in (verdict (fst r), snd r))"
  using assms
proof (induction i arbitrary: n out w)
  case 0
  then show ?case by (cases n) (auto simp: retry_Suc Let_def)
next
  case (Suc i)
  then obtain m where "n = Suc m" "i < m" by (cases n) auto
  moreover have "\<forall>j < i. misses expected (fst (action (attempt sleep action j (sleep (snd (action w))))))"
    "misses expected (fst (action w))"
    using Suc.prems(3) by force+
  ultimately show ?case using Suc.IH [of m "sleep (snd (action w))"] Suc.prems(2) by (simp add: retry_Suc)
qed

lemma retry_exceeds:
  assumes "\<forall>i < n. misses expected (fst (action (attempt sleep action i w)))"
  shows "\<exists>out'. retry_loop sleep action expected exceeded n out w = (Done (out', Some exceeded), attempt sleep action n w)"
  using assms
proof (induction n arbitrary: out w)
  case (Suc n)
  have "\<forall>i < n. misses expected (fst (action (attempt sleep action i (sleep (snd (action w))))))" "misses expected (fst (action w))"
    using Suc.prems by force+
  with Suc.IH show ?case by (simp add: retry_Suc)
qed (simp add: treturn_def)

lemma retry_none:
  "retry_loop sleep action expected exceeded n out0 w = (Done (out, None), w') \<Longrightarrow>
     \<exists>w1 err. action w1 = (Done (out, err), w') \<and> (err = None \<longrightarrow> mset out = mset expected)"
proof (induction n arbitrary: out0 w)
  case (Suc n)
  show ?case
  proof (cases "misses expected (fst (action w))")
    case True
    with Suc show ?thesis by (simp add: retry_Suc)
  next
    case False
    with Suc.prems show ?thesis
      by (cases "action w") (auto simp: retry_Suc misses_def verdict_def split: test.splits prod.splits option.splits; blast)
  qed
qed (simp add: treturn_def)

text \<open>A status that was awaited was reported by \<^verbatim>\<open>kubectl\<close> at some moment.\<close>

lemma AssertGslbStatus_done:
  assumes "AssertGslbStatus tt options gslbName st w = (Done (), w')"
  shows "\<exists>w1 err. tt_kubectl tt options (status_args gslbName) w1 = ((sprintf ''map[%s]'' [st], err), w')"
  using assms
  by (auto simp: AssertGslbStatus_def DoWithRetryWaitingForValueE_def Let_def tbind_Done
      dest!: retry_none split: prod.splits; blast)

text \<open>A text that holds none of the strings to replace is left alone.\<close>

lemma find_None_iff: "find P xs = None \<longleftrightarrow> (\<forall>x \<in> set xs. \<not> P x)"
  by (induction xs) auto

lemma replacer_none: "\<forall>(old, new) \<in> set ps. \<not> strContains old s \<Longrightarrow> replacer ps s = s"
proof (induction s)
  case (Cons c s)
  have "\<forall>p \<in> set ps. \<not> hasPrefix (fst p) (c # s) \<and> \<not> strContains (fst p) s"
    using Cons.prems by (auto simp: case_prod_beta)
  then have "find (\<lambda>(old, new). hasPrefix old (c # s)) ps = None" "\<forall>(old, new) \<in> set ps. \<not> strContains old s"
    by (simp_all add: find_None_iff case_prod_beta)
  with Cons.IH show ?case by simp
qed simp

section \<open>Properties\<close>

text \<open>
  C29. The loop that waits for a value makes at most \<^verbatim>\<open>maxRetries + 1\<close> attempts. It ends with the output
  of the first attempt whose lines are those expected, in any order, or whose action fails; in both
  cases it reports no error, so a failed action cannot be told from a match. An attempt that ends
  the test ends the loop. When no attempt ends it, the error says that the retries are used up.
\<close>

theorem retry_waits:
  "(\<forall>i. int i \<le> maxRetries \<and> \<not> misses expected (fst (action (attempt sleep action i w))) \<and>
        (\<forall>j < i. misses expected (fst (action (attempt sleep action j w)))) \<longrightarrow>
      DoWithRetryWaitingForValueE sleep d maxRetries action expected w =
        (let r = action (attempt sleep action i w) in (verdict (fst r), snd r))) \<and>
   ((\<forall>i. int i \<le> maxRetries \<longrightarrow> misses expected (fst (action (attempt sleep action i w)))) \<longrightarrow>
      (\<exists>out. fst (DoWithRetryWaitingForValueE sleep d maxRetries action expected w) =
         Done (out, Some (MaxRetriesExceeded d maxRetries))))"
proof (intro conjI allI impI)
  fix i assume "int i \<le> maxRetries \<and> \<not> misses expected (fst (action (attempt sleep action i w))) \<and>
    (\<forall>j < i. misses expected (fst (action (attempt sleep action j w))))"
  then show "DoWithRetryWaitingForValueE sleep d maxRetries action expected w =
    (let r = action (attempt sleep action i w) in (verdict (fst r), snd r))"
    unfolding DoWithRetryWaitingForValueE_def by (intro retry_stops) auto
next
  assume "\<forall>i. int i \<le> maxRetries \<longrightarrow> misses expected (fst (action (attempt sleep action i w)))"
  then have "\<forall>i < nat (maxRetries + 1). misses expected (fst (action (attempt sleep action i w)))" by auto
  from retry_exceeds [OF this]
  show "\<exists>out. fst (DoWithRetryWaitingForValueE sleep d maxRetries action expected w) =
      Done (out, Some (MaxRetriesExceeded d maxRetries))"
    unfolding DoWithRetryWaitingForValueE_def by (metis fst_conv)
qed

text \<open>An answer that becomes the expected one at the third attempt.\<close>

definition rising :: "nat action" where
  "rising n = treturn ((if 2 \<le> n then [''10.0.0.2'', ''10.0.0.1''] else []), None) n"

theorem retry_waits_witness:
  "DoWithRetryWaitingForValueE Suc ''dig'' 5 rising [''10.0.0.1'', ''10.0.0.2''] 0 = (Done ([''10.0.0.2'', ''10.0.0.1''], None), 2) \<and>
   (\<exists>out. fst (DoWithRetryWaitingForValueE Suc ''dig'' 1 rising [''10.0.0.1'', ''10.0.0.2''] 0) =
      Done (out, Some (MaxRetriesExceeded ''dig'' 1)))"
proof -
  have a: "attempt Suc rising i n = n + i" for i n by (induction i arbitrary: n) (simp_all add: rising_def treturn_def)
  have s: "misses [''10.0.0.1'', ''10.0.0.2''] (fst (rising n)) \<longleftrightarrow> n < 2" for n
    by (auto simp: misses_def rising_def treturn_def)
  have "DoWithRetryWaitingForValueE Suc ''dig'' 5 rising [''10.0.0.1'', ''10.0.0.2''] 0 =
      (let r = rising (attempt Suc rising 2 0) in (verdict (fst r), snd r))"
    by (rule retry_waits [THEN conjunct1, rule_format]) (simp add: a s)
  then have "DoWithRetryWaitingForValueE Suc ''dig'' 5 rising [''10.0.0.1'', ''10.0.0.2''] 0 = (Done ([''10.0.0.2'', ''10.0.0.1''], None), 2)"
    by (simp add: a rising_def treturn_def verdict_def)
  moreover have "\<exists>out. fst (DoWithRetryWaitingForValueE Suc ''dig'' 1 rising [''10.0.0.1'', ''10.0.0.2''] 0) =
      Done (out, Some (MaxRetriesExceeded ''dig'' 1))"
    by (rule retry_waits [THEN conjunct2, rule_format]) (simp add: a s)
  ultimately show ?thesis by blast
qed

end
