(* ===== verification/Test_Workflow.thy ===== *)
theory Test_Workflow
  imports Terratest Dep_Config
begin

text \<open>
  The workflows of the end-to-end tests (\<^verbatim>\<open>terratest/utils/extensions.go\<close>): the builder, \<^verbatim>\<open>Start\<close>, and what
  a test does with a running instance; and the settings of the tests (\<^verbatim>\<open>terratest/test/init.go\<close>).
\<close>

section \<open>Settings\<close>

definition init_settings :: "env \<Rightarrow> TestSettings" where
  "init_settings e =
     (let (p1, _) = getEnvAsInt e ''DNS_SERVER1_PORT'' 5053;
          (p2, _) = getEnvAsInt e ''DNS_SERVER2_PORT'' 5054
      in \<lparr>DNSZone = getEnvAsString e ''GSLB_DOMAIN'' ''cloud.example.com'',
          PrimaryGeoTag = getEnvAsString e ''PRIMARY_GEO_TAG'' ''eu'',
          SecondaryGeoTag = getEnvAsString e ''SECONDARY_GEO_TAG'' ''us'',
          DNSServer1 = getEnvAsString e ''DNS_SERVER1'' ''localhost'',
          Port1 = p1,
          DNSServer2 = getEnvAsString e ''DNS_SERVER2'' ''localhost'',
          Port2 = p2,
          Cluster1 = getEnvAsString e ''K8GB_CLUSTER1'' ''k3d-test-gslb1'',
          Cluster2 = getEnvAsString e ''K8GB_CLUSTER2'' ''k3d-test-gslb2'',
          PodinfoImage = getEnvAsString e ''PODINFO_IMAGE_REPO'' ''ghcr.io/stefanprodan/podinfo''\<rparr>)"

section \<open>Builder\<close>

record Workflow =
  wf_error :: "goerr option"
  wf_namespace :: string
  wf_cluster :: string
  wf_k8sOptions :: kubectl_options
  wf_ingressResourcePath :: string
  wf_gslbResourcePath :: string
  wf_ingressName :: string
  wf_namespaceCreated :: bool
  wf_app_name :: string
  wf_app_message :: string
  wf_app_isRunning :: bool
  wf_app_isInstalled :: bool
  wf_gslb_name :: string
  wf_gslb_host :: string
  wf_gslb_port :: int

definition NewWorkflow :: "'w tt_lib \<Rightarrow> string \<Rightarrow> int \<Rightarrow> 'w \<Rightarrow> Workflow \<times> 'w" where
  "NewWorkflow tt cluster port w =
     (let err = (if cluster = [] then Some (Errorf ''empty cluster'' []) else None);
          err = (if port < 1000 then Some (Errorf ''invalid port'' []) else err);
          (uid, w) = tt_uniqueId tt w;
          namespace = sprintf ''k8gb-test-%s'' [toLower uid]
      in (\<lparr>wf_error = err, wf_namespace = namespace, wf_cluster = cluster, wf_k8sOptions = (cluster, namespace),
           wf_ingressResourcePath = [], wf_gslbResourcePath = [], wf_ingressName = [], wf_namespaceCreated = False,
           wf_app_name = [], wf_app_message = [], wf_app_isRunning = False, wf_app_isInstalled = False,
           wf_gslb_name = [], wf_gslb_host = [], wf_gslb_port = port\<rparr>, w))"

definition WithIngress :: "string \<Rightarrow> Workflow \<Rightarrow> Workflow" where
  "WithIngress path w =
     (let w = (if path = [] then w\<lparr>wf_error := Some (Errorf ''empty ingress resource path'' [])\<rparr> else w)
      in w\<lparr>wf_ingressResourcePath := path\<rparr>)"

definition getManifestName :: "'w tt_lib \<Rightarrow> string \<Rightarrow> string \<times> goerr option" where
  "getManifestName tt path =
     (case tt_readFile tt path of
        Inl err \<Rightarrow> ([], Some (Errorf ''parse %s; %s'' [path, err_text err]))
      | Inr yamlFile \<Rightarrow>
          (case tt_manifestName tt yamlFile of
             Inl err \<Rightarrow> ([], Some (Errorf ''unmarshall %s; %s'' [path, err_text err]))
           | Inr name \<Rightarrow> (name, None)))"

definition WithGslb :: "'w tt_lib \<Rightarrow> string \<Rightarrow> string \<Rightarrow> Workflow \<Rightarrow> Workflow" where
  "WithGslb tt path host w =
     (let w = (if host = [] then w\<lparr>wf_error := Some (Errorf ''empty gslb host'' [])\<rparr> else w);
          w = (if path = [] then w\<lparr>wf_error := Some (Errorf ''empty gslb resource path'' [])\<rparr> else w);
          (abs, err) = tt_abs tt path;
          w = w\<lparr>wf_gslbResourcePath := abs\<rparr>;
          w = (case err of Some err \<Rightarrow> w\<lparr>wf_error := Some (Errorf ''reading %s; %s'' [path, err_text err])\<rparr> | None \<Rightarrow> w);
          (name, err) = getManifestName tt (wf_gslbResourcePath w);
          w = w\<lparr>wf_gslb_name := name\<rparr>;
          w = (if err \<noteq> None then w\<lparr>wf_error := err\<rparr> else w);
          w = w\<lparr>wf_gslb_host := host\<rparr>
      in if err \<noteq> None then w\<lparr>wf_error := err\<rparr> else w)"

definition WithTestApp :: "string \<Rightarrow> Workflow \<Rightarrow> Workflow" where
  "WithTestApp uiMessage w =
     w\<lparr>wf_app_isInstalled := True, wf_app_name := ''frontend-podinfo'', wf_app_message := uiMessage\<rparr>"

section \<open>Start\<close>

text \<open>The steps of \<^verbatim>\<open>Start\<close>: the Gslb and the application. The part for an Ingress is empty in the code.\<close>

definition start_gslb :: "'w tt_lib \<Rightarrow> Workflow \<Rightarrow> ('w, Workflow) tt" where
  "start_gslb tt i =
     (if wf_gslbResourcePath i \<noteq> []
      then tbind (do_all tt (wf_k8sOptions i) [KubectlApply (wf_gslbResourcePath i), WaitUntilIngressAvailable (wf_gslb_name i)]) (\<lambda>_.
           tbind (tt_getIngress tt (wf_k8sOptions i) (wf_gslb_name i)) (\<lambda>ingress.
           tbind (require (om_name (ing_meta ingress) = wf_gslb_name i)) (\<lambda>_.
           treturn (i\<lparr>wf_ingressName := wf_gslb_name i\<rparr>))))
      else treturn i)"

definition start_app :: "'w tt_lib \<Rightarrow> Workflow \<Rightarrow> ('w, Workflow) tt" where
  "start_app tt i =
     (if wf_app_isInstalled i
      then tbind (install_app tt (wf_k8sOptions i) ''5.1.1'' [(''ui.message'', wf_app_message i)] (wf_app_name i)) (\<lambda>_.
           treturn (i\<lparr>wf_app_isRunning := True\<rparr>))
      else treturn i)"

definition Start :: "'w tt_lib \<Rightarrow> Workflow \<Rightarrow> ('w, goerr + Workflow) tt" where
  "Start tt i =
     (case wf_error i of
        Some err \<Rightarrow> treturn (Inl err)
      | None \<Rightarrow>
          tbind (tt_do tt (wf_k8sOptions i) (CreateNamespace (wf_namespace i))) (\<lambda>_.
          tbind (start_gslb tt (i\<lparr>wf_namespaceCreated := True\<rparr>)) (\<lambda>i.
          tbind (start_app tt i) (\<lambda>i. treturn (Inr i)))))"

section \<open>Instances\<close>

text \<open>An instance is its workflow.\<close>

definition Kill :: "'w tt_lib \<Rightarrow> Workflow \<Rightarrow> ('w, unit) tt" where
  "Kill tt i =
     (if wf_namespaceCreated i then tt_do tt (wf_k8sOptions i) (DeleteNamespace (wf_namespace i)) else treturn ())"

definition GetCoreDNSIP :: "'w tt_lib \<Rightarrow> Workflow \<Rightarrow> ('w, string) tt" where
  "GetCoreDNSIP tt i =
     tbind (call (tt_outputE tt [''kubectl'', ''--context'', fst (wf_k8sOptions i), ''-n'', ''k8gb'', ''get'', ''svc'',
              ''k8gb-coredns'', ''--no-headers'', ''-o'', ''custom-columns=IP:spec.clusterIPs[0]''])) (\<lambda>(out, err).
     tbind (require (err = None)) (\<lambda>_.
     tbind (require (out \<noteq> ''<none>'')) (\<lambda>_. treturn out)))"

definition Instance_GetIngressIPs :: "'w tt_lib \<Rightarrow> Workflow \<Rightarrow> ('w, string list) tt" where
  "Instance_GetIngressIPs tt i =
     tbind (tt_getIngress tt (wf_k8sOptions i) (wf_ingressName i)) (\<lambda>ingress. treturn (map lb_ip (ing_lb ingress)))"

definition StopTestApp :: "'w tt_lib \<Rightarrow> Workflow \<Rightarrow> ('w, Workflow) tt" where
  "StopTestApp tt i =
     tbind (RunKubectl tt (wf_k8sOptions i) [''scale'', ''deploy'', wf_app_name i, ''--replicas=0'']) (\<lambda>_.
     tbind (AssertGslbStatus tt (wf_k8sOptions i) (wf_gslb_name i) (wf_gslb_host i @ '':Unhealthy'')) (\<lambda>_.
     treturn (i\<lparr>wf_app_isRunning := False\<rparr>)))"

definition StartTestApp :: "'w tt_lib \<Rightarrow> Workflow \<Rightarrow> ('w, Workflow) tt" where
  "StartTestApp tt i =
     tbind (RunKubectl tt (wf_k8sOptions i) [''scale'', ''deploy'', wf_app_name i, ''--replicas=1'']) (\<lambda>_.
     tbind (AssertGslbStatus tt (wf_k8sOptions i) (wf_gslb_name i) (wf_gslb_host i @ '':Healthy'')) (\<lambda>_.
     treturn (i\<lparr>wf_app_isRunning := True\<rparr>)))"

definition local_server :: "int \<Rightarrow> string" where
  "local_server port = ''localhost:'' @ itoa port"

definition Instance_Dig :: "'w tt_lib \<Rightarrow> Workflow \<Rightarrow> ('w, string list) tt" where
  "Instance_Dig tt i =
     tbind (call (tt_dig tt (local_server (wf_gslb_port i)) (wf_gslb_host i))) (\<lambda>(dig, err).
     tbind (require (err = None)) (\<lambda>_. treturn dig))"

definition GetLocalTargets :: "'w tt_lib \<Rightarrow> Workflow \<Rightarrow> ('w, string list) tt" where
  "GetLocalTargets tt i =
     (let dnsName = sprintf ''localtargets-%s'' [wf_gslb_host i] in
      tbind (call (tt_dig tt (local_server (wf_gslb_port i)) dnsName)) (\<lambda>(dig, err).
      tbind (require (err = None)) (\<lambda>_. treturn dig)))"

definition waitForLocalGSLBNew :: "'w tt_lib \<Rightarrow> string \<Rightarrow> int \<Rightarrow> string list \<Rightarrow> ('w, retry_result) tt" where
  "waitForLocalGSLBNew tt host port expectedResult =
     DoWithRetryWaitingForValueE (tt_sleep tt) ''Wait for failover to happen and coredns to pickup new values...'' 100
       (call (tt_dig tt (local_server port) host)) expectedResult"

fun expected_loop :: "'w tt_lib \<Rightarrow> Workflow list \<Rightarrow> string list \<Rightarrow> ('w, string list) tt" where
  "expected_loop tt [] expectedIPs = treturn expectedIPs"
| "expected_loop tt (i # instances) expectedIPs =
     (if wf_app_isRunning i
      then tbind (GetLocalTargets tt i) (\<lambda>ip. expected_loop tt instances (expectedIPs @ ip))
      else expected_loop tt instances expectedIPs)"

definition WaitForGSLB :: "'w tt_lib \<Rightarrow> Workflow \<Rightarrow> Workflow list \<Rightarrow> ('w, retry_result) tt" where
  "WaitForGSLB tt i instances =
     tbind (expected_loop tt (instances @ [i]) []) (\<lambda>expectedIPs.
     waitForLocalGSLBNew tt (wf_gslb_host i) (wf_gslb_port i) expectedIPs)"

section \<open>The state of an instance\<close>

text \<open>An instance is a pointer to the workflow it was started from.\<close>

type_synonym Instance = Workflow

definition Instance_String :: "Instance \<Rightarrow> string" where
  "Instance_String i = sprintf ''Instance: %s:%s'' [wf_cluster i, wf_namespace i]"

record InstanceStatus =
  is_Annotation :: string
  is_AppMessage :: string
  is_AppRunning :: bool
  is_AppReplicas :: string
  is_LocalTargets :: "string list"
  is_Ingresses :: "string list"
  is_Dig :: "string list"
  is_CoreDNS :: string
  is_GslbHealthStatus :: string
  is_Cluster :: string
  is_Namespace :: string
  is_Endpoint0DNSName :: string
  is_Endpoint0Targets :: string
  is_Endpoint1DNSName :: string
  is_Endpoint1Targets :: string

text \<open>\<^verbatim>\<open>String\<close> leaves the printing to a library.\<close>

definition InstanceStatus_String :: "(InstanceStatus \<Rightarrow> string) \<Rightarrow> InstanceStatus \<Rightarrow> string" where
  "InstanceStatus_String toString s = toString s"

text \<open>A query by \<^verbatim>\<open>kubectl\<close> whose failure shows as \<^verbatim>\<open>n/a\<close>.\<close>

definition kubectl_or_na :: "'w tt_lib \<Rightarrow> Workflow \<Rightarrow> string list \<Rightarrow> string \<Rightarrow> ('w, string) tt" where
  "kubectl_or_na tt i args column =
     tbind (call (tt_kubectl tt (wf_k8sOptions i) (''get'' # args @ [''-o'', ''custom-columns='' @ column, ''--no-headers''])))
       (\<lambda>(out, err). treturn (if err \<noteq> None then ''n/a'' else out))"

definition GetStatus :: "'w tt_lib \<Rightarrow> Workflow \<Rightarrow> string \<Rightarrow> ('w, InstanceStatus) tt" where
  "GetStatus tt i annotation =
     tbind (Instance_Dig tt i) (\<lambda>dig.
     tbind (GetLocalTargets tt i) (\<lambda>localTargets.
     tbind (Instance_GetIngressIPs tt i) (\<lambda>ingresses.
     tbind (GetCoreDNSIP tt i) (\<lambda>coreDNS.
     tbind (kubectl_or_na tt i [''deployments'', ''frontend-podinfo''] ''STATUS:.status.replicas'') (\<lambda>replicas.
     tbind (kubectl_or_na tt i [''gslb'', wf_gslb_name i] ''SERVICESTATUS:.status.serviceHealth'') (\<lambda>health.
     tbind (kubectl_or_na tt i [''dnsendpoints.externaldns.k8s.io'', ''test-gslb''] ''SERVICESTATUS:.spec.endpoints[0].dnsName'') (\<lambda>name0.
     tbind (kubectl_or_na tt i [''dnsendpoints.externaldns.k8s.io'', ''test-gslb''] ''SERVICESTATUS:.spec.endpoints[0].targets'') (\<lambda>targets0.
     tbind (kubectl_or_na tt i [''dnsendpoints.externaldns.k8s.io'', ''test-gslb''] ''SERVICESTATUS:.spec.endpoints[1].dnsName'') (\<lambda>name1.
     tbind (kubectl_or_na tt i [''dnsendpoints.externaldns.k8s.io'', ''test-gslb''] ''SERVICESTATUS:.spec.endpoints[1].targets'') (\<lambda>targets1.
     treturn
       \<lparr>is_Annotation = annotation, is_AppMessage = wf_app_message i, is_AppRunning = wf_app_isRunning i,
        is_AppReplicas = replicas, is_LocalTargets = localTargets, is_Ingresses = ingresses, is_Dig = dig,
        is_CoreDNS = coreDNS, is_GslbHealthStatus = health, is_Cluster = wf_cluster i, is_Namespace = wf_namespace i,
        is_Endpoint0DNSName = name0, is_Endpoint0Targets = targets0, is_Endpoint1DNSName = name1,
        is_Endpoint1Targets = targets1\<rparr>))))))))))"

text \<open>The status of an instance that missed its addresses is queried and printed.\<close>

definition WaitForExpected :: "'w tt_lib \<Rightarrow> Workflow \<Rightarrow> string list \<Rightarrow> ('w, retry_error option) tt" where
  "WaitForExpected tt i expectedIPs =
     tbind (waitForLocalGSLBNew tt (wf_gslb_host i) (wf_gslb_port i) expectedIPs) (\<lambda>(_, err).
     if err \<noteq> None
     then tbind (GetStatus tt i (sprintf ''expected IPs: [%s]'' [join_with (CHR '' '') expectedIPs])) (\<lambda>_. treturn err)
     else treturn err)"

definition WaitForAppIsRunning :: "'w tt_lib \<Rightarrow> Workflow \<Rightarrow> ('w, retry_error option) tt" where
  "WaitForAppIsRunning tt i =
     tbind (DoWithRetryWaitingForValueE (tt_sleep tt) ''Wait for failover to happen and coredns to pickup new values...'' 100
              (tbind (GetStatus tt i []) (\<lambda>s. treturn ([is_AppReplicas s], None))) [''1''])
       (\<lambda>(_, err). treturn err)"

record TestAppResult =
  ta_Message :: string
  ta_Version :: string
  ta_Color :: string
  ta_Pod :: string
  ta_Body :: string

text \<open>\<^verbatim>\<open>json.Unmarshal\<close> into the result is a parameter. Without an opening brace in front of the first
  closing one the second index is out of range.\<close>

definition HitTestApp ::
    "'w tt_lib \<Rightarrow> (string \<Rightarrow> TestAppResult \<Rightarrow> TestAppResult \<times> goerr option) \<Rightarrow> Workflow \<Rightarrow> ('w, TestAppResult) tt" where
  "HitTestApp tt unmarshal i =
     tbind (require (wf_app_isInstalled i)) (\<lambda>_.
     tbind (GetCoreDNSIP tt i) (\<lambda>coreDNSIP.
     let command = sprintf ''echo nameserver %s > /etc/resolv.conf && wget -qO - %s'' [coreDNSIP, wf_gslb_host i] in
     tbind (call (RunBusyBoxCommand tt (wf_k8sOptions i) command)) (\<lambda>(body, err).
     let result = \<lparr>ta_Message = [], ta_Version = [], ta_Color = [], ta_Pod = [], ta_Body = body\<rparr> in
     tbind (require (err = None)) (\<lambda>_.
     let parts = split_on (CHR ''{'') (split_on (CHR ''}'') body ! 0) in
     if length parts < 2 then (\<lambda>w. (Panicked ''index out of range'', w))
     else case unmarshal (''{'' @ parts ! 1 @ ''}'') result of
            (result, err) \<Rightarrow> tbind (require (err = None)) (\<lambda>_. treturn result)))))"

section \<open>Lemmas\<close>

text \<open>What the instance says of its application is what the cluster reported when it was changed.\<close>

lemma StopTestApp_done:
  assumes "StopTestApp tt i w = (Done i', w')"
  shows "i' = i\<lparr>wf_app_isRunning := False\<rparr> \<and>
    (\<exists>w1 err. tt_kubectl tt (wf_k8sOptions i) (status_args (wf_gslb_name i)) w1 =
       ((sprintf ''map[%s]'' [wf_gslb_host i @ '':Unhealthy''], err), w'))"
  using assms by (auto simp: StopTestApp_def tbind_Done dest!: AssertGslbStatus_done; blast)

lemma StartTestApp_done:
  assumes "StartTestApp tt i w = (Done i', w')"
  shows "i' = i\<lparr>wf_app_isRunning := True\<rparr> \<and>
    (\<exists>w1 err. tt_kubectl tt (wf_k8sOptions i) (status_args (wf_gslb_name i)) w1 =
       ((sprintf ''map[%s]'' [wf_gslb_host i @ '':Healthy''], err), w'))"
  using assms by (auto simp: StartTestApp_def tbind_Done dest!: AssertGslbStatus_done; blast)

text \<open>A workflow with an error starts nothing; one that was started has its namespace, and its
  application runs exactly when one was asked for.\<close>

lemma start_gslb_done:
  "start_gslb tt i w = (Done i', w') \<Longrightarrow>
     wf_app_isRunning i' = wf_app_isRunning i \<and> wf_app_isInstalled i' = wf_app_isInstalled i \<and>
     wf_namespaceCreated i' = wf_namespaceCreated i"
  by (auto simp: start_gslb_def tbind_Done split: if_splits)

lemma Start_done:
  assumes "Start tt i w = (Done r, w')" "\<not> wf_app_isRunning i"
  shows "case r of Inl err \<Rightarrow> wf_error i = Some err \<and> w' = w
    | Inr i' \<Rightarrow> wf_error i = None \<and> wf_namespaceCreated i' \<and> wf_app_isRunning i' = wf_app_isInstalled i"
proof (cases "wf_error i")
  case None
  with assms(1) obtain w1 i1 w2 i2 where s: "start_gslb tt (i\<lparr>wf_namespaceCreated := True\<rparr>) w1 = (Done i1, w2)"
    "start_app tt i1 w2 = (Done i2, w')" "r = Inr i2"
    unfolding Start_def by (simp add: tbind_Done) blast
  have "wf_app_isRunning i2 = (wf_app_isInstalled i1 \<or> wf_app_isRunning i1) \<and> wf_namespaceCreated i2 = wf_namespaceCreated i1"
    using s(2) by (auto simp: start_app_def tbind_Done split: if_splits)
  with start_gslb_done [OF s(1)] s(3) assms(2) None show ?thesis by simp
qed (use assms(1) in \<open>simp add: Start_def\<close>)

text \<open>The addresses that \<^verbatim>\<open>WaitForGSLB\<close> expects are the local targets of the instances whose application
  runs, the own instance last.\<close>

lemma expected_loop_targets:
  assumes "\<And>i w. i \<in> set instances \<Longrightarrow> \<exists>w'. GetLocalTargets tt i w = (Done (tg i), w')"
  shows "\<exists>w'. expected_loop tt instances ips w =
    (Done (ips @ concat (map tg (filter wf_app_isRunning instances))), w')"
  using assms
proof (induction instances arbitrary: ips w)
  case (Cons i instances)
  obtain w1 where w1: "GetLocalTargets tt i w = (Done (tg i), w1)" using Cons.prems by force
  show ?case
    using Cons.IH [of "ips @ tg i" w1] Cons.IH [of ips w] Cons.prems by (auto simp: tbind_step [where m = "GetLocalTargets tt i", OF w1])
qed (simp add: treturn_def)

lemma WaitForGSLB_done:
  assumes "\<And>j w. j \<in> set (instances @ [i]) \<Longrightarrow> \<exists>w'. GetLocalTargets tt j w = (Done (tg j), w')"
    and "\<And>w. snd (fst (tt_dig tt (local_server (wf_gslb_port i)) (wf_gslb_host i) w)) = None"
    and "WaitForGSLB tt i instances w = (Done (out, None), w')"
  shows "mset out = mset (concat (map tg (filter wf_app_isRunning (instances @ [i]))))"
proof -
  let ?e = "concat (map tg (filter wf_app_isRunning (instances @ [i])))"
  obtain w1 where "expected_loop tt (instances @ [i]) [] w = (Done ?e, w1)"
    using expected_loop_targets [where ips = "[]" and w = w and instances = "instances @ [i]" and tt = tt and tg = tg] assms(1)
    by fastforce
  with assms(3) obtain w2 err where "tt_dig tt (local_server (wf_gslb_port i)) (wf_gslb_host i) w2 = ((out, err), w')"
    "err = None \<longrightarrow> mset out = mset ?e"
    by (auto simp: WaitForGSLB_def waitForLocalGSLBNew_def DoWithRetryWaitingForValueE_def tbind_step dest!: retry_none)
  with assms(2) [of w2] show ?thesis by simp
qed

end
