(* ===== verification/Test_Helpers.thy ===== *)
theory Test_Helpers
  imports Gslb_Api
begin

text \<open>
  Small helpers: \<^verbatim>\<open>YamlToGslb\<close> (\<^verbatim>\<open>controllers/internal/utils/yaml.go\<close>), \<^verbatim>\<open>GetType\<close> (\<^verbatim>\<open>reflection.go\<close>) and the
  connector that stands in for Infoblox when the fake is enabled
  (\<^verbatim>\<open>controllers/providers/dns/infoblox-fake.go\<close>).
\<close>

section \<open>YAML\<close>

definition empty_gslb :: Gslb where
  "empty_gslb =
     \<lparr>g_meta = empty_meta,
      g_spec = \<lparr>gs_ingress = \<lparr>is_ingressClassName = None, is_backend = None, is_tls = None, is_rules = None\<rparr>,
        gs_strategy = \<lparr>st_type = [], st_primaryGeoTag = [], st_dnsTtlSeconds = 0, st_splitBrainThresholdSeconds = 0\<rparr>\<rparr>,
      g_status = \<lparr>gst_serviceHealth = [], gst_healthyRecords = [], gst_geoTag = []\<rparr>\<rparr>"

text \<open>\<^verbatim>\<open>json.Unmarshal\<close> gets a pointer to the pointer \<^verbatim>\<open>gslb\<close>, so it may set it to nil. The two libraries are
  parameters.\<close>

definition YamlToGslb ::
    "(string \<Rightarrow> goerr + string) \<Rightarrow> (string \<Rightarrow> Gslb option \<Rightarrow> Gslb option \<times> goerr option) \<Rightarrow> string
       \<Rightarrow> Gslb option \<times> goerr option" where
  "YamlToGslb yamlToJSON unmarshal yaml =
     (case yamlToJSON yaml of
        Inl err \<Rightarrow> (Some empty_gslb, Some err)
      | Inr jsonBytes \<Rightarrow>
          (case unmarshal jsonBytes (Some empty_gslb) of
             (gslb, Some err) \<Rightarrow> (Some empty_gslb, Some err)
           | (gslb, None) \<Rightarrow> (gslb, None)))"

lemma YamlToGslb_error: "snd (YamlToGslb y u s) \<noteq> None \<Longrightarrow> fst (YamlToGslb y u s) = Some empty_gslb"
  by (auto simp: YamlToGslb_def split: sum.splits prod.splits option.splits)

text \<open>A document that is decoded as null gives a nil pointer without an error.\<close>

lemma YamlToGslb_null:
  "y s = Inr j \<Longrightarrow> u j (Some empty_gslb) = (None, None) \<Longrightarrow> YamlToGslb y u s = (None, None)"
  by (simp add: YamlToGslb_def)

section \<open>Types\<close>

text \<open>Named types and pointers; the name of a pointer type is empty, and the type of a nil interface is
  nil, on which \<^verbatim>\<open>Kind\<close> panics.\<close>

datatype reflect_type = Named string | PtrTo reflect_type

fun type_Name :: "reflect_type \<Rightarrow> string" where
  "type_Name (Named n) = n"
| "type_Name (PtrTo _) = []"

definition GetType :: "reflect_type option \<Rightarrow> string go" where
  "GetType v =
     (case v of
        None \<Rightarrow> Panic ''invalid memory address or nil pointer dereference''
      | Some (PtrTo t) \<Rightarrow> Ok (''*'' @ type_Name t)
      | Some t \<Rightarrow> Ok (type_Name t))"

section \<open>The fake connector\<close>

record 'o fakeInfobloxConnector =
  fc_getObjectObj :: 'o
  fc_getObjectRef :: string
  fc_resultObject :: 'o
  fc_fakeRefReturn :: string

definition CreateObject :: "'o fakeInfobloxConnector \<Rightarrow> 'o \<Rightarrow> string \<times> goerr option" where
  "CreateObject c ob = (fc_fakeRefReturn c, None)"

text \<open>The result the caller passes in is left as it is.\<close>

definition GetObject :: "'o fakeInfobloxConnector \<Rightarrow> 'o \<Rightarrow> string \<Rightarrow> 'o \<Rightarrow> 'o \<times> goerr option" where
  "GetObject c ob ref res = (res, None)"

definition DeleteObject :: "'o fakeInfobloxConnector \<Rightarrow> string \<Rightarrow> string \<times> goerr option" where
  "DeleteObject c ref = (fc_fakeRefReturn c, None)"

definition UpdateObject :: "'o fakeInfobloxConnector \<Rightarrow> 'o \<Rightarrow> string \<Rightarrow> string \<times> goerr option" where
  "UpdateObject c ob ref = (fc_fakeRefReturn c, None)"

end
