(* ===== verification/Spec2Isabelle.thy ===== *)
theory Spec2Isabelle
  imports Steady Two_Clusters Startup Scheme Deep_Copy Fake_Dns_Run Mock_Assistant Test_Workflow Test_Helpers
begin

text \<open>
  \<^bold>\<open>k8gb, a Kubernetes global balancer: a verification library.\<close>

  \<^bold>\<open>The program.\<close> k8gb is a Kubernetes operator, run once per cluster. For every \<^verbatim>\<open>Gslb\<close> resource it
  keeps an Ingress and a DNSEndpoint (read by external-dns) that says to which addresses the
  hosts of the Gslb resolve, under one of three strategies; it asks the other clusters for their
  healthy addresses over DNS; it delegates the balanced zone in an edge DNS (Infoblox, NS1,
  Route53 or none); and it writes the health it saw into the status of the Gslb. The parts, with
  the theories that model them (paths under \<^verbatim>\<open>src/\<close>):

  \<^item> \<open>Prelude\<close>: the parts of Go that all theories share (errors and panics as values, maps with an
    unspecified visiting order, slices with nil, strings, 64-bit integers).
  \<^item> \<open>Gslb_Api\<close> (\<^verbatim>\<open>api/v1beta1/gslb_types.go\<close>, \<^verbatim>\<open>upstream_types.go\<close>): the Gslb resource, the Ingress
    specification and its two conversions.
  \<^item> \<open>Heap_Copy\<close>, \<open>Deep_Copy\<close> (\<^verbatim>\<open>upstream_types.go\<close>, \<^verbatim>\<open>zz_generated.deepcopy.go\<close>): the hand-written and
    the generated deep copies of the API types on a heap of typed cells. \<open>Heap_Copy\<close> holds the heap, the
    loops over slices, maps and pointers that the methods are made of, and the contract of a deep
    copy as the locale \<open>deep_copier\<close>. Everywhere else objects are values and \<^verbatim>\<open>DeepCopy\<close> is the identity.
  \<^item> \<open>Regexp\<close>, \<open>Validator\<close>, \<open>Dep_Config\<close> (\<^verbatim>\<open>controllers/depresolver/depresolver.go\<close>,
    \<^verbatim>\<open>depresolver_validator.go\<close>, \<^verbatim>\<open>depresolver_config.go\<close>): the fluent validator with its regular
    expressions and a verified matcher, and the operator configuration.
  \<^item> \<open>Dep_Spec\<close> (\<^verbatim>\<open>depresolver_spec.go\<close>): defaults, validation and cache of the strategy of a Gslb.
  \<^item> \<open>Platform\<close>: what k8gb calls outside its sources, as a record of operations over a world; the
    locale \<open>kube_api\<close> with the laws of the API server; an in-memory platform that satisfies it.
  \<^item> \<open>Utils\<close> (\<^verbatim>\<open>controllers/internal/utils\<close>): annotations, \<^verbatim>\<open>Dig\<close>, reconcile results.
  \<^item> \<open>Go_Time\<close>, \<open>Assistant\<close> (\<^verbatim>\<open>controllers/providers/assistant/gslb.go\<close>): timestamps and durations; the
    assistant that the DNS providers share, with the locale \<open>assistant_api\<close>.
  \<^item> \<open>Infoblox\<close>, \<open>Providers\<close> (\<^verbatim>\<open>controllers/providers/dns\<close>): the Infoblox provider with the locale
    \<open>infoblox_api\<close>; the empty and the ExternalDNS provider, the interface \<^verbatim>\<open>dns.Provider\<close> with the
    locale \<open>dns_provider\<close>, and the factory.
  \<^item> \<open>Metrics\<close> (\<^verbatim>\<open>controllers/providers/metrics/prometheus.go\<close>): the gauges and their registration.
  \<^item> \<open>Status\<close>, \<open>Ingress_Sync\<close>, \<open>Dns_Update\<close>, \<open>Finalizers\<close> (\<^verbatim>\<open>status.go\<close>, \<^verbatim>\<open>ingress.go\<close>, \<^verbatim>\<open>dnsupdate.go\<close>,
    \<^verbatim>\<open>finalize.go\<close> of \<^verbatim>\<open>controllers\<close>): the steps of the reconciler.
  \<^item> \<open>Reconcile\<close>, \<open>Live\<close>, \<open>Panics\<close>, \<open>Watches\<close>, \<open>Controller\<close>, \<open>Events\<close> (\<^verbatim>\<open>controllers/gslb_controller.go\<close>):
    a run of \<^verbatim>\<open>Reconcile\<close> and the lemmas about deletion; the live branch; absence of panics; the watch
    handlers; the controller as a state machine; the registered watches, with the locale \<open>owner_api\<close>
    for the library's reading of owner references; \<open>Steady\<close>: runs that follow each other.
  \<^item> \<open>Two_Clusters\<close>: the controllers of two clusters, composed through DNS.
  \<^item> \<open>Logging\<close> (\<^verbatim>\<open>controllers/logging\<close>), \<open>Startup\<close> (\<^verbatim>\<open>main.go\<close>) and \<open>Scheme\<close> (the \<^verbatim>\<open>init\<close> functions and
    \<^verbatim>\<open>api/v1beta1/groupversion_info.go\<close>, with the locale \<open>scheme_api\<close> for the runtime scheme).
  \<^item> \<open>Fake_Dns\<close>, \<open>Fake_Dns_Run\<close> (\<^verbatim>\<open>controllers/internal/utils/fakedns.go\<close>): the DNS server of the tests,
    with the locale \<open>dns_text\<close> for the DNS package, and the interleaving of its goroutines.
  \<^item> \<open>Terratest\<close>, \<open>Test_Workflow\<close> (\<^verbatim>\<open>terratest/utils\<close>, \<^verbatim>\<open>terratest/test/init.go\<close>): the loops, assertions and
    set-up steps of the end-to-end tests, over an abstract cluster and kubectl; the settings they read
    from the environment; and the workflow that a test builds, starts and kills.
  \<^item> \<open>Mock_Assistant\<close> (\<^verbatim>\<open>controllers/providers/assistant/assistant_mock.go\<close>): the generated mock of the
    assistant, with the locale \<open>gomock_api\<close> for the mock library.
  \<^item> \<open>Test_Helpers\<close> (\<^verbatim>\<open>yaml.go\<close>, \<^verbatim>\<open>reflection.go\<close>, \<^verbatim>\<open>infoblox-fake.go\<close>): small helpers of the unit tests.
  \<^item> \<open>Samples\<close>: one live Gslb followed through a run, for the witnesses.

  \<^bold>\<open>How code and definitions correspond.\<close> A struct is a record with one field per field the code
  uses, an enumeration a datatype, a function a definition of the same name (with a prefix where a
  method of several types or a HOL constant has the name: \<^verbatim>\<open>em_\<close>, \<^verbatim>\<open>xd_\<close>, \<^verbatim>\<open>ib_\<close> for the three
  providers, \<^verbatim>\<open>pr_\<close> for the call through the interface). A loop is a recursive function over the
  list it visits, named after the function it belongs to; a long function is cut at its early
  returns (\<open>reconcile_live\<close>, \<open>reconcile_objects\<close>, \<open>reconcile_zone\<close>). The world is threaded through
  every call in program order, so the order of reads and writes is that of the code.
  A result is \<open>Ok\<close>, \<open>Err\<close> or \<open>Panic\<close> where the code can panic (nil pointers, failed type
  assertions, indices and slice bounds out of range), an option or a sum where it cannot.

  \<^bold>\<open>What is a parameter.\<close> The client of controller-runtime, DNS, the clock, the Infoblox object
  manager, Prometheus, the environment variables and zerolog are arguments; what the code relies
  on of them is stated in the locales and nowhere assumed of the model itself. Each locale is
  interpreted on the in-memory platform with arbitrary injected faults. The order in which Go
  visits a map is an argument \<open>ord\<close> of which only \<open>range_ok\<close> is known (each entry once), and the
  unstable sort of name servers an argument \<open>zsort\<close> with \<open>zsort_ok\<close>; one function stands for all
  loops of a run. Writes that report an error may or may not have taken effect, save
  an update of an Ingress refused with a conflict, which stores nothing; the refusals are kept as a
  history (\<open>v_refused\<close>), so that a theorem can say whether the run in question had one.

  \<^bold>\<open>What is shown.\<close> End to end: what a successful run stores and publishes for a live Gslb
  (\<open>live_published\<close>, \<open>live_reconciled\<close>), that the finalizer guards the clean-up and that deletion
  completes (\<open>finalizer_guards_deletion\<close>, \<open>deletion_completes\<close>), that every run refines the
  life cycle of Gslbs (\<open>Reconcile_refines_lifecycle\<close>), invariants of all runs of the process
  (\<open>run_keeps_guarded\<close>), when a run cannot panic (\<open>Reconcile_no_panic\<close>), and what the process is
  started with (\<open>main_starts\<close>). Per component: the targets of the strategies, the health of hosts,
  the delegation in Infoblox and through external-dns, the heartbeat round trip, the equivalence
  of the validation chain with a declarative specification, the independence and the typing of deep
  copies, which Gslb the change of an object requests, that a run whose wishes are met
  leaves the Ingresses alone, that two clusters give clients the same addresses, the
  answers and the termination of the fake server, round trips, bounds and the error
  behaviour, stated after the operations of each theory.

  \<^bold>\<open>Bounds and fuel.\<close> No definition uses fuel: every loop of the code runs over a finite list.
  Integers are unbounded in the model and cut to 64 bits where the code multiplies or subtracts
  (\<open>int64\<close>, \<open>time_Sub\<close>). Timestamps are covered from year 1 to 9999.

  \<^bold>\<open>Not modelled.\<close> Every implementation file has its theory. Left out inside them: log lines (modelled in
  \<open>Logging\<close> and \<open>Startup\<close> only), the delays of the probes of the fake server, whose steps are
  interleaved freely, and the tests themselves.
\<close>

section \<open>Sample objects\<close>

text \<open>A Gslb that is being deleted, a store that holds it, and reconcilers with the Infoblox
  provider on a platform where it works and on one where no connection can be made.\<close>

definition doomed_gslb :: "string list \<Rightarrow> Gslb" where
  "doomed_gslb fs = (web_gslb [])\<lparr>g_meta := (g_meta (web_gslb []))\<lparr>om_finalizers := fs, om_deletionTimestamp := Some 0\<rparr>\<rparr>"

definition infoblox_reconciler :: GslbReconciler where
  "infoblox_reconciler = sample_reconciler\<lparr>re_provider := IBProvider sample_infoblox_provider\<rparr>"

definition down_sys :: "store sys" where
  "down_sys = quiet_sys\<lparr>ib_newConnector := (\<lambda>w hc a b. (Some (ExtError ''connection refused''), w))\<rparr>"

lemma down_api: "kube_api down_sys mem_view"
  using quiet_api unfolding kube_api_def down_sys_def by simp

lemma down_finalize: "fst (pr_Finalize down_sys (re_provider infoblox_reconciler) w g) \<noteq> None"
  by (simp add: infoblox_reconciler_def ib_Finalize_def infobloxConnection_def down_sys_def sample_provider_sel
      sample_config_def Let_def)

lemma quiet_reliable: "deletion_reliable quiet_sys infoblox_reconciler"
proof -
  have "fst (pr_Finalize quiet_sys (re_provider infoblox_reconciler) w g) = None" for w g
    by (auto simp: infoblox_reconciler_def ib_Finalize_def infobloxConnection_def ib_delete_zone_def ib_delete_txt_def
        checkZoneDelegated_def sample_provider_sel sample_config_def find_zone_def mem_eval Let_def
        dest: find_Some_mem split: option.splits if_splits)
  moreover have "\<exists>g'. fst (c_updateGslb quiet_sys w g) = Inr g'" for w g
    by (simp add: mem_updateGslb_def mem_eval)
  ultimately show ?thesis by (simp add: deletion_reliable_def)
qed

lemma doomed_sel [simp]:
  "meta_key (g_meta (doomed_gslb fs)) = (''ns'', ''g'')" "om_finalizers (g_meta (doomed_gslb fs)) = fs"
  "om_deletionTimestamp (g_meta (doomed_gslb fs)) = Some 0" "map_of (s_gslb (store_of g)) (''ns'', ''g'') = Some g"
  by (simp_all add: doomed_gslb_def web_gslb_def sample_gslb_def meta_key_def store_of_def)

section \<open>Deletion\<close>

text \<open>
  C3. The finalizer guards the clean-up. While the DNS provider cannot finalize, reconciling a Gslb
  that is being deleted and has the current or the legacy finalizer returns an error, and the
  object stays stored with the same finalizers.
\<close>

theorem finalizer_guards_deletion:
  assumes "kube_api S V" and "\<And>w g. fst (pr_Finalize S (re_provider r) w g) \<noteq> None"
    and "v_gslb V w (meta_key (g_meta gslb)) = Some gslb" and "om_deletionTimestamp (g_meta gslb) \<noteq> None"
    and "\<exists>f \<in> {gslbFinalizer, legacyFinalizer}. f \<in> set (om_finalizers (g_meta gslb))"
    and "Reconcile S ord zsort r dr w (meta_key (g_meta gslb)) = (x, dr', w')"
  shows "\<exists>gslb' e. v_gslb V w' (meta_key (g_meta gslb)) = Some gslb' \<and> g_meta gslb' = g_meta gslb \<and>
    x = Ok (no_result, Some e)"
  using kube_api.Reconcile_guard [OF assms(1,2,6,3,4,5)] .

theorem finalizer_guards_deletion_witness:
  "\<exists>x dr w g. Reconcile down_sys (\<lambda>m. m) (sort_key nsv_address) infoblox_reconciler NewDependencyResolver
       (store_of (doomed_gslb [''other'', legacyFinalizer])) (''ns'', ''g'') = (x, dr, w) \<and>
     v_gslb mem_view w (''ns'', ''g'') = Some g \<and> om_finalizers (g_meta g) = [''other'', legacyFinalizer]"
proof -
  let ?g = "doomed_gslb [''other'', legacyFinalizer]"
  obtain x dr w where e: "Reconcile down_sys (\<lambda>m. m) (sort_key nsv_address) infoblox_reconciler NewDependencyResolver
      (store_of ?g) (meta_key (g_meta ?g)) = (x, dr, w)" by (metis prod_cases3)
  from finalizer_guards_deletion [OF down_api down_finalize _ _ _ e] e show ?thesis by fastforce
qed

lemma doomed_resolvable: "resolvable NewDependencyResolver (doomed_gslb fs)"
  by (simp add: resolvable_def NewDependencyResolver_def doomed_gslb_def web_gslb_def sample_gslb_def zero_spec_def)

text \<open>
  C4. Deletion completes. When a run of \<^verbatim>\<open>Reconcile\<close> for a Gslb that is being deleted returns without
  error, both finalizers of k8gb are gone from the stored object: it keeps only the finalizers of
  others, and is removed when there are none. And such a run happens: on a platform whose updates
  and finalizations succeed, one run that can read the Gslb and accepts its specification stops
  without error.
\<close>

theorem deletion_completes:
  assumes "kube_api S V" and "v_gslb V w (meta_key (g_meta gslb)) = Some gslb"
    and "om_deletionTimestamp (g_meta gslb) \<noteq> None" and "om_finalizers (g_meta gslb) \<noteq> []"
    and "\<And>f. f \<in> {gslbFinalizer, legacyFinalizer} \<Longrightarrow> count_list (om_finalizers (g_meta gslb)) f \<le> 1"
  shows "(\<forall>res dr' w'. Reconcile S ord zsort r dr w (meta_key (g_meta gslb)) = (Ok (res, None), dr', w') \<longrightarrow>
      map_option g_meta (v_gslb V w' (meta_key (g_meta gslb))) =
        (let rest = filter (\<lambda>f. f \<notin> {gslbFinalizer, legacyFinalizer}) (om_finalizers (g_meta gslb))
         in if rest = [] then None else Some ((g_meta gslb)\<lparr>om_finalizers := rest\<rparr>))) \<and>
    (deletion_reliable S r \<and> resolvable dr gslb \<and> fst (c_getGslb S w (meta_key (g_meta gslb))) = Inr gslb \<longrightarrow>
      (\<exists>dr' w'. Reconcile S ord zsort r dr w (meta_key (g_meta gslb)) = (Ok (no_result, None), dr', w')))"
  using kube_api.Reconcile_deleted [OF assms(1) _ assms(2-5)] kube_api.Reconcile_reliable [OF assms(1) _ _ _ assms(3,5)]
  by blast

theorem deletion_completes_witness:
  "\<exists>dr w g. Reconcile quiet_sys rev (sort_key nsv_address) infoblox_reconciler NewDependencyResolver
       (store_of (doomed_gslb [''other'', gslbFinalizer])) (''ns'', ''g'') = (Ok (no_result, None), dr, w) \<and>
     v_gslb mem_view w (''ns'', ''g'') = Some g \<and> om_finalizers (g_meta g) = [''other'']"
proof -
  let ?fs = "[''other'', gslbFinalizer]"
  have n: "''other'' \<noteq> gslbFinalizer" "''other'' \<noteq> legacyFinalizer" "gslbFinalizer \<noteq> legacyFinalizer"
    by (simp_all add: gslbFinalizer_def legacyFinalizer_def)
  have get: "fst (c_getGslb quiet_sys (store_of (doomed_gslb ?fs)) (meta_key (g_meta (doomed_gslb ?fs)))) = Inr (doomed_gslb ?fs)"
    using doomed_sel(4) [of "doomed_gslb ?fs"] by (simp add: quiet_sys_def mem_get_def fault_at_def named_gslb_def)
  have v: "v_gslb mem_view (store_of (doomed_gslb ?fs)) (meta_key (g_meta (doomed_gslb ?fs))) = Some (doomed_gslb ?fs)" by simp
  have c: "f \<in> {gslbFinalizer, legacyFinalizer} \<Longrightarrow> count_list (om_finalizers (g_meta (doomed_gslb ?fs))) f \<le> 1" for f
    using n by auto
  note dc = deletion_completes [OF quiet_api v _ _ c, of rev "sort_key nsv_address" infoblox_reconciler NewDependencyResolver]
  from dc quiet_reliable doomed_resolvable get obtain dr w where
      e: "Reconcile quiet_sys rev (sort_key nsv_address) infoblox_reconciler NewDependencyResolver
        (store_of (doomed_gslb ?fs)) (meta_key (g_meta (doomed_gslb ?fs))) = (Ok (no_result, None), dr, w)" by fastforce
  from dc e n show ?thesis by fastforce
qed

text \<open>
  C35. A Gslb with a negative TTL or split brain threshold is never touched: whatever the resolver has
  cached, the run returns an error and no stored object changes. This holds for a Gslb that is
  being deleted as well, so it keeps its finalizer and cannot be removed before it is corrected.
\<close>

theorem invalid_spec_untouched:
  assumes "kube_api S V" and "dr_ok dr" and "v_gslb V w req = Some gslb"
    and "st_dnsTtlSeconds (gs_strategy (g_spec gslb)) < 0 \<or> st_splitBrainThresholdSeconds (gs_strategy (g_spec gslb)) < 0"
    and "Reconcile S ord zsort r dr w req = (x, dr', w')"
  shows "keep_all V w w' \<and> (\<exists>e. x = Ok (no_result, Some e))"
  using kube_api.Reconcile_invalid [OF assms(1,5,2,3,4)] .

theorem invalid_spec_untouched_witness:
  "let g = (doomed_gslb [gslbFinalizer])\<lparr>g_spec := g_spec (plain_gslb (-1) 0)\<rparr>
   in v_gslb mem_view (snd (snd (Reconcile quiet_sys rev (sort_key nsv_address) infoblox_reconciler NewDependencyResolver
        (store_of g) (''ns'', ''g'')))) (''ns'', ''g'') = Some g"
proof -
  let ?g = "(doomed_gslb [gslbFinalizer])\<lparr>g_spec := g_spec (plain_gslb (-1) 0)\<rparr>"
  obtain x dr w where e: "Reconcile quiet_sys rev (sort_key nsv_address) infoblox_reconciler NewDependencyResolver
      (store_of ?g) (''ns'', ''g'') = (x, dr, w)" by (metis prod_cases3)
  have "v_gslb mem_view (store_of ?g) (''ns'', ''g'') = Some ?g" by (simp add: store_of_def)
  from invalid_spec_untouched [OF quiet_api fresh_dr_ok this _ e] this e show ?thesis
    by (simp add: plain_gslb_def keep_defs)
qed

section \<open>Live Gslbs\<close>

text \<open>
  C2. What a successful run does for a live Gslb outside the namespace of k8gb. Its strategy is
  completed and valid; the stored Gslb has the finalizer; its Ingress is stored with the wanted
  specification and strategy annotations and no update was refused, or the server refused this
  run's update to such an Ingress with a conflict and the Ingresses are as they were; the stored
  DNSEndpoint is the one computed from the Services and Endpoints as they were; and the run asks
  to be repeated after the configured period.
\<close>

theorem live_reconciled:
  assumes "kube_api S V" and "range_ok ord" and "dr_ok dr" and "v_gslb V w (meta_key (g_meta gslb)) = Some gslb"
    and "om_deletionTimestamp (g_meta gslb) = None" and "gomap_ok (annotations (g_meta gslb))" and "g_spec gslb \<noteq> zero_spec"
    and "g_namespace gslb \<noteq> co_k8gbNamespace (pr_config (re_provider r))"
    and "Reconcile S ord zsort r dr w (meta_key (g_meta gslb)) = (Ok (res, None), dr', w')"
  shows "\<exists>st gslb1. st = set_predefined (gs_strategy (g_spec gslb)) \<and> resolved st \<and>
    gslb1 = gslb\<lparr>g_spec := (g_spec gslb)\<lparr>gs_strategy := st\<rparr>\<rparr> \<and>
    res = rr_delayedResult (NewReconcileResultHandler (co_reconcileRequeueSeconds (re_config r))) \<and>
    (\<exists>m. map_option g_meta (v_gslb V w' (meta_key (g_meta gslb))) = Some m \<and> gslbFinalizer \<in> set (om_finalizers m)) \<and>
    (\<exists>j. ingress_for gslb1 j \<and> meta_key (ing_meta j) = meta_key (g_meta gslb) \<and>
      (v_ingress V w' (meta_key (g_meta gslb)) = Some j \<and> v_refused V w' = v_refused V w \<or>
       v_ingress V w' = v_ingress V w \<and> v_refused V w' = v_refused V w @ [j])) \<and>
    (\<exists>ga w1 d w2 d'. g_spec ga = g_spec gslb1 \<and> meta_key (g_meta ga) = meta_key (g_meta gslb) \<and> keep_work V w w1 \<and>
      keep_ingress V w1 w' \<and> gslbDNSEndpoint S ord r w1 ga = (Ok d, w2) \<and>
      v_dns V w' (meta_key (g_meta gslb)) = Some d' \<and> same_record d d')"
  using kube_api.Reconcile_live [OF assms(1,9,4,5,2,6,3,7,8)] .

theorem live_reconciled_witness:
  "\<exists>dr w m j. Reconcile quiet_sys (\<lambda>m. m) (sort_key nsv_address) sample_reconciler NewDependencyResolver (store_of live_gslb)
       (''ns'', ''g'') = (Ok (no_result\<lparr>cr_requeueAfter := 30000000000\<rparr>, None), dr, w) \<and>
     map_option g_meta (v_gslb mem_view w (''ns'', ''g'')) = Some m \<and> gslbFinalizer \<in> set (om_finalizers m) \<and>
     v_ingress mem_view w (''ns'', ''g'') = Some j \<and> m_get (annotations (ing_meta j)) strategyAnnotation = ''roundRobin''"
proof -
  obtain dr w where e: "Reconcile quiet_sys (\<lambda>m. m) (sort_key nsv_address) sample_reconciler NewDependencyResolver (store_of live_gslb)
      (meta_key (g_meta live_gslb)) = (Ok (no_result\<lparr>cr_requeueAfter := 30000000000\<rparr>, None), dr, w)"
    and nr: "s_refused w = []" using live_reconciled_ok by blast
  have ty: "st_type (gs_strategy (g_spec live_gslb)) = ''roundRobin''" by (simp add: live_gslb_def web_gslb_def)
  from live_reconciled [OF quiet_api range_ok_id fresh_dr_ok live_hyps e]
  obtain m j where "map_option g_meta (v_gslb mem_view w (''ns'', ''g'')) = Some m" "gslbFinalizer \<in> set (om_finalizers m)"
      "v_ingress mem_view w (''ns'', ''g'') = Some j" "m_get (annotations (ing_meta j)) strategyAnnotation = ''roundRobin''"
    by (auto simp: nr ingress_for_def strategy_annotated_def ty)
  with e show ?thesis by auto
qed

text \<open>
  C1. End to end: after a successful run for a live Gslb, the DNSEndpoint that external-dns reads
  publishes for every host of its rules what \<open>strategy_choice\<close> demands of its strategy, given the
  health of the host, the addresses of the Ingress stored now and the answers of the other clusters
  (both kinds together under round robin and geoip; under failover the own ones on a healthy
  primary, the others' on an unhealthy one and on a secondary that has any), or nothing when that
  is empty, and the local targets exactly for the hosts whose service is healthy.
\<close>

theorem live_published:
  assumes "kube_api S V" and "range_ok ord" and "dr_ok dr" and "v_gslb V w (meta_key (g_meta gslb)) = Some gslb"
    and "om_deletionTimestamp (g_meta gslb) = None" and "gomap_ok (annotations (g_meta gslb))" and "g_spec gslb \<noteq> zero_spec"
    and "g_namespace gslb \<noteq> co_k8gbNamespace (pr_config (re_provider r))"
    and "Reconcile S ord zsort r dr w (meta_key (g_meta gslb)) = (Ok (res, None), dr', w')"
    and "\<And>w h. fst (pr_GetExternalTargets S ord (re_provider r) w h) = Ok (ext h)"
    and "\<And>h. host_status V w (g_namespace gslb) (host_services (elems (is_rules (gs_ingress (g_spec gslb))))) h \<noteq> None
      \<Longrightarrow> \<not> hasPrefix ''localtargets-'' h"
    and "host_status V w (g_namespace gslb) (host_services (elems (is_rules (gs_ingress (g_spec gslb))))) host = Some health"
  shows "\<exists>d lt ga w1 w2 ts. v_dns V w' (meta_key (g_meta gslb)) = Some d \<and>
    keep_ingress V w1 w' \<and> meta_key (g_meta ga) = meta_key (g_meta gslb) \<and>
    GslbIngressExposedIPs S (pr_assistant (re_provider r)) w1 ga = (Inr lt, w2) \<and>
    strContains (co_edgeDNSZone (re_config r)) host \<and>
    strategy_choice (gs_strategy (g_spec gslb)) (co_clusterGeoTag (re_config r)) health lt (sort (ext host)) ts \<and>
    published d host = (if ts = [] then [] else [ts]) \<and>
    published d (local_target host) = (if health = ''Healthy'' then [lt] else [])"
  using kube_api.Reconcile_published [OF assms] finalTargets_choice unfolding Let_def by blast

text \<open>A failover pair with both services healthy: the primary \<^verbatim>\<open>us\<close> with the address 10.0.0.9 and the
  secondary \<^verbatim>\<open>eu\<close> with 10.0.0.8, each told the address of the other. Both publish that of the primary.\<close>

abbreviation "primary_cluster \<equiv> pair_cluster ''us'' ''eu'' ''up'' ''10.0.0.9'' [''10.0.0.8'']"
abbreviation "secondary_cluster \<equiv> pair_cluster ''eu'' ''us'' ''up'' ''10.0.0.8'' [''10.0.0.9'']"

lemma healthy_endpoints:
  "case pair_endpoint primary_cluster of
     Some d \<Rightarrow> published d (local_target ''a.example.com'') = [[''10.0.0.9'']] | _ \<Rightarrow> False"
  "case pair_endpoint secondary_cluster of
     Some d \<Rightarrow> published d (local_target ''a.example.com'') = [[''10.0.0.8'']] | _ \<Rightarrow> False"
  by code_simp+

lemma healthy_facts:
  "peer_answer primary_cluster ''eu'' ''a.example.com'' = [''10.0.0.8'']"
  "peer_answer secondary_cluster ''us'' ''a.example.com'' = [''10.0.0.9'']"
  "cl_health primary_cluster ''a.example.com'' = Some ''Healthy''"
  "cl_health secondary_cluster ''a.example.com'' = Some ''Healthy''"
  by code_simp+

lemma healthy_sel:
  "cl_view primary_cluster = mem_view" "cl_view secondary_cluster = mem_view"
  "co_extClustersGeoTags (pr_config (re_provider (cl_reconciler primary_cluster))) = [''eu'']"
  "co_extClustersGeoTags (pr_config (re_provider (cl_reconciler secondary_cluster))) = [''us'']"
  "co_clusterGeoTag (re_config (cl_reconciler primary_cluster)) = ''us''"
  "co_clusterGeoTag (re_config (cl_reconciler secondary_cluster)) = ''eu''"
  "st_type (gs_strategy (g_spec (cl_gslb primary_cluster))) = ''failover''"
  "st_primaryGeoTag (gs_strategy (g_spec (cl_gslb primary_cluster))) = ''us''"
  "gs_strategy (g_spec (cl_gslb secondary_cluster)) = gs_strategy (g_spec (cl_gslb primary_cluster))"
  by (simp_all add: pair_cluster_def NewEmptyDNS_def web_gslb_def Let_def)

theorem live_published_witness:
  "\<exists>d d2. publishes primary_cluster d \<and> publishes secondary_cluster d2 \<and>
     published d ''a.example.com'' = [[''10.0.0.9'']] \<and> published d (local_target ''a.example.com'') = [[''10.0.0.9'']] \<and>
     published d2 ''a.example.com'' = [[''10.0.0.9'']] \<and> published d2 (local_target ''a.example.com'') = [[''10.0.0.8'']]"
proof -
  from healthy_endpoints obtain d d2 where d: "publishes primary_cluster d" "published d (local_target ''a.example.com'') = [[''10.0.0.9'']]"
      "publishes secondary_cluster d2" "published d2 (local_target ''a.example.com'') = [[''10.0.0.8'']]"
    by (auto split: option.splits intro: pair_publishes [OF healthy_sel(1)] pair_publishes [OF healthy_sel(2)])
  have run: "\<exists>ts. strategy_choice (gs_strategy (g_spec (cl_gslb c))) (co_clusterGeoTag (re_config (cl_reconciler c))) ''Healthy'' lt
      (sort (peer_answer c tag ''a.example.com'')) ts \<and> published e ''a.example.com'' = (if ts = [] then [] else [ts])"
    if c: "cluster_ok c" and e: "publishes c e" and lt: "published e (local_target ''a.example.com'') = [lt]"
      and tag: "co_extClustersGeoTags (pr_config (re_provider (cl_reconciler c))) = [tag]"
      and h: "cl_health c ''a.example.com'' = Some ''Healthy''" for c :: "store cluster" and e lt tag
  proof -
    from e obtain zsort dr res dr' w' where dr: "dr_ok dr" and v: "v_dns (cl_view c) w' (meta_key (g_meta (cl_gslb c))) = Some e"
      and r: "Reconcile (cl_sys c) (cl_order c) zsort (cl_reconciler c) dr (cl_world c) (meta_key (g_meta (cl_gslb c))) =
        (Ok (res, None), dr', w')" by (auto simp: publishes_def)
    from c have k: "kube_api (cl_sys c) (cl_view c)" "range_ok (cl_order c)"
        "v_gslb (cl_view c) (cl_world c) (meta_key (g_meta (cl_gslb c))) = Some (cl_gslb c)"
        "om_deletionTimestamp (g_meta (cl_gslb c)) = None" "gomap_ok (annotations (g_meta (cl_gslb c)))" "g_spec (cl_gslb c) \<noteq> zero_spec"
        "g_namespace (cl_gslb c) \<noteq> co_k8gbNamespace (pr_config (re_provider (cl_reconciler c)))"
      and p: "\<And>h. cl_health c h \<noteq> None \<Longrightarrow> \<not> hasPrefix ''localtargets-'' h" by (auto simp: cluster_ok_def)
    from live_published [OF k(1,2) dr k(3-7) r peer_targets [OF c tag] p [unfolded cl_health_def] h [unfolded cl_health_def]]
    obtain e' lt' ts where e': "v_dns (cl_view c) w' (meta_key (g_meta (cl_gslb c))) = Some e'"
        "strategy_choice (gs_strategy (g_spec (cl_gslb c))) (co_clusterGeoTag (re_config (cl_reconciler c))) ''Healthy'' lt'
          (sort (peer_answer c tag ''a.example.com'')) ts"
        "published e' ''a.example.com'' = (if ts = [] then [] else [ts])"
        "published e' (local_target ''a.example.com'') = (if ''Healthy'' = ''Healthy'' then [lt'] else [])" by blast
    have "e' = e" using e'(1) v by simp
    with e'(4) lt have "lt' = lt" by simp
    with e'(2,3) \<open>e' = e\<close> show ?thesis by blast
  qed
  have "published d ''a.example.com'' = [[''10.0.0.9'']]"
    using run [OF pair_ok d(1,2) healthy_sel(3) healthy_facts(3)] unfolding healthy_facts healthy_sel strategy_choice_def by auto
  moreover have "published d2 ''a.example.com'' = [[''10.0.0.9'']]"
    using run [OF pair_ok d(3,4) healthy_sel(4) healthy_facts(4)] unfolding healthy_facts healthy_sel strategy_choice_def by auto
  ultimately show ?thesis using d by blast
qed

section \<open>Every run\<close>

text \<open>
  C7. A run of \<^verbatim>\<open>Reconcile\<close> returns. It panics for no Gslb whose rules have an HTTP section and whose
  finalizers contain each of the two of k8gb at most once, as long as address queries are
  answered with A records only and TXT records have at least five fields.
\<close>

theorem Reconcile_no_panic:
  assumes "kube_api S V" and "dns_wellformed S"
    and "\<And>g. v_gslb V w req = Some g \<Longrightarrow> http_rules g \<and>
      count_list (om_finalizers (g_meta g)) gslbFinalizer \<le> 1 \<and> count_list (om_finalizers (g_meta g)) legacyFinalizer \<le> 1"
  shows "\<exists>ret. fst (Reconcile S ord zsort r dr w req) = Ok ret"
proof -
  have "returns (fst (Reconcile S ord zsort r dr w req))" using assms by (rule kube_api.Reconcile_returns)
  with Reconcile_not_Err [of S ord zsort r dr w req] show ?thesis
    by (cases "fst (Reconcile S ord zsort r dr w req)") auto
qed

theorem Reconcile_no_panic_witness:
  "\<exists>ret. fst (Reconcile quiet_sys rev (sort_key nsv_address) infoblox_reconciler NewDependencyResolver (store_of live_gslb) (''ns'', ''g'')) = Ok ret"
proof (rule Reconcile_no_panic [OF quiet_api])
  show "dns_wellformed quiet_sys" by (simp add: dns_wellformed_def quiet_sys_def)
next
  fix g
  assume "v_gslb mem_view (store_of live_gslb) (''ns'', ''g'') = Some g"
  then have "g = live_gslb" by (simp add: store_of_def)
  moreover have "http_rules live_gslb" by (simp add: http_rules_def live_gslb_def web_gslb_def sample_rule_def)
  ultimately show "http_rules g \<and> count_list (om_finalizers (g_meta g)) gslbFinalizer \<le> 1 \<and>
      count_list (om_finalizers (g_meta g)) legacyFinalizer \<le> 1" by simp
qed

text \<open>
  C5. Every run of \<^verbatim>\<open>Reconcile\<close>, successful, failed or panicking, refines the life cycle of Gslbs: the
  requested Gslb makes one of its steps (a fresh one may become guarded, a terminating one may
  disappear), and every other Gslb keeps its metadata. Neither is a Gslb created or revived, nor
  is a guarded one removed or its finalizer taken away before it is deleted.
\<close>

theorem Reconcile_refines_lifecycle:
  assumes "kube_api S V" and "Reconcile S ord zsort r dr w req = (x, dr', w')"
  shows "lifecycle (gslb_phase V w req) (gslb_phase V w' req) \<and> (\<forall>k. k \<noteq> req \<longrightarrow> metas V w' k = metas V w k)"
  using kube_api.Reconcile_lifecycle [OF assms] kube_api.Reconcile_metas [OF assms] by blast

theorem Reconcile_refines_lifecycle_witness:
  "\<exists>x dr w. Reconcile quiet_sys rev (sort_key nsv_address) sample_reconciler NewDependencyResolver (store_of live_gslb) (''ns'', ''g'') = (x, dr, w) \<and>
     gslb_phase mem_view w (''ns'', ''g'') \<in> {Fresh, Guarded}"
proof -
  obtain x dr w where e: "Reconcile quiet_sys rev (sort_key nsv_address) sample_reconciler NewDependencyResolver (store_of live_gslb)
      (''ns'', ''g'') = (x, dr, w)" by (metis prod_cases3)
  have "gslb_phase mem_view (store_of live_gslb) (''ns'', ''g'') = Fresh"
    by (simp add: gslb_phase_def metas_def meta_phase_def store_of_def)
  with Reconcile_refines_lifecycle [OF quiet_api e] e show ?thesis by (auto simp: lifecycle_from)
qed

text \<open>
  C6. Runs of the whole process: reconciliations and watch handlers in any order, restarts, and steps
  of the environment in between. The cache of the resolver is consistent in every reachable
  state. And while the DNS provider cannot finalize and nobody else takes the finalizer away, a
  Gslb that once had the finalizer is still there with it in every reachable state.
\<close>

theorem run_keeps_guarded:
  assumes "kube_api S V" and "range_ok ord" and "run S ord zsort r env w0 dr w"
  shows "dr_ok dr \<and>
    (guarded V k w0 \<and> (\<forall>w g. fst (pr_Finalize S (re_provider r) w g) \<noteq> None) \<and>
     (\<forall>w w'. env w w' \<and> guarded V k w \<longrightarrow> guarded V k w') \<longrightarrow> guarded V k w)"
  using kube_api.run_dr_ok [OF assms(1,3)] kube_api.run_guarded [OF assms(1,3) _ assms(2)] by blast

theorem run_keeps_guarded_witness:
  "\<exists>dr w. run down_sys rev (sort_key nsv_address) infoblox_reconciler (=) (store_of (doomed_gslb [gslbFinalizer])) dr w \<and>
     s_calls w > 0 \<and> guarded mem_view (''ns'', ''g'') w"
proof -
  let ?g = "doomed_gslb [gslbFinalizer]"
  obtain y w where e: "endpointMapHandler down_sys (store_of ?g) empty_meta = (y, w)" by fastforce
  have w: "s_calls w > 0"
    using e by (auto simp: endpointMapHandler_def down_sys_def quiet_sys_def mem_listGslb_def tick_def split: sum.splits option.splits)
  have r: "run down_sys rev (sort_key nsv_address) infoblox_reconciler (=) (store_of ?g) NewDependencyResolver w"
    by (rule run.endpoints [OF run.start [OF fresh_cache_New] e])
  have "guarded mem_view (''ns'', ''g'') (store_of ?g)" by (simp add: guarded_def metas_def)
  then have "guarded mem_view (''ns'', ''g'') w"
    using run_keeps_guarded [OF down_api _ r, of "(''ns'', ''g'')"] down_finalize by (simp add: range_ok_def)
  with w r show ?thesis by blast
qed

end
